(* ===== verification/Prelude.thy ===== *)
theory Prelude
  imports Main "HOL-Library.AList" "HOL-Library.Multiset" "HOL-Library.Word"
begin

text \<open>
  Shared vocabulary of the development: Go's \<open>time.Time\<close> and \<open>time.Duration\<close>, Go maps,
  and the list and map facts the components use.

  A \<open>time.Time\<close> is the integer number of nanoseconds since the Unix epoch, a
  \<open>time.Duration\<close> an integer number of nanoseconds. \<open>t.After(u)\<close> is \<open>u < t\<close>,
  \<open>t.Before(u)\<close> is \<open>t < u\<close>, \<open>t.Add(d)\<close> is \<open>t + d\<close>; \<open>t.Sub(u)\<close> saturates at the
  bounds of a 64-bit duration. Operations that read the clock take the reading as an argument.

  A Go map is an association list with distinct keys. Its \<open>range\<close> order is unspecified in Go,
  so an operation whose result could depend on it takes a reordering function as an argument.
\<close>

section \<open>Time\<close>

type_synonym gotime = int
type_synonym duration = int

definition Millisecond :: duration where "Millisecond = 1000000"
definition Second :: duration where "Second = 1000 * Millisecond"
definition Minute :: duration where "Minute = 60 * Second"
definition Hour :: duration where "Hour = 60 * Minute"

named_theorems time_units \<open>values of the duration constants\<close>

lemmas [time_units] = Millisecond_def Second_def Minute_def Hour_def

definition max_duration :: duration where "max_duration = 2 ^ 63 - 1"
definition min_duration :: duration where "min_duration = - (2 ^ 63)"

definition time_sub :: "gotime \<Rightarrow> gotime \<Rightarrow> duration" where
  "time_sub t u = max min_duration (min max_duration (t - u))"

text \<open>The zero \<open>time.Time\<close> is midnight, January 1 of the year 1.\<close>

definition zero_time :: gotime where "zero_time = - 62135596800 * 1000000000"

definition is_zero :: "gotime \<Rightarrow> bool" where "is_zero t \<longleftrightarrow> t = zero_time"

text \<open>
  \<open>t.Unix()\<close> converted to \<open>uint64\<close>, and \<open>time.Unix(int64(s), 0)\<close>: the library stores
  seconds since year 1 in an \<open>int64\<close>, so the offset is added with wrap-around.
\<close>

definition unix_seconds :: "gotime \<Rightarrow> 64 word" where
  "unix_seconds t = word_of_int (t div 1000000000)"

definition time_of_unix :: "64 word \<Rightarrow> gotime" where
  "time_of_unix s = (sint (s + 62135596800) - 62135596800) * 1000000000"

lemma time_sub_small:
  "\<bar>t - u\<bar> < 2 ^ 63 \<Longrightarrow> time_sub t u = t - u"
  by (auto simp: time_sub_def max_duration_def min_duration_def)

lemma time_sub_less_iff:
  "min_duration < d \<Longrightarrow> d \<le> max_duration \<Longrightarrow> time_sub t u < d \<longleftrightarrow> t - u < d"
  by (auto simp: time_sub_def min_def max_def)

lemma time_of_unix_seconds:
  assumes "- (2 ^ 62) \<le> t div 1000000000" and "t div 1000000000 < 2 ^ 62"
  shows "time_of_unix (unix_seconds t) = (t div 1000000000) * 1000000000"
proof -
  let ?s = "t div 1000000000"
  have "unix_seconds t + 62135596800 = (word_of_int (?s + 62135596800) :: 64 word)"
    by (simp add: unix_seconds_def)
  moreover have "sint (word_of_int (?s + 62135596800) :: 64 word) = ?s + 62135596800"
    using assms by (intro signed_take_bit_int_eq_self [THEN trans [OF sint_sbintrunc']]) auto
  ultimately show ?thesis by (simp add: time_of_unix_def)
qed

section \<open>Go maps\<close>

type_synonym ('k, 'v) gomap = "('k \<times> 'v) list"

definition gm_ok :: "('k, 'v) gomap \<Rightarrow> bool" where
  "gm_ok m \<longleftrightarrow> distinct (map fst m)"

abbreviation gm_get :: "('k, 'v) gomap \<Rightarrow> 'k \<Rightarrow> 'v option" where
  "gm_get \<equiv> map_of"

abbreviation gm_put :: "'k \<Rightarrow> 'v \<Rightarrow> ('k, 'v) gomap \<Rightarrow> ('k, 'v) gomap" where
  "gm_put \<equiv> AList.update"

abbreviation gm_del :: "'k \<Rightarrow> ('k, 'v) gomap \<Rightarrow> ('k, 'v) gomap" where
  "gm_del \<equiv> AList.delete"

text \<open>
  The contract the packages rely on: a map with lookup, insertion, deletion and a size, whose
  size never grows on deletion and grows by one at most, and only for a new key, on insertion.
\<close>

locale go_map =
  fixes get :: "'m \<Rightarrow> 'k \<Rightarrow> 'v option"
    and put :: "'k \<Rightarrow> 'v \<Rightarrow> 'm \<Rightarrow> 'm"
    and del :: "'k \<Rightarrow> 'm \<Rightarrow> 'm"
    and len :: "'m \<Rightarrow> nat"
    and ok :: "'m \<Rightarrow> bool"
  assumes get_put: "ok m \<Longrightarrow> get (put k v m) = (get m)(k \<mapsto> v)"
    and get_del: "ok m \<Longrightarrow> get (del k m) = (get m)(k := None)"
    and len_card: "ok m \<Longrightarrow> len m = card (dom (get m))"
    and finite_get: "ok m \<Longrightarrow> finite (dom (get m))"
    and ok_put: "ok m \<Longrightarrow> ok (put k v m)"
    and ok_del: "ok m \<Longrightarrow> ok (del k m)"
begin

lemma len_put:
  "ok m \<Longrightarrow> len (put k v m) = (if get m k = None then Suc (len m) else len m)"
  by (simp add: len_card ok_put get_put finite_get domIff insert_absorb)

lemma len_del:
  "ok m \<Longrightarrow> len (del k m) = (if get m k = None then len m else len m - 1)"
  by (auto simp: len_card ok_del get_del finite_get domIff)

lemma len_del_le: "ok m \<Longrightarrow> len (del k m) \<le> len m"
  by (simp add: len_del)

lemma len_del_less: "ok m \<Longrightarrow> get m k \<noteq> None \<Longrightarrow> len (del k m) < len m"
proof -
  assume ok: "ok m" and k: "get m k \<noteq> None"
  then have "0 < len m"
    by (auto simp: len_card finite_get card_gt_0_iff domIff)
  with ok k show ?thesis by (simp add: len_del)
qed

lemma get_put_same: "ok m \<Longrightarrow> get (put k v m) k = Some v"
  by (simp add: get_put)

lemma get_put_other: "ok m \<Longrightarrow> j \<noteq> k \<Longrightarrow> get (put k v m) j = get m j"
  by (simp add: get_put)

lemma put_in_cap:
  "ok m \<Longrightarrow> len m \<le> cap \<Longrightarrow> get m k = None \<longrightarrow> len m < cap \<Longrightarrow> len (put k v m) \<le> cap"
  by (auto simp: len_put)

end

lemma gm_ok_update [simp, intro]: "gm_ok m \<Longrightarrow> gm_ok (gm_put k v m)"
  by (simp add: gm_ok_def distinct_update)

lemma gm_ok_delete [simp, intro]: "gm_ok m \<Longrightarrow> gm_ok (gm_del k m)"
  by (simp add: gm_ok_def distinct_delete)

lemma gm_ok_filter [simp, intro]: "gm_ok m \<Longrightarrow> gm_ok (filter P m)"
  by (simp add: gm_ok_def distinct_map_filter)

lemma gm_ok_Nil [simp]: "gm_ok []"
  by (simp add: gm_ok_def)

interpretation gm: go_map map_of AList.update AList.delete length gm_ok
proof unfold_locales
  fix m :: "('k \<times> 'v) list"
  assume ok: "gm_ok m"
  then have "card (dom (map_of m)) = card (set (map fst m))"
    by (simp add: dom_map_of_conv_image_fst)
  also have "\<dots> = length m"
    using ok by (simp add: gm_ok_def distinct_card del: set_map)
  finally show "length m = card (dom (map_of m))" by simp
qed (auto simp: AList.update_conv' AList.delete_conv' finite_dom_map_of gm_ok_def
      distinct_update distinct_delete)

lemma gm_ok_mset: "mset m = mset m' \<Longrightarrow> gm_ok m = gm_ok m'"
  by (metis gm_ok_def mset_eq_imp_distinct_iff mset_map)

lemma gm_get_mset: "mset m = mset m' \<Longrightarrow> gm_ok m \<Longrightarrow> gm_get m = gm_get m'"
  by (metis gm_ok_def gm_ok_mset map_of_inject_set mset_eq_setD)

lemma gm_get_in_set: "gm_ok m \<Longrightarrow> gm_get m k = Some v \<longleftrightarrow> (k, v) \<in> set m"
  by (simp add: gm_ok_def)

lemma gm_get_filter:
  "gm_ok m \<Longrightarrow>
   gm_get (filter P m) k = (case gm_get m k of None \<Rightarrow> None | Some v \<Rightarrow> if P (k, v) then Some v else None)"
  by (induction m) (auto simp: gm_ok_def map_of_eq_None_iff split: option.splits intro: rev_image_eqI)

text \<open>
  The order in which a \<open>range\<close> visits a map: the one asked for, when it is an order of the
  map's entries.
\<close>

definition range_order :: "(('k, 'v) gomap \<Rightarrow> ('k, 'v) gomap) \<Rightarrow> ('k, 'v) gomap \<Rightarrow> ('k, 'v) gomap" where
  "range_order iter m = (if mset (iter m) = mset m then iter m else m)"

lemma mset_range_order [simp]: "mset (range_order iter m) = mset m"
  by (simp add: range_order_def)

lemma set_range_order [simp]: "set (range_order iter m) = set m"
  by (metis mset_range_order set_mset_mset)

section \<open>Lists\<close>

lemma sorted_filter_le: "sorted xs \<Longrightarrow> sorted (filter P (xs :: 'a::linorder list))"
  by (simp add: sorted_wrt_filter)

lemma last_in_sorted: "sorted xs \<Longrightarrow> x \<in> set xs \<Longrightarrow> x \<le> last (xs :: 'a::linorder list)"
  by (metis append_butlast_last_id empty_iff list.set(1) order_refl
      rotate1.simps(2) set_rotate1 sorted_append set_ConsD list.set_intros(1))

lemma hd_in_sorted: "sorted xs \<Longrightarrow> x \<in> set xs \<Longrightarrow> hd (xs :: 'a::linorder list) \<le> x"
  by (cases xs) auto

section \<open>Label lookup\<close>

text \<open>
  The interface \<open>LabelLookup\<close> of \<^verbatim>\<open>internal/model\<close>, with what its users rely on: a label set
  for a working directory and a command is found for every pair that shares its key, and no
  other label changes.
\<close>

locale label_lookup =
  fixes look :: "'s \<Rightarrow> string \<Rightarrow> string list \<Rightarrow> string"
    and relabel :: "string \<Rightarrow> string list \<Rightarrow> string \<Rightarrow> 's \<Rightarrow> 's"
    and same_key :: "string \<Rightarrow> string list \<Rightarrow> string \<Rightarrow> string list \<Rightarrow> bool"
    and ok :: "'s \<Rightarrow> bool"
  assumes look_relabel: "ok s \<Longrightarrow> look (relabel cwd command label s) cwd' command' =
      (if same_key cwd' command' cwd command then label else look s cwd' command')"
    and ok_relabel: "ok s \<Longrightarrow> ok (relabel cwd command label s)"
    and same_key_refl: "same_key cwd command cwd command"
begin

lemma look_same: "ok s \<Longrightarrow> look (relabel cwd command label s) cwd command = label"
  by (simp add: look_relabel same_key_refl)

lemma look_last:
  "ok s \<Longrightarrow> look (relabel cwd command label (relabel cwd command label' s)) cwd' command' =
    look (relabel cwd command label s) cwd' command'"
  by (simp add: look_relabel ok_relabel)

end

end
