(* ===== verification/GoStrings.thy ===== *)
theory GoStrings
  imports Prelude "HOL-Library.Char_ord" "HOL-Library.List_Lexorder"
begin

text \<open>
  The parts of Go's \<^verbatim>\<open>strings\<close>, \<^verbatim>\<open>strconv\<close>, \<^verbatim>\<open>unicode/utf8\<close>, \<^verbatim>\<open>encoding/hex\<close> and \<^verbatim>\<open>net\<close>
  that the program uses. A Go string is a sequence of bytes, as an Isabelle \<open>string\<close> is: a
  \<open>char\<close> is one byte, and \<open>len(s)\<close> is \<open>length s\<close>. String order is bytewise lexicographic.
\<close>

section \<open>Prefixes, searching, splitting\<close>

definition has_prefix :: "string \<Rightarrow> string \<Rightarrow> bool" where
  "has_prefix p s \<longleftrightarrow> take (length p) s = p"

definition has_suffix :: "string \<Rightarrow> string \<Rightarrow> bool" where
  "has_suffix p s \<longleftrightarrow> length p \<le> length s \<and> drop (length s - length p) s = p"

fun index_byte :: "char \<Rightarrow> string \<Rightarrow> nat option" where
  "index_byte c [] = None"
| "index_byte c (x # xs) = (if x = c then Some 0 else map_option Suc (index_byte c xs))"

fun last_index_byte :: "char \<Rightarrow> string \<Rightarrow> nat option" where
  "last_index_byte c [] = None"
| "last_index_byte c (x # xs) =
     (case last_index_byte c xs of
        Some i \<Rightarrow> Some (Suc i)
      | None \<Rightarrow> if x = c then Some 0 else None)"

text \<open>\<open>strings.Split\<close> with a one-byte separator: never empty, one piece more than separators.\<close>

fun split_on :: "char \<Rightarrow> string \<Rightarrow> string list" where
  "split_on c [] = [[]]"
| "split_on c (x # xs) =
     (if x = c then [] # split_on c xs
      else (case split_on c xs of [] \<Rightarrow> [[x]] | p # ps \<Rightarrow> (x # p) # ps))"

fun join :: "string \<Rightarrow> string list \<Rightarrow> string" where
  "join sep [] = []"
| "join sep [x] = x"
| "join sep (x # y # ys) = x @ sep @ join sep (y # ys)"

lemma split_on_nonempty [simp]: "split_on c s \<noteq> []"
  by (induction s) (auto split: list.splits)

lemma split_on_no_sep [simp]: "c \<notin> set s \<Longrightarrow> split_on c s = [s]"
  by (induction s) auto

lemma split_on_append:
  "split_on c (s @ c # t) = split_on c s @ split_on c t"
proof (induction s)
  case (Cons x s)
  show ?case
  proof (cases "x = c")
    case False
    obtain p ps where "split_on c s = p # ps"
      by (cases "split_on c s") auto
    with Cons False show ?thesis by simp
  qed (simp add: Cons)
qed simp

lemma split_on_pieces: "p \<in> set (split_on c s) \<Longrightarrow> c \<notin> set p"
proof (induction s arbitrary: p)
  case (Cons x s)
  then show ?case
    by (cases "split_on c s") (auto split: if_splits)
qed simp

lemma join_split_on [simp]: "join [c] (split_on c s) = s"
proof (induction s)
  case (Cons x s)
  then show ?case
    by (cases "split_on c s"; cases "tl (split_on c s)") auto
qed simp

lemma join_append:
  "xs \<noteq> [] \<Longrightarrow> ys \<noteq> [] \<Longrightarrow> join sep (xs @ ys) = join sep xs @ sep @ join sep ys"
  by (induction sep xs rule: join.induct) (cases ys, auto)+

lemma split_on_join:
  "xs \<noteq> [] \<Longrightarrow> \<forall>x \<in> set xs. c \<notin> set x \<Longrightarrow> split_on c (join [c] xs) = xs"
  by (induction "[c]" xs rule: join.induct) (auto simp: split_on_append)

lemma index_byte_None: "index_byte c s = None \<longleftrightarrow> c \<notin> set s"
  by (induction s) auto

lemma index_byte_Some:
  "index_byte c s = Some i \<Longrightarrow> i < length s \<and> s ! i = c \<and> c \<notin> set (take i s)"
  by (induction s arbitrary: i) (auto split: if_splits)

lemma index_byte_append: "c \<notin> set p \<Longrightarrow> index_byte c (p @ c # q) = Some (length p)"
  by (induction p) auto

lemma last_index_byte_None: "last_index_byte c s = None \<longleftrightarrow> c \<notin> set s"
  by (induction s) (auto split: option.splits)

lemma last_index_byte_Some:
  "last_index_byte c s = Some i \<Longrightarrow> i < length s \<and> s ! i = c \<and> c \<notin> set (drop (Suc i) s)"
  by (induction s arbitrary: i) (auto split: option.splits if_splits simp: last_index_byte_None)

lemma last_index_byte_append: "c \<notin> set q \<Longrightarrow> last_index_byte c (p @ c # q) = Some (length p)"
proof (induction p)
  case Nil
  then show ?case by (simp add: last_index_byte_None [THEN iffD2])
qed simp

section \<open>Bytes, UTF-8 and white space\<close>

type_synonym byte = "8 word"
type_synonym rune = nat

definition byte_of :: "char \<Rightarrow> byte" where "byte_of c = word_of_nat (of_char c)"
definition char_of_byte :: "byte \<Rightarrow> char" where "char_of_byte b = char_of (unat b)"

definition bytes_of :: "string \<Rightarrow> byte list" where "bytes_of = map byte_of"
definition string_of :: "byte list \<Rightarrow> string" where "string_of = map char_of_byte"

definition rune_error :: rune where "rune_error = 65533"

text \<open>\<open>utf8.DecodeRuneInString\<close> on a non-empty string: the rune and its width in bytes.\<close>

definition cont :: "nat \<Rightarrow> nat \<Rightarrow> nat \<Rightarrow> bool" where
  "cont lo hi b \<longleftrightarrow> lo \<le> b \<and> b \<le> hi"

fun decode_rune :: "nat list \<Rightarrow> rune \<times> nat" where
  "decode_rune [] = (rune_error, 0)"
| "decode_rune (b0 # bs) =
    (if b0 < 128 then (b0, 1)
     else if 194 \<le> b0 \<and> b0 \<le> 223 then
       (case bs of
          b1 # _ \<Rightarrow> if cont 128 191 b1 then ((b0 - 192) * 64 + (b1 - 128), 2) else (rune_error, 1)
        | [] \<Rightarrow> (rune_error, 1))
     else if 224 \<le> b0 \<and> b0 \<le> 239 then
       (case bs of
          b1 # b2 # _ \<Rightarrow>
            if cont (if b0 = 224 then 160 else 128) (if b0 = 237 then 159 else 191) b1
               \<and> cont 128 191 b2
            then ((b0 - 224) * 4096 + (b1 - 128) * 64 + (b2 - 128), 3) else (rune_error, 1)
        | _ \<Rightarrow> (rune_error, 1))
     else if 240 \<le> b0 \<and> b0 \<le> 244 then
       (case bs of
          b1 # b2 # b3 # _ \<Rightarrow>
            if cont (if b0 = 240 then 144 else 128) (if b0 = 244 then 143 else 191) b1
               \<and> cont 128 191 b2 \<and> cont 128 191 b3
            then ((b0 - 240) * 262144 + (b1 - 128) * 4096 + (b2 - 128) * 64 + (b3 - 128), 4)
            else (rune_error, 1)
        | _ \<Rightarrow> (rune_error, 1))
     else (rune_error, 1))"

lemma decode_rune_width: "bs \<noteq> [] \<Longrightarrow> 0 < snd (decode_rune bs) \<and> snd (decode_rune bs) \<le> length bs"
  by (cases bs) (auto split: list.splits)

text \<open>The runes a \<open>for range\<close> loop over a string visits; an invalid byte is one error rune.\<close>

function runes_of :: "nat list \<Rightarrow> rune list" where
  "runes_of [] = []"
| "runes_of (b # bs) = fst (decode_rune (b # bs)) # runes_of (drop (snd (decode_rune (b # bs))) (b # bs))"
  by pat_completeness auto
termination
proof (relation "measure length")
  fix b :: nat and bs :: "nat list"
  have "0 < snd (decode_rune (b # bs))" using decode_rune_width [of "b # bs"] by blast
  then show "(drop (snd (decode_rune (b # bs))) (b # bs), b # bs) \<in> measure length"
    by (simp del: decode_rune.simps)
qed simp

definition codes :: "string \<Rightarrow> nat list" where "codes = map of_char"

definition runes :: "string \<Rightarrow> rune list" where "runes s = runes_of (codes s)"

definition rune_count :: "string \<Rightarrow> nat" where "rune_count s = length (runes s)"

text \<open>\<open>utf8.DecodeLastRuneInString\<close>: back up over at most three continuation bytes.\<close>

fun back_up :: "nat list \<Rightarrow> nat \<Rightarrow> nat \<Rightarrow> nat" where
  "back_up bs 0 start = start"
| "back_up bs (Suc n) start =
     (if start = 0 then 0
      else if bs ! (start - 1) div 64 \<noteq> 2 then start - 1
      else back_up bs n (start - 1))"

definition decode_last_rune :: "nat list \<Rightarrow> rune \<times> nat" where
  "decode_last_rune bs =
    (let n = length bs in
     if n = 0 then (rune_error, 0)
     else if last bs < 128 then (last bs, 1)
     else let start = back_up bs 3 (n - 1);
              (r, size) = decode_rune (drop start bs)
          in if start + size = n then (r, size) else (rune_error, 1))"

lemma back_up_le: "back_up bs n start \<le> start"
  by (induction bs n start rule: back_up.induct) auto

lemma decode_last_rune_width:
  "bs \<noteq> [] \<Longrightarrow> 0 < snd (decode_last_rune bs) \<and> snd (decode_last_rune bs) \<le> length bs"
proof -
  assume ne: "bs \<noteq> []"
  let ?s = "back_up bs 3 (length bs - 1)"
  have "?s < length bs"
    using back_up_le [of bs 3 "length bs - 1"] ne by (cases bs) auto
  then have "0 < snd (decode_rune (drop ?s bs))"
    using decode_rune_width [of "drop ?s bs"] by simp
  with ne show ?thesis
    by (cases bs rule: rev_cases)
       (auto simp: decode_last_rune_def Let_def split: prod.splits)
qed

text \<open>\<open>unicode.IsSpace\<close> and \<open>unicode.IsControl\<close> (the category Cc lies in Latin-1).\<close>

definition is_space :: "rune \<Rightarrow> bool" where
  "is_space r \<longleftrightarrow> r \<in> {9, 10, 11, 12, 13, 32, 133, 160, 5760, 8232, 8233, 8239, 8287, 12288}
     \<or> 8192 \<le> r \<and> r \<le> 8202"

definition is_control :: "rune \<Rightarrow> bool" where
  "is_control r \<longleftrightarrow> r < 32 \<or> 127 \<le> r \<and> r < 160"

function trim_left_bytes :: "nat list \<Rightarrow> nat list" where
  "trim_left_bytes bs =
     (if bs \<noteq> [] \<and> is_space (fst (decode_rune bs))
      then trim_left_bytes (drop (snd (decode_rune bs)) bs) else bs)"
  by pat_completeness auto
termination
  by (relation "measure length") (use decode_rune_width in fastforce)+

function trim_right_bytes :: "nat list \<Rightarrow> nat list" where
  "trim_right_bytes bs =
     (if bs \<noteq> [] \<and> is_space (fst (decode_last_rune bs))
      then trim_right_bytes (take (length bs - snd (decode_last_rune bs)) bs) else bs)"
  by pat_completeness auto
termination
  by (relation "measure length") (use decode_last_rune_width in fastforce)+

declare trim_left_bytes.simps [simp del] trim_right_bytes.simps [simp del]

definition trim_space :: "string \<Rightarrow> string" where
  "trim_space s = map char_of (trim_right_bytes (trim_left_bytes (codes s)))"

text \<open>\<open>strings.TrimLeft\<close> and \<open>strings.Trim\<close> with a one-byte ASCII cutset.\<close>

definition trim_left_char :: "char \<Rightarrow> string \<Rightarrow> string" where
  "trim_left_char c s = dropWhile (\<lambda>x. x = c) s"

definition trim_right_char :: "char \<Rightarrow> string \<Rightarrow> string" where
  "trim_right_char c s = rev (dropWhile (\<lambda>x. x = c) (rev s))"

definition trim_char :: "char \<Rightarrow> string \<Rightarrow> string" where
  "trim_char c s = trim_right_char c (trim_left_char c s)"

text \<open>
  \<open>strings.EqualFold\<close> against an ASCII word, by simple case folding: the only runes outside ASCII
  that fold to an ASCII letter are U+017F (long s) and U+212A (the Kelvin sign).
\<close>

definition fold_rune :: "rune \<Rightarrow> rune" where
  "fold_rune r = (if 65 \<le> r \<and> r \<le> 90 then r + 32 else if r = 383 then 115
     else if r = 8490 then 107 else r)"

definition equal_fold :: "string \<Rightarrow> string \<Rightarrow> bool" where
  "equal_fold s t \<longleftrightarrow> map fold_rune (runes s) = map fold_rune (runes t)"

text \<open>
  \<open>strings.ToLower\<close> as far as a comparison with an ASCII word can see it: no rune outside ASCII
  has one of the letters of those words as its lower case.
\<close>

definition ascii_lower :: "string \<Rightarrow> string" where
  "ascii_lower = map (\<lambda>c. if CHR ''A'' \<le> c \<and> c \<le> CHR ''Z'' then char_of (of_char c + 32 :: nat) else c)"

subsection \<open>ASCII strings\<close>

definition ascii :: "string \<Rightarrow> bool" where
  "ascii s \<longleftrightarrow> (\<forall>c \<in> set s. of_char c < (128::nat))"

lemma codes_simps [simp]:
  "codes [] = []" "codes (c # s) = of_char c # codes s" "length (codes s) = length s"
  "codes s = [] \<longleftrightarrow> s = []"
  by (auto simp: codes_def)

lemma chars_of_codes [simp]: "map char_of (codes s) = s"
  by (simp add: codes_def comp_def)

lemma byte_of_char_of_byte [simp]: "byte_of (char_of_byte b) = b"
proof -
  have "unat b < 256" using unsigned_less [of b, where ?'a = nat] by simp
  then show ?thesis by (simp add: byte_of_def char_of_byte_def of_char_mod_256)
qed

lemma char_of_byte_byte_of [simp]: "char_of_byte (byte_of c) = c"
  by (simp add: byte_of_def char_of_byte_def unat_of_nat of_char_mod_256)

lemma bytes_of_string_of [simp]: "bytes_of (string_of bs) = bs"
  by (simp add: bytes_of_def string_of_def comp_def)

lemma string_of_bytes_of [simp]: "string_of (bytes_of s) = s"
  by (simp add: bytes_of_def string_of_def comp_def)

lemma length_bytes_of [simp]: "length (bytes_of s) = length s"
  by (simp add: bytes_of_def)

lemma length_string_of [simp]: "length (string_of bs) = length bs"
  by (simp add: string_of_def)

lemma decode_rune_ascii: "b < 128 \<Longrightarrow> decode_rune (b # bs) = (b, 1)"
  by simp

lemma runes_of_ascii: "(\<forall>b \<in> set bs. b < 128) \<Longrightarrow> runes_of bs = bs"
  by (induction bs) (simp_all add: decode_rune_ascii)

lemma runes_ascii: "ascii s \<Longrightarrow> runes s = codes s"
  by (simp add: runes_def ascii_def runes_of_ascii codes_def)

lemma runes_Nil [simp]: "runes [] = []"
  by (simp add: runes_def)

lemma length_runes_of: "length (runes_of bs) \<le> length bs"
proof (induction bs rule: runes_of.induct)
  case (2 b bs)
  have "0 < snd (decode_rune (b # bs))" using decode_rune_width [of "b # bs"] by blast
  with 2 show ?case by (simp del: decode_rune.simps)
qed simp

lemma rune_count_le: "rune_count s \<le> length s"
  using length_runes_of [of "codes s"] by (simp add: rune_count_def runes_def)

lemma trim_left_ident: "bs = [] \<or> hd bs < 128 \<and> \<not> is_space (hd bs) \<Longrightarrow> trim_left_bytes bs = bs"
  by (subst trim_left_bytes.simps) (cases bs; auto)

lemma trim_right_ident: "bs = [] \<or> last bs < 128 \<and> \<not> is_space (last bs) \<Longrightarrow> trim_right_bytes bs = bs"
  by (subst trim_right_bytes.simps) (auto simp: decode_last_rune_def Let_def)

lemma trim_space_ident:
  assumes "s = [] \<or> of_char (hd s) < (128::nat) \<and> \<not> is_space (of_char (hd s))"
    and "s = [] \<or> of_char (last s) < (128::nat) \<and> \<not> is_space (of_char (last s))"
  shows "trim_space s = s"
proof -
  have hd: "s \<noteq> [] \<Longrightarrow> hd (codes s) = of_char (hd s)" by (simp add: codes_def list.map_sel)
  have last: "s \<noteq> [] \<Longrightarrow> last (codes s) = of_char (last s)" by (simp add: codes_def last_map)
  have "trim_left_bytes (codes s) = codes s"
    using assms hd by (intro trim_left_ident) auto
  moreover have "trim_right_bytes (codes s) = codes s"
    using assms last by (intro trim_right_ident) auto
  ultimately show ?thesis by (simp add: trim_space_def)
qed

lemma trim_left_space: "trim_left_bytes (32 # bs) = trim_left_bytes bs"
  by (subst trim_left_bytes.simps) (simp add: is_space_def)

lemma trim_space_Nil [simp]: "trim_space [] = []"
  by (rule trim_space_ident) auto

subsection \<open>Evaluation on ASCII strings\<close>

definition ascii_space :: "char \<Rightarrow> bool" where
  "ascii_space c \<longleftrightarrow> c \<in> {CHR 0x09, CHR 0x0A, CHR 0x0B, CHR 0x0C, CHR 0x0D, CHR '' ''}"

lemma ascii_iff_digit7: "of_char c < (128::nat) \<longleftrightarrow> \<not> digit7 c"
  by (cases c) (simp add: of_char_def)

lemma ascii_space_iff: "\<not> digit7 c \<Longrightarrow> is_space (of_char c) = ascii_space c"
proof -
  assume "\<not> digit7 c"
  then have "of_char c < (128::nat)" by (simp add: ascii_iff_digit7)
  moreover have "c = char_of (of_char c :: nat)" by simp
  ultimately show ?thesis
    by (auto simp add: is_space_def ascii_space_def of_char_eq_iff [symmetric, where 'a = nat] simp del: of_char_eq_iff)
qed

lemma trim_left_ascii:
  "list_all (\<lambda>c. \<not> digit7 c) s \<Longrightarrow> trim_left_bytes (codes s) = codes (dropWhile ascii_space s)"
proof (induction s)
  case (Cons c s)
  then have "of_char c < (128::nat)" by (simp add: ascii_iff_digit7)
  with Cons show ?case
    by (subst trim_left_bytes.simps) (simp add: ascii_space_iff)
qed (simp add: trim_left_bytes.simps)

lemma trim_right_ascii:
  "list_all (\<lambda>c. \<not> digit7 c) s \<Longrightarrow>
   trim_right_bytes (codes s) = codes (rev (dropWhile ascii_space (rev s)))"
proof (induction s rule: rev_induct)
  case (snoc c s)
  then have "of_char c < (128::nat)" by (simp add: ascii_iff_digit7)
  moreover have "codes (s @ [c]) = codes s @ [of_char c]" by (simp add: codes_def)
  ultimately show ?case using snoc
    by (subst trim_right_bytes.simps) (simp add: ascii_space_iff decode_last_rune_def Let_def)
qed (simp add: trim_right_bytes.simps)

lemma trim_space_code [code]:
  "trim_space s =
    (if list_all (\<lambda>c. \<not> digit7 c) s then rev (dropWhile ascii_space (rev (dropWhile ascii_space s)))
     else map char_of (trim_right_bytes (trim_left_bytes (codes s))))"
proof (cases "list_all (\<lambda>c. \<not> digit7 c) s")
  case True
  moreover have "list_all (\<lambda>c. \<not> digit7 c) (dropWhile ascii_space s)"
    using True by (auto simp: list_all_iff dest: set_dropWhileD)
  ultimately show ?thesis
    by (simp add: trim_space_def trim_left_ascii trim_right_ascii)
qed (simp only: trim_space_def if_False)

lemma runes_code [code]:
  "runes s = (if list_all (\<lambda>c. \<not> digit7 c) s then codes s else runes_of (codes s))"
proof (cases "list_all (\<lambda>c. \<not> digit7 c) s")
  case True
  then have "ascii s" by (simp add: ascii_def list_all_iff ascii_iff_digit7)
  with True show ?thesis by (simp add: runes_ascii)
qed (simp only: runes_def if_False)

section \<open>Numbers\<close>

definition is_digit :: "char \<Rightarrow> bool" where
  "is_digit c \<longleftrightarrow> CHR ''0'' \<le> c \<and> c \<le> CHR ''9''"

definition digit_value :: "char \<Rightarrow> nat" where "digit_value c = of_char c - 48"

definition digits_value :: "string \<Rightarrow> nat" where
  "digits_value = foldl (\<lambda>n c. 10 * n + digit_value c) 0"

text \<open>\<open>strconv.Atoi\<close> on a 64-bit platform: an optional sign, decimal digits, no overflow.\<close>

definition atoi_digits :: "bool \<Rightarrow> string \<Rightarrow> int option" where
  "atoi_digits neg ds =
    (if ds = [] \<or> \<not> list_all is_digit ds then None
     else if neg then (if digits_value ds \<le> 2 ^ 63 then Some (- int (digits_value ds)) else None)
     else if digits_value ds < 2 ^ 63 then Some (int (digits_value ds)) else None)"

definition digits_int :: "string \<Rightarrow> int" where
  "digits_int = foldl (\<lambda>n c. 10 * n + (of_char c - 48)) 0"

lemma digits_int_value: "list_all is_digit ds \<Longrightarrow> int (digits_value ds) = digits_int ds"
proof (induction ds rule: rev_induct)
  case (snoc c ds)
  then have "48 \<le> (of_char c :: nat)" by (simp add: is_digit_def less_eq_char_def)
  then have "int (digit_value c) = of_char c - 48" by (simp add: digit_value_def of_nat_diff of_nat_of_char)
  with snoc show ?case by (simp add: digits_value_def digits_int_def)
qed (simp add: digits_value_def digits_int_def)

lemma atoi_digits_code [code]:
  "atoi_digits neg ds =
    (if ds = [] \<or> \<not> list_all is_digit ds then None
     else let n = digits_int ds in
       if neg then (if n \<le> 2 ^ 63 then Some (- n) else None)
       else if n < 2 ^ 63 then Some n else None)"
proof (cases "list_all is_digit ds")
  case True
  have "digits_value ds \<le> 2 ^ 63 \<longleftrightarrow> int (digits_value ds) \<le> 2 ^ 63"
    and "digits_value ds < 2 ^ 63 \<longleftrightarrow> int (digits_value ds) < 2 ^ 63" by simp_all
  with True show ?thesis by (simp only: atoi_digits_def Let_def digits_int_value)
next
  case False
  then show ?thesis by (simp add: atoi_digits_def)
qed

definition atoi :: "string \<Rightarrow> int option" where
  "atoi s =
    (case s of
       [] \<Rightarrow> None
     | c # cs \<Rightarrow> if c = CHR ''-'' then atoi_digits True cs
                 else if c = CHR ''+'' then atoi_digits False cs
                 else atoi_digits False s)"

fun decimal :: "nat \<Rightarrow> string" where
  "decimal n = (if n < 10 then [char_of (48 + n)] else decimal (n div 10) @ [char_of (48 + n mod 10)])"

declare decimal.simps [simp del]

text \<open>\<open>strconv.Itoa\<close> and \<open>%d\<close>.\<close>

definition itoa :: "int \<Rightarrow> string" where
  "itoa n = (if n < 0 then CHR ''-'' # decimal (nat (- n)) else decimal (nat n))"

function decimal_int :: "int \<Rightarrow> string" where
  "decimal_int n = (if n < 10 then [char_of (48 + n)] else decimal_int (n div 10) @ [char_of (48 + n mod 10)])"
  by pat_completeness auto
termination by (relation "measure nat") auto

declare decimal_int.simps [simp del]

lemma char_of_int: "char_of (int n) = char_of n"
  by (simp add: char_of_def bit_of_nat_iff_bit)

lemma decimal_int_nat: "decimal n = decimal_int (int n)"
proof (induction n rule: decimal.induct)
  case (1 n)
  have "char_of (48 + int m) = char_of (48 + m)" for m
    using char_of_int [of "48 + m"] by simp
  note this [of n] this [of "n mod 10"]
  with 1 show ?case
    by (simp add: decimal.simps [of n] decimal_int.simps [of "int n"] of_nat_mod of_nat_div del: of_nat_add)
qed

lemma itoa_code [code]:
  "itoa n = (if n < 0 then CHR ''-'' # decimal_int (- n) else decimal_int n)"
  by (simp add: itoa_def decimal_int_nat)

lemma of_char_digit: "n < 10 \<Longrightarrow> of_char (char_of (48 + n) :: char) = 48 + (n::nat)"
  by (simp add: of_char_mod_256)

lemma digit_char: "n < 10 \<Longrightarrow> is_digit (char_of (48 + n)) \<and> digit_value (char_of (48 + n)) = n"
  by (simp add: is_digit_def digit_value_def less_eq_char_def of_char_digit)

lemma decimal_digits: "decimal n \<noteq> [] \<and> list_all is_digit (decimal n)"
proof (induction n rule: decimal.induct)
  case (1 n)
  then show ?case
    by (cases "n < 10") (simp_all add: decimal.simps [of n] digit_char)
qed

lemma digits_value_decimal: "digits_value (decimal n) = n"
proof (induction n rule: decimal.induct)
  case (1 n)
  show ?case
  proof (cases "n < 10")
    case True
    then show ?thesis by (simp add: decimal.simps [of n] digits_value_def digit_char)
  next
    case False
    with 1 have "digits_value (decimal (n div 10)) = n div 10" by simp
    then show ?thesis
      using False by (simp add: decimal.simps [of n] digits_value_def digit_char)
  qed
qed

lemma decimal_not: "c \<notin> {CHR ''0'' .. CHR ''9''} \<Longrightarrow> c \<notin> set (decimal n)"
  using decimal_digits [of n] by (auto simp: list_all_iff is_digit_def)

lemma atoi_itoa:
  assumes "- (2 ^ 63) \<le> n" and "n < 2 ^ 63"
  shows "atoi (itoa n) = Some n"
proof (cases "n < 0")
  case True
  with assms show ?thesis
    using decimal_digits [of "nat (- n)"]
    by (simp add: itoa_def atoi_def atoi_digits_def digits_value_decimal)
next
  case False
  obtain c cs where d: "decimal (nat n) = c # cs"
    using decimal_digits [of "nat n"] by (cases "decimal (nat n)") auto
  then have c: "c \<noteq> CHR ''-''" "c \<noteq> CHR ''+''"
    using decimal_not [of "CHR ''-''" "nat n"] decimal_not [of "CHR ''+''" "nat n"]
    by (auto simp: less_eq_char_def)
  have "atoi_digits False (decimal (nat n)) = Some n"
    using decimal_digits [of "nat n"] assms False
    by (simp add: atoi_digits_def digits_value_decimal nat_less_iff)
  with c d show ?thesis
    using False by (simp add: itoa_def atoi_def)
qed

definition hex_digit :: "nat \<Rightarrow> char" where
  "hex_digit n = (if n < 10 then char_of (48 + n) else char_of (87 + n))"

text \<open>\<open>hex.EncodeToString\<close>.\<close>

definition hex_encode :: "byte list \<Rightarrow> string" where
  "hex_encode bs = concat (map (\<lambda>b. [hex_digit (unat b div 16), hex_digit (unat b mod 16)]) bs)"

lemma length_hex_encode [simp]: "length (hex_encode bs) = 2 * length bs"
  by (induction bs) (auto simp: hex_encode_def)

lemma hex_encode_take: "take (2 * n) (hex_encode bs) = hex_encode (take n bs)"
proof (induction bs arbitrary: n)
  case (Cons b bs)
  then show ?case by (cases n) (simp_all add: hex_encode_def)
qed (simp add: hex_encode_def)

lemma of_char_hex_digit:
  "n < 16 \<Longrightarrow> of_char (hex_digit n) = (if n < 10 then 48 + n else 87 + n :: nat)"
  by (simp add: hex_digit_def of_char_mod_256)

lemma hex_digit_inj: "m < 16 \<Longrightarrow> n < 16 \<Longrightarrow> hex_digit m = hex_digit n \<longleftrightarrow> m = n"
proof
  assume "m < 16" "n < 16" and eq: "hex_digit m = hex_digit n"
  then have "(if m < 10 then 48 + m else 87 + m) = (if n < 10 then 48 + n else 87 + n)"
    using of_char_hex_digit [of m] of_char_hex_digit [of n] by simp
  then show "m = n" by (simp split: if_splits)
qed simp

lemma hex_encode_inj: "hex_encode bs = hex_encode cs \<longleftrightarrow> bs = cs"
proof (induction bs arbitrary: cs)
  case (Cons b bs)
  have digits: "unat (x::byte) div 16 < 16 \<and> unat x mod 16 < 16" for x
    using unsigned_less [of x, where ?'a = nat] by simp
  show ?case
  proof (cases cs)
    case cs: (Cons c cs')
    have "unat b div 16 = unat c div 16 \<and> unat b mod 16 = unat c mod 16 \<longleftrightarrow> b = c"
      by (metis div_mult_mod_eq unsigned_word_eqI)
    with Cons.IH [of cs'] cs digits show ?thesis
      by (auto simp: hex_encode_def hex_digit_inj)
  qed (simp add: hex_encode_def)
qed (cases cs, auto simp: hex_encode_def)

section \<open>Host and port\<close>

text \<open>\<open>net.JoinHostPort\<close>: a host with a colon is bracketed.\<close>

definition join_host_port :: "string \<Rightarrow> string \<Rightarrow> string" where
  "join_host_port host port =
    (if CHR '':'' \<in> set host then ''['' @ host @ '']:'' @ port else host @ '':'' @ port)"

text \<open>\<open>net.SplitHostPort\<close>; the error value is not used by the program.\<close>

definition split_host_port :: "string \<Rightarrow> (string \<times> string) option" where
  "split_host_port s =
    (case last_index_byte CHR '':'' s of
       None \<Rightarrow> None
     | Some i \<Rightarrow>
         if hd s = CHR ''['' then
           (case index_byte CHR '']'' s of
              None \<Rightarrow> None
            | Some e \<Rightarrow>
                if Suc e \<noteq> i then None
                else if CHR ''['' \<in> set (drop 1 s) \<or> CHR '']'' \<in> set (drop (Suc e) s) then None
                else Some (drop 1 (take e s), drop (Suc i) s))
         else if CHR '':'' \<in> set (take i s) then None
         else if CHR ''['' \<in> set s \<or> CHR '']'' \<in> set s then None
         else Some (take i s, drop (Suc i) s))"

section \<open>Paths\<close>

text \<open>\<open>filepath.Clean\<close> and \<open>filepath.Join\<close> on Unix; the elements kept so far are reversed.\<close>

fun clean_elems :: "bool \<Rightarrow> string list \<Rightarrow> string list \<Rightarrow> string list" where
  "clean_elems rooted acc [] = rev acc"
| "clean_elems rooted acc (e # es) =
     (if e = [] \<or> e = ''.'' then clean_elems rooted acc es
      else if e = ''..'' then
        (case acc of
           [] \<Rightarrow> clean_elems rooted (if rooted then [] else [e]) es
         | a # as \<Rightarrow> clean_elems rooted (if a = ''..'' then e # acc else as) es)
      else clean_elems rooted (e # acc) es)"

definition path_clean :: "string \<Rightarrow> string" where
  "path_clean p =
    (if p = [] then ''.''
     else let rooted = (hd p = CHR ''/'');
              es = clean_elems rooted [] (split_on CHR ''/'' p)
          in if rooted then CHR ''/'' # join ''/'' es
             else if es = [] then ''.'' else join ''/'' es)"

definition path_join :: "string list \<Rightarrow> string" where
  "path_join es = (case dropWhile (\<lambda>e. e = []) es of [] \<Rightarrow> [] | xs \<Rightarrow> path_clean (join ''/'' xs))"

end
