(* ===== verification/Filesystem.thy ===== *)
theory Filesystem
  imports GoStrings
begin

text \<open>
  The file system as the two writers of the program use it (\<^verbatim>\<open>writeAtomic\<close> of
  \<^verbatim>\<open>internal/store/store.go\<close> and \<^verbatim>\<open>atomicWriteFile\<close> of \<^verbatim>\<open>internal/config/config.go\<close>), the
  calls that can fail, and the contract of an atomic writer.

  \<open>cache\<close> is what a running process reads. What a power failure may leave under a name is
  tracked apart: \<open>current p\<close> lists the contents the file now called \<open>p\<close> may have on disk,
  \<open>older p\<close> those of the files whose replacement by a rename, creation or removal is not yet
  durable. \<open>fsync\<close> on the file leaves one content, \<open>fsync\<close> on the directory one name.
\<close>

type_synonym path = string
type_synonym content = string

record fs =
  cache :: "path \<Rightarrow> content option"
  current :: "path \<Rightarrow> content option list"
  older :: "path \<Rightarrow> content option list"

datatype fsop =
    OpenTrunc path
  | WriteFile path content
  | SyncFile path
  | CloseFile path
  | RenameFile path path
  | RemoveFile path
  | SyncDirOf path

fun apply_op :: "fsop \<Rightarrow> fs \<Rightarrow> fs" where
  "apply_op (OpenTrunc p) s =
     (case cache s p of
        None \<Rightarrow> s\<lparr>cache := (cache s)(p := Some []), older := (older s)(p := older s p @ current s p),
                  current := (current s)(p := [Some []])\<rparr>
      | Some _ \<Rightarrow> s\<lparr>cache := (cache s)(p := Some []), current := (current s)(p := Some [] # current s p)\<rparr>)"
| "apply_op (WriteFile p d) s =
     (case cache s p of
        None \<Rightarrow> s
      | Some c \<Rightarrow> s\<lparr>cache := (cache s)(p := Some (c @ d)),
                    current := (current s)(p := current s p @ map (\<lambda>k. Some (c @ take k d)) [0..<Suc (length d)])\<rparr>)"
| "apply_op (SyncFile p) s = s\<lparr>current := (current s)(p := [cache s p])\<rparr>"
| "apply_op (CloseFile p) s = s"
| "apply_op (RenameFile p q) s =
     s\<lparr>cache := (cache s)(q := cache s p, p := None),
       older := (older s)(q := older s q @ current s q, p := older s p @ current s p),
       current := (current s)(q := current s p, p := [None])\<rparr>"
| "apply_op (RemoveFile p) s =
     s\<lparr>cache := (cache s)(p := None), older := (older s)(p := older s p @ current s p),
       current := (current s)(p := [None])\<rparr>"
| "apply_op (SyncDirOf p) s = s\<lparr>older := (older s)(p := [])\<rparr>"

definition apply_ops :: "fsop list \<Rightarrow> fs \<Rightarrow> fs" where
  "apply_ops ops s = fold apply_op ops s"

lemma apply_ops_simps [simp]:
  "apply_ops [] s = s" "apply_ops (x # xs) s = apply_ops xs (apply_op x s)"
  by (simp_all add: apply_ops_def)

text \<open>The contents a name may have after the process dies, and after the power fails.\<close>

definition after_power_loss :: "fs \<Rightarrow> path \<Rightarrow> content option set" where
  "after_power_loss s p = set (older s p @ current s p)"

lemma after_power_loss_settled: "older s p = [] \<Longrightarrow> current s p = [cache s p] \<Longrightarrow> after_power_loss s p = {cache s p}"
  by (simp add: after_power_loss_def)

definition settled :: "fs \<Rightarrow> path \<Rightarrow> bool" where
  "settled s p \<longleftrightarrow> older s p = [] \<and> current s p = [cache s p]"

text \<open>Which of the calls of a write fail; a failing \<open>Write\<close> may have written a prefix.\<close>

record faults =
  open_fails :: bool
  write_fails :: "nat option"
  sync_fails :: bool
  close_fails :: bool
  rename_fails :: bool
  dir_open_fails :: bool
  dir_sync_fails :: bool

definition no_faults :: faults where
  "no_faults = \<lparr>open_fails = False, write_fails = None, sync_fails = False, close_fails = False,
     rename_fails = False, dir_open_fails = False, dir_sync_fails = False\<rparr>"

datatype write_error = ErrOpenTmp | ErrWriteTmp | ErrSyncTmp | ErrCloseTmp | ErrRename

definition tmpSuffix :: string where "tmpSuffix = ''.tmp''"

lemma grown_union: "A \<subseteq> B \<union> W \<Longrightarrow> A' \<subseteq> insert x A \<Longrightarrow> A' \<subseteq> B \<union> insert x W"
  by blast

lemma grown_choice: "a \<in> insert b W \<Longrightarrow> a' \<in> {a, x} \<Longrightarrow> a' \<in> insert b (insert x W)"
  by blast

text \<open>The contract of an atomic writer, for every pattern of failing calls.\<close>

locale atomic_writer =
  fixes writer :: "path \<Rightarrow> content \<Rightarrow> faults \<Rightarrow> fsop list \<times> write_error option"
  assumes every_prefix:
      "s' = apply_ops (take n (fst (writer p d fl))) s \<Longrightarrow>
       cache s' p \<in> {cache s p, Some d} \<and> after_power_loss s' p \<subseteq> insert (Some d) (after_power_loss s p)"
    and failure_keeps:
      "snd (writer p d fl) = Some e \<Longrightarrow> cache (apply_ops (fst (writer p d fl)) s) p = cache s p"
    and success_writes:
      "snd (writer p d fl) = None \<Longrightarrow> cache (apply_ops (fst (writer p d fl)) s) p = Some d"
    and success_cleans:
      "snd (writer p d fl) = None \<Longrightarrow> cache (apply_ops (fst (writer p d fl)) s) (p @ tmpSuffix) = None"
    and failure_cleans:
      "snd (writer p d fl) = Some e \<Longrightarrow> e \<noteq> ErrOpenTmp \<Longrightarrow>
       cache (apply_ops (fst (writer p d fl)) s) (p @ tmpSuffix) = None"
    and other_files:
      "q \<noteq> p \<Longrightarrow> q \<noteq> p @ tmpSuffix \<Longrightarrow> cache (apply_ops (take n (fst (writer p d fl))) s) q = cache s q"
    and no_faults_succeed: "snd (writer p d no_faults) = None"
begin

definition write_file :: "path \<Rightarrow> content \<Rightarrow> faults \<Rightarrow> fs \<Rightarrow> fs \<times> write_error option" where
  "write_file p d fl s = (apply_ops (fst (writer p d fl)) s, snd (writer p d fl))"

lemma process_crash:
  "cache (apply_ops (take n (fst (writer p d fl))) s) p \<in> {cache s p, Some d}"
  using every_prefix [OF refl] by blast

lemma power_loss:
  "after_power_loss (apply_ops (take n (fst (writer p d fl))) s) p \<subseteq> insert (Some d) (after_power_loss s p)"
  using every_prefix [OF refl] by blast

text \<open>A series of writes, the last of them interrupted anywhere.\<close>

definition write_series :: "path \<Rightarrow> (content \<times> faults) list \<Rightarrow> fs \<Rightarrow> fs" where
  "write_series p ws s = fold (\<lambda>(d, fl). apply_ops (fst (writer p d fl))) ws s"

lemma write_series_snoc:
  "write_series p (ws @ [(d, fl)]) s = apply_ops (fst (writer p d fl)) (write_series p ws s)"
  by (simp add: write_series_def)

lemma series_power_loss:
  "after_power_loss (write_series p ws s) p \<subseteq> after_power_loss s p \<union> set (map (Some \<circ> fst) ws)
   \<and> cache (write_series p ws s) p \<in> insert (cache s p) (set (map (Some \<circ> fst) ws))"
proof (induction ws rule: rev_induct)
  case (snoc w ws)
  obtain d fl where w: "w = (d, fl)" by (cases w)
  let ?s = "write_series p ws s" and ?s' = "write_series p (ws @ [w]) s"
  let ?W = "set (map (Some \<circ> fst) ws)" and ?W' = "set (map (Some \<circ> fst) (ws @ [w]))"
  have W: "?W' = insert (Some d) ?W" by (simp add: w)
  have step: "cache ?s' p \<in> {cache ?s p, Some d}"
    "after_power_loss ?s' p \<subseteq> insert (Some d) (after_power_loss ?s p)"
    using every_prefix [OF refl, of "length (fst (writer p d fl))" p d fl ?s]
    by (simp_all add: w write_series_snoc)
  have IH: "after_power_loss ?s p \<subseteq> after_power_loss s p \<union> ?W" "cache ?s p \<in> insert (cache s p) ?W"
    using snoc by blast+
  from IH(1) step(2) have "after_power_loss ?s' p \<subseteq> after_power_loss s p \<union> ?W'"
    unfolding W by (rule grown_union)
  moreover from IH(2) step(1) have "cache ?s' p \<in> insert (cache s p) ?W'"
    unfolding W by (rule grown_choice)
  ultimately show ?case ..
qed (simp add: write_series_def)

lemma write_file_result:
  "cache (fst (write_file p d fl s)) p = (if snd (write_file p d fl s) = None then Some d else cache s p)"
  by (cases "snd (writer p d fl)") (simp_all add: write_file_def success_writes failure_keeps)

lemma write_file_frame:
  "q \<noteq> p \<Longrightarrow> q \<noteq> p @ tmpSuffix \<Longrightarrow> cache (fst (write_file p d fl s)) q = cache s q"
  using other_files [of q p "length (fst (writer p d fl))" d fl s] by (simp add: write_file_def)

end

section \<open>Facts about call sequences\<close>

fun touched :: "fsop \<Rightarrow> path set" where
  "touched (OpenTrunc p) = {p}"
| "touched (WriteFile p d) = {p}"
| "touched (SyncFile p) = {p}"
| "touched (CloseFile p) = {}"
| "touched (RenameFile p q) = {p, q}"
| "touched (RemoveFile p) = {p}"
| "touched (SyncDirOf p) = {p}"

lemma tmpSuffix_nonempty [simp]: "tmpSuffix \<noteq> []"
  by (simp add: tmpSuffix_def)

lemma tmp_neq [simp]: "p @ tmpSuffix \<noteq> p" "p \<noteq> p @ tmpSuffix"
  by (simp_all add: tmpSuffix_def)

lemma apply_ops_append [simp]: "apply_ops (xs @ ys) s = apply_ops ys (apply_ops xs s)"
  by (simp add: apply_ops_def)

lemma untouched_op:
  "q \<notin> touched x \<Longrightarrow>
   cache (apply_op x s) q = cache s q \<and> current (apply_op x s) q = current s q
   \<and> older (apply_op x s) q = older s q"
  by (cases x) (auto split: option.splits)

lemma untouched:
  "\<forall>x \<in> set ops. q \<notin> touched x \<Longrightarrow>
   cache (apply_ops ops s) q = cache s q \<and> current (apply_ops ops s) q = current s q
   \<and> older (apply_ops ops s) q = older s q"
  by (induction ops arbitrary: s) (auto simp: untouched_op)

lemma sync_dirs:
  assumes "\<forall>x \<in> set post. x = SyncDirOf p"
  shows "cache (apply_ops post s) = cache s \<and> current (apply_ops post s) = current s
    \<and> set (older (apply_ops post s) p) \<subseteq> set (older s p)"
  using assms
proof (induction post arbitrary: s)
  case (Cons x post)
  then have x: "x = SyncDirOf p" and post: "\<forall>x \<in> set post. x = SyncDirOf p" by auto
  from Cons.IH [OF post, of "apply_op x s"] show ?case by (auto simp: x)
qed simp

text \<open>
  A sequence that leaves \<open>p\<close> alone, has the data complete and synced in the temporary file, and
  only then renames it over \<open>p\<close>, is atomic for \<open>p\<close> whatever prefix of it is executed.
\<close>

lemma rename_atomic:
  assumes pre: "\<forall>x \<in> set pre. p \<notin> touched x"
    and tmp: "tmp \<noteq> p" "cache (apply_ops pre s) tmp = Some d" "current (apply_ops pre s) tmp = [Some d]"
    and post: "\<forall>x \<in> set post. x = SyncDirOf p"
    and s': "s' = apply_ops (take n (pre @ RenameFile tmp p # post)) s"
  shows "cache s' p \<in> {cache s p, Some d} \<and> after_power_loss s' p \<subseteq> insert (Some d) (after_power_loss s p)"
proof (cases "n \<le> length pre")
  case True
  then have "\<forall>x \<in> set (take n pre). p \<notin> touched x" using pre by (meson in_set_takeD)
  with True show ?thesis
    using s' untouched [of "take n pre" p s] by (auto simp: after_power_loss_def)
next
  case False
  then obtain m where m: "n - length pre = Suc m" by (metis Suc_pred zero_less_diff not_le)
  let ?s1 = "apply_op (RenameFile tmp p) (apply_ops pre s)"
  have s1: "cache ?s1 p = Some d" "current ?s1 p = [Some d]" "older ?s1 p = older s p @ current s p"
    using tmp untouched [OF pre, of s] by simp_all
  have "\<forall>x \<in> set (take m post). x = SyncDirOf p" using post by (meson in_set_takeD)
  from sync_dirs [OF this, of ?s1] s1 show ?thesis
    using False m by (auto simp: s' after_power_loss_def simp del: apply_op.simps)
qed

text \<open>The three shapes of a run of a writer, and the contract they give.\<close>

definition atomic_shape :: "path \<Rightarrow> content \<Rightarrow> fsop list \<times> write_error option \<Rightarrow> bool" where
  "atomic_shape p d r \<longleftrightarrow>
    r = ([], Some ErrOpenTmp)
    \<or> (\<exists>ops e. r = (ops @ [RemoveFile (p @ tmpSuffix)], Some e) \<and> e \<noteq> ErrOpenTmp
         \<and> (\<forall>x \<in> set ops. touched x \<subseteq> {p @ tmpSuffix}))
    \<or> (\<exists>post. r = ([OpenTrunc (p @ tmpSuffix), WriteFile (p @ tmpSuffix) d, SyncFile (p @ tmpSuffix),
           CloseFile (p @ tmpSuffix)] @ RenameFile (p @ tmpSuffix) p # post, None)
         \<and> (\<forall>x \<in> set post. x = SyncDirOf p))"

lemma atomic_shape_cases:
  assumes "atomic_shape p d r"
  obtains (unopened) "r = ([], Some ErrOpenTmp)"
  | (failed) ops e where "r = (ops @ [RemoveFile (p @ tmpSuffix)], Some e)" "e \<noteq> ErrOpenTmp"
      "\<forall>x \<in> set ops. touched x \<subseteq> {p @ tmpSuffix}"
  | (committed) post where "r = ([OpenTrunc (p @ tmpSuffix), WriteFile (p @ tmpSuffix) d,
      SyncFile (p @ tmpSuffix), CloseFile (p @ tmpSuffix)] @ RenameFile (p @ tmpSuffix) p # post, None)"
      "\<forall>x \<in> set post. x = SyncDirOf p"
  using assms by (auto simp: atomic_shape_def)

lemma tmp_complete:
  "cache (apply_ops [OpenTrunc t, WriteFile t d, SyncFile t, CloseFile t] s) t = Some d
   \<and> current (apply_ops [OpenTrunc t, WriteFile t d, SyncFile t, CloseFile t] s) t = [Some d]"
  by (auto split: option.splits)

lemma unchanged_prefix:
  "\<forall>x \<in> set ops. touched x \<subseteq> {t} \<Longrightarrow> q \<noteq> t \<Longrightarrow>
   cache (apply_ops (take n ops) s) q = cache s q \<and> current (apply_ops (take n ops) s) q = current s q
   \<and> older (apply_ops (take n ops) s) q = older s q"
  by (rule untouched) (meson in_set_takeD singletonD subsetD)

lemma atomic_shape_prefix:
  assumes "atomic_shape p d r" and "s' = apply_ops (take n (fst r)) s"
  shows "cache s' p \<in> {cache s p, Some d} \<and> after_power_loss s' p \<subseteq> insert (Some d) (after_power_loss s p)"
  using assms(1)
proof (cases rule: atomic_shape_cases)
  case unopened
  with assms show ?thesis by (auto simp: after_power_loss_def)
next
  case (failed ops e)
  then have "\<forall>x \<in> set (ops @ [RemoveFile (p @ tmpSuffix)]). touched x \<subseteq> {p @ tmpSuffix}" by auto
  from unchanged_prefix [OF this, of p n s] show ?thesis
    using assms failed by (auto simp: after_power_loss_def)
next
  case (committed post)
  show ?thesis
  proof (rule rename_atomic [OF _ _ _ _ committed(2)])
    show "s' = apply_ops (take n ([OpenTrunc (p @ tmpSuffix), WriteFile (p @ tmpSuffix) d,
      SyncFile (p @ tmpSuffix), CloseFile (p @ tmpSuffix)] @ RenameFile (p @ tmpSuffix) p # post)) s"
      using assms(2) committed(1) by simp
  qed (simp_all only: tmp_complete, auto)
qed

lemma atomic_shape_success:
  assumes "atomic_shape p d r" and "snd r = None"
  shows "cache (apply_ops (fst r) s) p = Some d \<and> cache (apply_ops (fst r) s) (p @ tmpSuffix) = None"
  using assms(1)
proof (cases rule: atomic_shape_cases)
  case (committed post)
  let ?pre = "[OpenTrunc (p @ tmpSuffix), WriteFile (p @ tmpSuffix) d, SyncFile (p @ tmpSuffix), CloseFile (p @ tmpSuffix)]"
  have "cache (apply_ops (fst r) s) = cache (apply_op (RenameFile (p @ tmpSuffix) p) (apply_ops ?pre s))"
    using committed sync_dirs [OF committed(2)] by (simp del: apply_op.simps)
  then show ?thesis using tmp_complete [of "p @ tmpSuffix" d s] by simp
qed (use assms(2) in auto)

lemma atomic_shape_failure:
  assumes "atomic_shape p d r" and "snd r = Some e"
  shows "cache (apply_ops (fst r) s) p = cache s p
    \<and> (e \<noteq> ErrOpenTmp \<longrightarrow> cache (apply_ops (fst r) s) (p @ tmpSuffix) = None)"
  using assms(1)
proof (cases rule: atomic_shape_cases)
  case (failed ops e')
  then have "\<forall>x \<in> set (ops @ [RemoveFile (p @ tmpSuffix)]). touched x \<subseteq> {p @ tmpSuffix}" by auto
  from unchanged_prefix [OF this, of p "length ops + 1" s] show ?thesis using failed by simp
qed (use assms(2) in auto)

lemma atomic_shape_frame:
  assumes "atomic_shape p d r" and "q \<noteq> p" and "q \<noteq> p @ tmpSuffix"
  shows "cache (apply_ops (take n (fst r)) s) q = cache s q"
proof -
  have "\<forall>x \<in> set (fst r). q \<notin> touched x"
    using assms by (fastforce elim!: atomic_shape_cases)
  then have "\<forall>x \<in> set (take n (fst r)). q \<notin> touched x" by (meson in_set_takeD)
  then show ?thesis using untouched by blast
qed

lemma atomic_writerI:
  assumes "\<And>p d fl. atomic_shape p d (w p d fl)" and "\<And>p d. snd (w p d no_faults) = None"
  shows "atomic_writer w"
proof unfold_locales
  fix s s' :: fs and p d fl n
  assume "s' = apply_ops (take n (fst (w p d fl))) s"
  then show "cache s' p \<in> {cache s p, Some d} \<and> after_power_loss s' p \<subseteq> insert (Some d) (after_power_loss s p)"
    using atomic_shape_prefix [OF assms(1)] by blast
next
  fix s :: fs and p d fl e
  assume e: "snd (w p d fl) = Some e"
  from atomic_shape_failure [OF assms(1) e, of s]
  show "cache (apply_ops (fst (w p d fl)) s) p = cache s p" by blast
  assume "e \<noteq> ErrOpenTmp"
  with atomic_shape_failure [OF assms(1) e, of s]
  show "cache (apply_ops (fst (w p d fl)) s) (p @ tmpSuffix) = None" by blast
next
  fix s :: fs and p d fl
  assume e: "snd (w p d fl) = None"
  from atomic_shape_success [OF assms(1) e, of s]
  show "cache (apply_ops (fst (w p d fl)) s) p = Some d"
    and "cache (apply_ops (fst (w p d fl)) s) (p @ tmpSuffix) = None" by blast+
next
  fix s :: fs and p q d fl n
  assume "q \<noteq> p" "q \<noteq> p @ tmpSuffix"
  then show "cache (apply_ops (take n (fst (w p d fl))) s) q = cache s q"
    by (rule atomic_shape_frame [OF assms(1)])
qed (rule assms(2))

lemma atomic_shape_unopened: "atomic_shape p d ([], Some ErrOpenTmp)"
  by (simp add: atomic_shape_def)

lemma atomic_shape_failed:
  "\<forall>x \<in> set ops. touched x \<subseteq> {p @ tmpSuffix} \<Longrightarrow> e \<noteq> ErrOpenTmp \<Longrightarrow>
   atomic_shape p d (ops @ [RemoveFile (p @ tmpSuffix)], Some e)"
  by (simp add: atomic_shape_def)

lemma atomic_shape_committed:
  "\<forall>x \<in> set post. x = SyncDirOf p \<Longrightarrow>
   atomic_shape p d ([OpenTrunc (p @ tmpSuffix), WriteFile (p @ tmpSuffix) d, SyncFile (p @ tmpSuffix),
     CloseFile (p @ tmpSuffix)] @ RenameFile (p @ tmpSuffix) p # post, None)"
  by (simp add: atomic_shape_def)

lemma atomic_shape_unsynced:
  "e \<noteq> ErrOpenTmp \<Longrightarrow>
   atomic_shape p d ([OpenTrunc (p @ tmpSuffix), WriteFile (p @ tmpSuffix) d', CloseFile (p @ tmpSuffix),
     RemoveFile (p @ tmpSuffix)], Some e)"
  using atomic_shape_failed [of "[OpenTrunc (p @ tmpSuffix), WriteFile (p @ tmpSuffix) d', CloseFile (p @ tmpSuffix)]" p e d]
  by simp

lemma atomic_shape_synced:
  "e \<noteq> ErrOpenTmp \<Longrightarrow>
   atomic_shape p d ([OpenTrunc (p @ tmpSuffix), WriteFile (p @ tmpSuffix) d', SyncFile (p @ tmpSuffix),
     CloseFile (p @ tmpSuffix), RemoveFile (p @ tmpSuffix)], Some e)"
  using atomic_shape_failed [of "[OpenTrunc (p @ tmpSuffix), WriteFile (p @ tmpSuffix) d', SyncFile (p @ tmpSuffix),
    CloseFile (p @ tmpSuffix)]" p e d]
  by simp

lemma atomic_shape_renamed:
  "\<forall>x \<in> set post. x = SyncDirOf p \<Longrightarrow>
   atomic_shape p d (OpenTrunc (p @ tmpSuffix) # WriteFile (p @ tmpSuffix) d # SyncFile (p @ tmpSuffix)
     # CloseFile (p @ tmpSuffix) # RenameFile (p @ tmpSuffix) p # post, None)"
  using atomic_shape_committed [of post p d] by simp

lemmas atomic_shape_intros =
  atomic_shape_unopened atomic_shape_unsynced atomic_shape_synced atomic_shape_renamed

end
