(* ===== verification/Crypto.thy ===== *)
theory Crypto
  imports GoStrings
begin

unbundle bit_operations_syntax

text \<open>
  The standard-library cryptography and encodings the program uses: \<^verbatim>\<open>crypto/sha256\<close>,
  \<^verbatim>\<open>crypto/hmac\<close>, \<^verbatim>\<open>crypto/subtle\<close>, \<^verbatim>\<open>encoding/binary\<close> and
  \<^verbatim>\<open>base64.RawURLEncoding\<close>, as executable functions on byte lists.
\<close>

section \<open>SHA-256 and HMAC\<close>

definition rotr :: "nat \<Rightarrow> 32 word \<Rightarrow> 32 word" where
  "rotr n x = drop_bit n x OR push_bit (32 - n) x"

definition big_sigma0 :: "32 word \<Rightarrow> 32 word" where
  "big_sigma0 x = rotr 2 x XOR rotr 13 x XOR rotr 22 x"
definition big_sigma1 :: "32 word \<Rightarrow> 32 word" where
  "big_sigma1 x = rotr 6 x XOR rotr 11 x XOR rotr 25 x"
definition small_sigma0 :: "32 word \<Rightarrow> 32 word" where
  "small_sigma0 x = rotr 7 x XOR rotr 18 x XOR drop_bit 3 x"
definition small_sigma1 :: "32 word \<Rightarrow> 32 word" where
  "small_sigma1 x = rotr 17 x XOR rotr 19 x XOR drop_bit 10 x"

text \<open>
  The round constants: for each of the first 64 primes the integer part of its cube root and the
  first 32 bits of the fractional part.
\<close>

definition cube_roots :: "(int \<times> int \<times> int) list" where
  "cube_roots =
   [(2, 1, 1116352408), (3, 1, 1899447441), (5, 1, 3049323471), (7, 1, 3921009573),
    (11, 2, 961987163), (13, 2, 1508970993), (17, 2, 2453635748), (19, 2, 2870763221),
    (23, 2, 3624381080), (29, 3, 310598401), (31, 3, 607225278), (37, 3, 1426881987),
    (41, 3, 1925078388), (43, 3, 2162078206), (47, 3, 2614888103), (53, 3, 3248222580),
    (59, 3, 3835390401), (61, 3, 4022224774), (67, 4, 264347078), (71, 4, 604807628),
    (73, 4, 770255983), (79, 4, 1249150122), (83, 4, 1555081692), (89, 4, 1996064986),
    (97, 4, 2554220882), (101, 4, 2821834349), (103, 4, 2952996808), (107, 4, 3210313671),
    (109, 4, 3336571891), (113, 4, 3584528711), (127, 5, 113926993), (131, 5, 338241895),
    (137, 5, 666307205), (139, 5, 773529912), (149, 5, 1294757372), (151, 5, 1396182291),
    (157, 5, 1695183700), (163, 5, 1986661051), (167, 5, 2177026350), (173, 5, 2456956037),
    (179, 5, 2730485921), (181, 5, 2820302411), (191, 5, 3259730800), (193, 5, 3345764771),
    (197, 5, 3516065817), (199, 5, 3600352804), (211, 5, 4094571909), (223, 6, 275423344),
    (227, 6, 430227734), (229, 6, 506948616), (233, 6, 659060556), (239, 6, 883997877),
    (241, 6, 958139571), (251, 6, 1322822218), (257, 6, 1537002063), (263, 6, 1747873779),
    (269, 6, 1955562222), (271, 6, 2024104815), (277, 6, 2227730452), (281, 6, 2361852424),
    (283, 6, 2428436474), (293, 6, 2756734187), (307, 6, 3204031479), (311, 6, 3329325298)]"

definition round_constants :: "32 word list" where
  "round_constants = map (\<lambda>(_, _, k). word_of_int k) cube_roots"

lemma cube_roots_exact:
  "list_all (\<lambda>(p, r, k). (r * 2 ^ 32 + k) ^ 3 \<le> p * 2 ^ 96 \<and> p * 2 ^ 96 < (r * 2 ^ 32 + k + 1) ^ 3) cube_roots"
  by (simp add: cube_roots_def)

type_synonym hash_state =
  "32 word \<times> 32 word \<times> 32 word \<times> 32 word \<times> 32 word \<times> 32 word \<times> 32 word \<times> 32 word"

definition initial_hash :: hash_state where
  "initial_hash = (0x6a09e667, 0xbb67ae85, 0x3c6ef372, 0xa54ff53a,
                   0x510e527f, 0x9b05688c, 0x1f83d9ab, 0x5be0cd19)"

fun sha_round :: "32 word \<times> 32 word \<Rightarrow> hash_state \<Rightarrow> hash_state" where
  "sha_round (k, w) (a, b, c, d, e, f, g, h) =
    (let t1 = h + big_sigma1 e + ((e AND f) XOR (NOT e AND g)) + k + w;
         t2 = big_sigma0 a + ((a AND b) XOR (a AND c) XOR (b AND c))
     in (t1 + t2, a, b, c, d + t1, e, f, g))"

text \<open>A rolling window of sixteen words yields the message schedule.\<close>

fun schedule :: "nat \<Rightarrow> 32 word list \<Rightarrow> 32 word list" where
  "schedule 0 ws = []"
| "schedule (Suc n) ws =
     hd ws # schedule n (tl ws @ [small_sigma1 (ws ! 14) + ws ! 9 + small_sigma0 (ws ! 1) + ws ! 0])"

fun add_state :: "hash_state \<Rightarrow> hash_state \<Rightarrow> hash_state" where
  "add_state (a, b, c, d, e, f, g, h) (a', b', c', d', e', f', g', h') =
    (a + a', b + b', c + c', d + d', e + e', f + f', g + g', h + h')"

definition sha_block :: "32 word list \<Rightarrow> hash_state \<Rightarrow> hash_state" where
  "sha_block ws st = add_state st (fold sha_round (zip round_constants (schedule 64 ws)) st)"

fun words_of :: "byte list \<Rightarrow> 32 word list" where
  "words_of (a # b # c # d # bs) =
    (push_bit 24 (ucast a) OR push_bit 16 (ucast b) OR push_bit 8 (ucast c) OR ucast d) # words_of bs"
| "words_of bs = []"

fun sha_blocks :: "nat \<Rightarrow> 32 word list \<Rightarrow> hash_state \<Rightarrow> hash_state" where
  "sha_blocks 0 ws st = st"
| "sha_blocks (Suc n) ws st = sha_blocks n (drop 16 ws) (sha_block (take 16 ws) st)"

definition be32 :: "32 word \<Rightarrow> byte list" where
  "be32 w = [ucast (drop_bit 24 w), ucast (drop_bit 16 w), ucast (drop_bit 8 w), ucast w]"

text \<open>\<open>binary.BigEndian.PutUint64\<close> and \<open>binary.BigEndian.Uint64\<close>.\<close>

definition be64 :: "64 word \<Rightarrow> byte list" where
  "be64 w = map (\<lambda>i. ucast (drop_bit (8 * i) w)) [7, 6, 5, 4, 3, 2, 1, 0]"

definition uint64_be :: "byte list \<Rightarrow> 64 word" where
  "uint64_be bs = foldl (\<lambda>acc b. push_bit 8 acc OR ucast b) 0 bs"

definition sha_pad :: "byte list \<Rightarrow> byte list" where
  "sha_pad bs = bs @ [0x80] @ replicate ((119 - length bs mod 64) mod 64) 0
     @ be64 (word_of_nat (8 * length bs))"

fun digest_bytes :: "hash_state \<Rightarrow> byte list" where
  "digest_bytes (a, b, c, d, e, f, g, h) =
    be32 a @ be32 b @ be32 c @ be32 d @ be32 e @ be32 f @ be32 g @ be32 h"

definition sha256 :: "byte list \<Rightarrow> byte list" where
  "sha256 bs =
    (let p = sha_pad bs in digest_bytes (sha_blocks (length p div 64) (words_of p) initial_hash))"

definition hmac_key_block :: "byte list \<Rightarrow> byte list" where
  "hmac_key_block key =
    (let k = (if length key > 64 then sha256 key else key) in k @ replicate (64 - length k) 0)"

definition hmac_sha256 :: "byte list \<Rightarrow> byte list \<Rightarrow> byte list" where
  "hmac_sha256 key msg =
    sha256 (map (\<lambda>b. b XOR 0x5c) (hmac_key_block key)
      @ sha256 (map (\<lambda>b. b XOR 0x36) (hmac_key_block key) @ msg))"

lemma length_be32 [simp]: "length (be32 w) = 4"
  by (simp add: be32_def)

lemma length_be64 [simp]: "length (be64 w) = 8"
  by (simp add: be64_def)

lemma length_digest_bytes [simp]: "length (digest_bytes st) = 32"
  by (cases st rule: digest_bytes.cases) simp

lemma length_sha256 [simp]: "length (sha256 bs) = 32"
  by (simp add: sha256_def Let_def)

lemma length_hmac_sha256 [simp]: "length (hmac_sha256 key msg) = 32"
  by (simp add: hmac_sha256_def)

lemma pad_length_mod: "(n + 9 + (119 - n mod 64) mod 64) mod 64 = (0::nat)"
proof -
  let ?r = "n mod 64"
  have r: "?r < 64" by simp
  have "(?r + 9 + (119 - ?r) mod 64) mod 64 = 0"
  proof (cases "?r \<le> 55")
    case True
    then have "119 - ?r = (55 - ?r) + 64" by simp
    then have "(119 - ?r) mod 64 = (55 - ?r) mod 64" by (simp only: mod_add_self2)
    also have "\<dots> = 55 - ?r" by (rule mod_less) simp
    finally have "(119 - ?r) mod 64 = 55 - ?r" .
    with True show ?thesis by simp
  next
    case False
    then have "(119 - ?r) mod 64 = 119 - ?r" by (intro mod_less) simp
    then show ?thesis using False r by simp
  qed
  then show ?thesis by (metis add.assoc mod_add_left_eq)
qed

lemma sha_pad_blocks: "length (sha_pad bs) mod 64 = 0"
  using pad_length_mod [of "length bs"] by (simp add: sha_pad_def add.assoc [symmetric])

fun be_bytes :: "nat \<Rightarrow> 64 word \<Rightarrow> byte list" where
  "be_bytes 0 w = []"
| "be_bytes (Suc n) w = be_bytes n (drop_bit 8 w) @ [ucast w]"

lemma uint64_be_be_bytes: "uint64_be (be_bytes n w) = take_bit (8 * n) w"
proof (induction n arbitrary: w)
  case (Suc n)
  have "push_bit 8 (take_bit (8 * n) (drop_bit 8 w)) OR ucast (ucast w :: byte) = take_bit (8 + 8 * n) w"
    by (rule bit_word_eqI) (auto simp: bit_simps)
  with Suc show ?case by (simp add: uint64_be_def)
qed (simp add: uint64_be_def)

lemma uint64_be_be64: "uint64_be (be64 w) = w"
proof -
  have "be64 w = be_bytes 8 w" by (simp add: be64_def numeral_eq_Suc)
  then show ?thesis by (simp add: uint64_be_be_bytes take_bit_word_eq_self)
qed

section \<open>Constant-time comparison\<close>

text \<open>\<open>subtle.ConstantTimeByteEq\<close> and \<open>subtle.ConstantTimeCompare\<close>.\<close>

definition ct_byte_eq :: "byte \<Rightarrow> byte \<Rightarrow> nat" where
  "ct_byte_eq x y = unat (drop_bit 31 ((ucast (x XOR y) :: 32 word) - 1))"

definition ct_compare :: "byte list \<Rightarrow> byte list \<Rightarrow> nat" where
  "ct_compare x y =
    (if length x \<noteq> length y then 0
     else ct_byte_eq (foldl (\<lambda>v p. v OR (fst p XOR snd p)) 0 (zip x y)) 0)"

lemma xor_zero_iff: "x XOR y = 0 \<longleftrightarrow> x = (y :: 'a::len word)"
  by (auto simp: bit_eq_iff bit_simps)

lemma ct_byte_eq_one: "ct_byte_eq x y = 1 \<longleftrightarrow> x = y"
proof (cases "x = y")
  case True
  then show ?thesis by (simp add: ct_byte_eq_def)
next
  case False
  let ?d = "ucast (x XOR y) :: 32 word"
  have "x XOR y \<noteq> 0" using False by (simp add: xor_zero_iff)
  then have "0 < unat ?d" "unat ?d < 256"
    using unsigned_less [of "x XOR y", where ?'a = nat] by (auto simp: unsigned_ucast_eq unat_gt_0 take_bit_nat_eq_self)
  then have "unat (?d - 1) < 255"
    by (simp add: unat_sub_if_size word_size)
  then have "unat (?d - 1) div 2 ^ 31 = 0" by simp
  then have "drop_bit 31 (unat (?d - 1)) = 0" by (simp only: drop_bit_eq_div)
  moreover have "take_bit 32 (unat (?d - 1)) = unat (?d - 1)"
    using \<open>unat (?d - 1) < 255\<close> by (intro take_bit_nat_eq_self) simp
  ultimately have "unat (drop_bit 31 (?d - 1)) = 0"
    by (simp only: unsigned_drop_bit_eq) (simp add: take_bit_nat_eq_self)
  with False show ?thesis by (simp add: ct_byte_eq_def)
qed

lemma or_xor_zero_iff:
  "length x = length y \<Longrightarrow>
   foldl (\<lambda>v p. v OR (fst p XOR snd p)) v (zip x y) = 0 \<longleftrightarrow> v = (0::byte) \<and> x = y"
proof (induction x y arbitrary: v rule: list_induct2)
  case (Cons a x b y)
  have "v OR (a XOR b) = 0 \<longleftrightarrow> v = 0 \<and> a = b"
    by (simp add: or_eq_0_iff xor_zero_iff)
  with Cons show ?case by auto
qed simp

lemma ct_compare_eq: "ct_compare x y = 1 \<longleftrightarrow> x = y"
proof (cases "length x = length y")
  case True
  then have "ct_compare x y = 1 \<longleftrightarrow> foldl (\<lambda>v p. v OR (fst p XOR snd p)) 0 (zip x y) = 0"
    unfolding ct_compare_def using ct_byte_eq_one by auto
  with or_xor_zero_iff [OF True, of 0] show ?thesis by simp
qed (auto simp: ct_compare_def)

section \<open>base64.RawURLEncoding\<close>

definition b64_char :: "nat \<Rightarrow> char" where
  "b64_char n = (if n < 26 then char_of (65 + n) else if n < 52 then char_of (71 + n)
     else if n < 62 then char_of (n - 4) else if n = 62 then CHR ''-'' else CHR ''_'')"

definition b64_value :: "char \<Rightarrow> nat option" where
  "b64_value c = (let n = of_char c :: nat in
     if 65 \<le> n \<and> n \<le> 90 then Some (n - 65)
     else if 97 \<le> n \<and> n \<le> 122 then Some (n - 71)
     else if 48 \<le> n \<and> n \<le> 57 then Some (n + 4)
     else if n = 45 then Some 62 else if n = 95 then Some 63 else None)"

fun b64_sextets :: "nat list \<Rightarrow> nat list" where
  "b64_sextets (a # b # c # bs) =
     [a div 4, (a mod 4) * 16 + b div 16, (b mod 16) * 4 + c div 64, c mod 64] @ b64_sextets bs"
| "b64_sextets [a, b] = [a div 4, (a mod 4) * 16 + b div 16, (b mod 16) * 4]"
| "b64_sextets [a] = [a div 4, (a mod 4) * 16]"
| "b64_sextets [] = []"

definition b64_encode :: "byte list \<Rightarrow> string" where
  "b64_encode bs = map b64_char (b64_sextets (map unat bs))"

text \<open>
  Decoding skips line breaks, rejects any other byte outside the alphabet and a dangling single
  character, and ignores the unused low bits of a final partial group (the encoding is not strict).
\<close>

fun b64_octets :: "nat list \<Rightarrow> nat list option" where
  "b64_octets (a # b # c # d # vs) =
     map_option (\<lambda>bs. [a * 4 + b div 16, (b mod 16) * 16 + c div 4, (c mod 4) * 64 + d] @ bs) (b64_octets vs)"
| "b64_octets [a, b, c] = Some [a * 4 + b div 16, (b mod 16) * 16 + c div 4]"
| "b64_octets [a, b] = Some [a * 4 + b div 16]"
| "b64_octets [a] = None"
| "b64_octets [] = Some []"

definition b64_decode :: "string \<Rightarrow> byte list option" where
  "b64_decode s =
    (case those (map b64_value (filter (\<lambda>c. c \<noteq> CHR 0x0A \<and> c \<noteq> CHR 0x0D) s)) of
       None \<Rightarrow> None
     | Some vs \<Rightarrow> map_option (map word_of_nat) (b64_octets vs))"

lemma b64_value_char: "n < 64 \<Longrightarrow> b64_value (b64_char n) = Some n"
  by (auto simp: b64_char_def b64_value_def Let_def of_char_mod_256)

lemma b64_char_not_break: "n < 64 \<Longrightarrow> b64_char n \<noteq> CHR 0x0A \<and> b64_char n \<noteq> CHR 0x0D"
  using b64_value_char [of n] by (auto simp: b64_value_def Let_def)

lemma b64_sextets_bound: "\<forall>b \<in> set bs. b < 256 \<Longrightarrow> \<forall>v \<in> set (b64_sextets bs). v < 64"
  by (induction bs rule: b64_sextets.induct) auto

lemma b64_octets_sextets: "\<forall>b \<in> set bs. b < 256 \<Longrightarrow> b64_octets (b64_sextets bs) = Some bs"
  by (induction bs rule: b64_sextets.induct) auto

lemma those_map_Some: "\<forall>x \<in> set xs. f x = Some (g x) \<Longrightarrow> those (map f xs) = Some (map g xs)"
  by (induction xs) auto

theorem b64_roundtrip: "b64_decode (b64_encode bs) = Some bs"
proof -
  let ?vs = "b64_sextets (map unat bs)"
  have bytes: "\<forall>b \<in> set (map unat bs). b < 256"
    using unsigned_less [where ?'a = nat and ?'b = 8] by fastforce
  then have vs: "\<forall>v \<in> set ?vs. v < 64" by (rule b64_sextets_bound)
  then have "filter (\<lambda>c. c \<noteq> CHR 0x0A \<and> c \<noteq> CHR 0x0D) (b64_encode bs) = b64_encode bs"
    by (auto simp: b64_encode_def filter_id_conv b64_char_not_break)
  moreover have "those (map b64_value (b64_encode bs)) = Some ?vs"
    using vs those_map_Some [of ?vs "b64_value \<circ> b64_char" id]
    by (simp add: b64_encode_def b64_value_char)
  ultimately show ?thesis
    using b64_octets_sextets [OF bytes] by (simp add: b64_decode_def comp_def)
qed

end
