(* ===== verification/Config.thy ===== *)
theory Config
  imports Filesystem Crypto
begin

text \<open>
  \<^verbatim>\<open>internal/config/config.go\<close>: merging of flags, \<^verbatim>\<open>.env\<close> and the process environment,
  generation and persistence of secrets, validation.
\<close>

section \<open>Data\<close>

definition DefaultPort :: int where "DefaultPort = 40000"
definition DefaultPortMin :: int where "DefaultPortMin = 40000"
definition DefaultPortMax :: int where "DefaultPortMax = 40500"
definition DefaultKillGraceMS :: int where "DefaultKillGraceMS = 3000"
definition DefaultPublicHost :: string where "DefaultPublicHost = ''yourhost.example''"
definition DefaultScanner :: string where "DefaultScanner = ''auto''"
definition MinTokenBytes :: nat where "MinTokenBytes = 16"
definition MinSecretBytes :: nat where "MinSecretBytes = 16"
definition GeneratedTokenBytes :: nat where "GeneratedTokenBytes = 32"

record config =
  AuthToken :: string
  SessionSecret :: string
  PublicHost :: string
  Port :: int
  PortMin :: int
  PortMax :: int
  KillGraceMS :: int
  ScannerName :: string
  StateDir :: string
  TrustXFF :: bool

record options =
  o_EnvFile :: string
  o_AuthToken :: string
  o_SessionSecret :: string
  o_PublicHost :: string
  o_Port :: "int option"
  o_PortMin :: int
  o_PortMax :: int
  o_KillGraceMS :: int
  o_Scanner :: string
  o_StateDir :: string
  o_TrustXFF :: bool

text \<open>The cases of \<open>validate\<close>, each an \<open>ErrValidation\<close>, and the other failures of \<open>Load\<close>.\<close>

datatype validation_error =
    BadAuthToken | BadSessionSecret | NoPublicHost | BadPort int | BadPortMin int | BadPortMax int
  | EmptyPortRange int int | BadKillGrace | BadScanner string

datatype config_error =
    ErrValidation validation_error
  | ErrReadEnv | ErrHomeDir | ErrGenerateToken | ErrGenerateSecret
  | ErrReadForPersist | ErrPersist write_error

section \<open>Small helpers\<close>

fun firstNonEmpty :: "string list \<Rightarrow> string" where
  "firstNonEmpty [] = []"
| "firstNonEmpty (v # vs) = (if v \<noteq> [] then v else firstNonEmpty vs)"

fun firstNonZero :: "int list \<Rightarrow> int" where
  "firstNonZero [] = 0"
| "firstNonZero (v # vs) = (if v \<noteq> 0 then v else firstNonZero vs)"

definition parseBool :: "string \<Rightarrow> bool" where
  "parseBool s \<longleftrightarrow> ascii_lower (trim_space s) \<in> {''1'', ''true'', ''yes'', ''on''}"

text \<open>\<open>strings.SplitN(s, "-", 2)\<close> has two parts exactly when there is a dash.\<close>

definition parsePortRange :: "string \<Rightarrow> int \<times> int" where
  "parsePortRange s =
    (if s = [] then (0, 0)
     else case index_byte CHR ''-'' s of
       None \<Rightarrow> (0, 0)
     | Some i \<Rightarrow>
         (case (atoi (trim_space (take i s)), atoi (trim_space (drop (Suc i) s))) of
            (Some lo, Some hi) \<Rightarrow> (lo, hi)
          | _ \<Rightarrow> (0, 0)))"

definition validate :: "config \<Rightarrow> validation_error option" where
  "validate c =
    (if length (AuthToken c) < MinTokenBytes then Some BadAuthToken
     else if length (SessionSecret c) < MinSecretBytes then Some BadSessionSecret
     else if PublicHost c = [] then Some NoPublicHost
     else if Port c < 0 \<or> Port c > 65535 then Some (BadPort (Port c))
     else if PortMin c \<le> 0 \<or> PortMin c > 65535 then Some (BadPortMin (PortMin c))
     else if PortMax c \<le> 0 \<or> PortMax c > 65535 then Some (BadPortMax (PortMax c))
     else if PortMin c \<ge> PortMax c then Some (EmptyPortRange (PortMin c) (PortMax c))
     else if KillGraceMS c \<le> 0 then Some BadKillGrace
     else if ScannerName c \<noteq> ''auto'' \<and> ScannerName c \<noteq> ''libproc'' \<and> ScannerName c \<noteq> ''lsof''
       then Some (BadScanner (ScannerName c))
     else None)"

text \<open>\<open>generateSecret\<close>: the random bytes, or \<open>None\<close> where reading them fails, are an argument.\<close>

definition generateSecret :: "nat \<Rightarrow> byte list option \<Rightarrow> string option" where
  "generateSecret n rnd = map_option (\<lambda>bs. hex_encode (take n bs)) rnd"

section \<open>Persisting generated secrets\<close>

definition atomicWriteFile :: "path \<Rightarrow> content \<Rightarrow> faults \<Rightarrow> fsop list \<times> write_error option" where
  "atomicWriteFile dst data fl =
    (let tmp = dst @ tmpSuffix in
     if open_fails fl then ([], Some ErrOpenTmp)
     else let (ops, err) =
       (case write_fails fl of
          Some k \<Rightarrow> ([WriteFile tmp (take k data), CloseFile tmp], Some ErrWriteTmp)
        | None \<Rightarrow>
            if sync_fails fl then ([WriteFile tmp data, CloseFile tmp], Some ErrSyncTmp)
            else if close_fails fl then ([WriteFile tmp data, SyncFile tmp, CloseFile tmp], Some ErrCloseTmp)
            else if rename_fails fl then ([WriteFile tmp data, SyncFile tmp, CloseFile tmp], Some ErrRename)
            else ([WriteFile tmp data, SyncFile tmp, CloseFile tmp, RenameFile tmp dst]
                  @ (if dir_open_fails fl \<or> dir_sync_fails fl then [] else [SyncDirOf dst]), None))
     in (OpenTrunc tmp # ops @ (if err \<noteq> None then [RemoveFile tmp] else []), err))"

text \<open>\<open>exportPrefix\<close>, the regular expression \<^verbatim>\<open>^\s*export\s+\<close>: the length of the match, if any.\<close>

definition re_space :: "char \<Rightarrow> bool" where
  "re_space c \<longleftrightarrow> c \<in> {CHR 0x09, CHR 0x0A, CHR 0x0C, CHR 0x0D, CHR '' ''}"

definition exportPrefix :: "string \<Rightarrow> nat option" where
  "exportPrefix s =
    (let a = takeWhile re_space s; rest = drop (length a) s in
     if has_prefix ''export'' rest then
       let b = takeWhile re_space (drop 6 rest) in
       if b = [] then None else Some (length a + 6 + length b)
     else None)"

text \<open>
  The scan of one line: the key it assigns and whether it has the \<^verbatim>\<open>export\<close> prefix, if it is an
  assignment at all.
\<close>

definition line_key :: "string \<Rightarrow> (bool \<times> string) option" where
  "line_key line =
    (let trimmed = trim_space line in
     if trimmed = [] \<or> has_prefix ''#'' trimmed then None
     else let exportLoc = exportPrefix trimmed;
              body = (case exportLoc of None \<Rightarrow> trimmed | Some n \<Rightarrow> drop n trimmed)
          in case index_byte CHR ''='' body of
               None \<Rightarrow> None
             | Some eq \<Rightarrow> Some (exportLoc \<noteq> None, trim_space (take eq body)))"

definition rewrite_line :: "(string, string) gomap \<Rightarrow> string \<Rightarrow> string" where
  "rewrite_line kv line =
    (case line_key line of
       None \<Rightarrow> line
     | Some (hasExport, key) \<Rightarrow>
         (case gm_get kv key of
            None \<Rightarrow> line
          | Some val \<Rightarrow> (if hasExport then ''export '' else []) @ key @ ''='' @ val))"

definition is_seen :: "string list \<Rightarrow> string \<Rightarrow> bool" where
  "is_seen lines key \<longleftrightarrow> (\<exists>line \<in> set lines. map_option snd (line_key line) = Some key)"

text \<open>
  The new content: known keys replaced in place, missing ones appended in the order in which the
  runtime ranges over \<open>kv\<close> (the order of the list), and a final line break.
\<close>

definition rewrite_env :: "(string, string) gomap \<Rightarrow> string list \<Rightarrow> string" where
  "rewrite_env kv lines =
    (let lines' = map (rewrite_line kv) lines
           @ map (\<lambda>(k, v). k @ ''='' @ v) (filter (\<lambda>(k, v). \<not> is_seen lines k) kv);
         content = join [CHR 0x0A] lines'
     in if has_suffix [CHR 0x0A] content then content else content @ [CHR 0x0A])"

text \<open>\<open>read_ok\<close> is false where \<open>os.ReadFile\<close> fails for another reason than a missing file.\<close>

definition persistGenerated ::
    "path \<Rightarrow> (string, string) gomap \<Rightarrow> bool \<Rightarrow> faults \<Rightarrow> fs \<Rightarrow> fs \<times> config_error option" where
  "persistGenerated envFile kv read_ok fl s =
    (case (case cache s envFile of None \<Rightarrow> Some [] | Some data \<Rightarrow>
             if read_ok then Some (split_on CHR 0x0A data) else None) of
       None \<Rightarrow> (s, Some ErrReadForPersist)
     | Some lines \<Rightarrow>
         (let (ops, err) = atomicWriteFile envFile (rewrite_env kv lines) fl
          in (apply_ops ops s, map_option ErrPersist err)))"

section \<open>Load\<close>

text \<open>
  What \<open>Load\<close> reads from outside: the process environment, the home directory, the parser of
  \<^verbatim>\<open>github.com/joho/godotenv\<close>, the random source for the two secrets, the outcome of reads and
  writes, and the order in which the generated pairs are visited when they are persisted.
\<close>

record load_env =
  getenv :: "string \<Rightarrow> string"
  user_home :: "string option"
  dotenv_read :: "content \<Rightarrow> (string \<rightharpoonup> string) option"
  token_random :: "byte list option"
  secret_random :: "byte list option"
  persist_read_ok :: bool
  persist_faults :: faults
  persist_order :: "(string, string) gomap \<Rightarrow> (string, string) gomap"

definition env_lookup :: "(string \<rightharpoonup> string) \<Rightarrow> (string \<Rightarrow> string) \<Rightarrow> string \<Rightarrow> string" where
  "env_lookup fileEnv osenv key =
    (case fileEnv key of Some v \<Rightarrow> if v \<noteq> [] then v else osenv key | None \<Rightarrow> osenv key)"

definition lookup_int :: "(string \<Rightarrow> string) \<Rightarrow> string \<Rightarrow> int \<Rightarrow> int" where
  "lookup_int look key def =
    (if look key \<noteq> [] then (case atoi (look key) of Some n \<Rightarrow> n | None \<Rightarrow> def) else def)"

definition merge_config :: "options \<Rightarrow> (string \<Rightarrow> string) \<Rightarrow> config" where
  "merge_config opts look =
    (let (envMin, envMax) = parsePortRange (look ''PORT_RANGE'') in
     \<lparr>AuthToken = firstNonEmpty [o_AuthToken opts, look ''AUTH_TOKEN''],
      SessionSecret = firstNonEmpty [o_SessionSecret opts, look ''SESSION_SECRET''],
      PublicHost = firstNonEmpty [o_PublicHost opts, look ''PUBLIC_HOST'', DefaultPublicHost],
      Port = (case o_Port opts of Some p \<Rightarrow> p | None \<Rightarrow> lookup_int look ''PORT'' DefaultPort),
      PortMin = firstNonZero [o_PortMin opts, envMin, DefaultPortMin],
      PortMax = firstNonZero [o_PortMax opts, envMax, DefaultPortMax],
      KillGraceMS = firstNonZero [o_KillGraceMS opts, lookup_int look ''KILL_GRACE_MS'' DefaultKillGraceMS],
      ScannerName = firstNonEmpty [o_Scanner opts, look ''SCANNER'', DefaultScanner],
      StateDir = firstNonEmpty [o_StateDir opts, look ''STATE_DIR''],
      TrustXFF = (o_TrustXFF opts \<or> parseBool (look ''TRUST_XFF''))\<rparr>)"

text \<open>A generated value is recorded with its key; an empty list records nothing.\<close>

definition fill_token :: "byte list option \<Rightarrow> config \<Rightarrow> config_error + config \<times> (string, string) gomap" where
  "fill_token rnd cfg =
    (if AuthToken cfg = [] then
       (case generateSecret GeneratedTokenBytes rnd of
          None \<Rightarrow> Inl ErrGenerateToken
        | Some tok \<Rightarrow> Inr (cfg\<lparr>AuthToken := tok\<rparr>, [(''AUTH_TOKEN'', tok)]))
     else Inr (cfg, []))"

definition fill_secret :: "byte list option \<Rightarrow> config \<Rightarrow> config_error + config \<times> (string, string) gomap" where
  "fill_secret rnd cfg =
    (if SessionSecret cfg = [] then
       (case generateSecret GeneratedTokenBytes rnd of
          None \<Rightarrow> Inl ErrGenerateSecret
        | Some sec \<Rightarrow> Inr (cfg\<lparr>SessionSecret := sec\<rparr>, [(''SESSION_SECRET'', sec)]))
     else Inr (cfg, []))"

definition banner :: "string \<Rightarrow> path \<Rightarrow> string" where
  "banner tok envFile =
    ''port-manager: generated AUTH_TOKEN='' @ tok @ '' (persisted to '' @ envFile @ '')'' @ [CHR 0x0A]"

definition load_finish :: "load_env \<Rightarrow> path \<Rightarrow> config \<Rightarrow> fs \<Rightarrow> fs \<times> string \<times> (config_error + config)" where
  "load_finish env envFile cfg s =
    (case fill_token (token_random env) cfg of
       Inl e \<Rightarrow> (s, [], Inl e)
     | Inr (cfg1, gen1) \<Rightarrow>
         (case fill_secret (secret_random env) cfg1 of
            Inl e \<Rightarrow> (s, [], Inl e)
          | Inr (cfg2, gen2) \<Rightarrow>
              (case validate cfg2 of
                 Some v \<Rightarrow> (s, [], Inl (ErrValidation v))
               | None \<Rightarrow>
                   if gen1 @ gen2 = [] then (s, [], Inr cfg2)
                   else
                     (case persistGenerated envFile (persist_order env (gen1 @ gen2))
                             (persist_read_ok env) (persist_faults env) s of
                        (s', Some e) \<Rightarrow> (s', [], Inl e)
                      | (s', None) \<Rightarrow>
                          (s', (if gen1 \<noteq> [] then banner (AuthToken cfg2) envFile else []), Inr cfg2)))))"

definition Load :: "options \<Rightarrow> load_env \<Rightarrow> fs \<Rightarrow> fs \<times> string \<times> (config_error + config)" where
  "Load opts env s =
    (let envFile = (if o_EnvFile opts = [] then ''.env'' else o_EnvFile opts) in
     case (case cache s envFile of None \<Rightarrow> Some Map.empty | Some data \<Rightarrow> dotenv_read env data) of
       None \<Rightarrow> (s, [], Inl ErrReadEnv)
     | Some fileEnv \<Rightarrow>
         (let cfg = merge_config opts (env_lookup fileEnv (getenv env)) in
          if StateDir cfg = [] then
            (case user_home env of
               None \<Rightarrow> (s, [], Inl ErrHomeDir)
             | Some home \<Rightarrow>
                 load_finish env envFile (cfg\<lparr>StateDir := path_join [home, ''.port-manager'']\<rparr>) s)
          else load_finish env envFile cfg s))"

section \<open>The env file after a rewrite\<close>

definition word_char :: "char \<Rightarrow> bool" where
  "word_char c \<longleftrightarrow> is_digit c \<or> CHR ''A'' \<le> c \<and> c \<le> CHR ''Z'' \<or> CHR ''a'' \<le> c \<and> c \<le> CHR ''z'' \<or> c = CHR ''_''"

definition clean_key :: "string \<Rightarrow> bool" where
  "clean_key k \<longleftrightarrow> k \<noteq> [] \<and> list_all word_char k"

definition visible :: "char \<Rightarrow> bool" where
  "visible c \<longleftrightarrow> 33 \<le> (of_char c :: nat) \<and> (of_char c :: nat) \<le> 126"

definition kv_ok :: "(string, string) gomap \<Rightarrow> bool" where
  "kv_ok kv \<longleftrightarrow> gm_ok kv \<and> list_all (\<lambda>(k, v). clean_key k \<and> list_all visible v) kv"

lemma word_char_visible: "word_char c \<Longrightarrow> visible c \<and> c \<noteq> CHR ''='' \<and> c \<noteq> CHR ''#''"
  by (auto simp: word_char_def visible_def is_digit_def less_eq_char_def)

lemma visible_not_space: "visible c \<Longrightarrow> \<not> re_space c \<and> \<not> is_space (of_char c) \<and> of_char c < (128::nat) \<and> c \<noteq> CHR 0x0A"
  by (auto simp: visible_def re_space_def is_space_def)

lemma trim_space_visible_ends:
  "s \<noteq> [] \<Longrightarrow> visible (hd s) \<Longrightarrow> visible (last s) \<Longrightarrow> trim_space s = s"
  by (rule trim_space_ident) (auto dest: visible_not_space)

lemma trim_space_visible: "list_all visible s \<Longrightarrow> trim_space s = s"
  by (cases "s = []") (auto intro!: trim_space_visible_ends simp: list_all_iff)

lemma takeWhile_visible: "list_all visible s \<Longrightarrow> takeWhile re_space s = []"
  by (cases s) (auto dest: visible_not_space)

lemma visible_eq: "visible CHR ''=''"
  by (simp add: visible_def)

lemma assign_visible:
  "clean_key k \<Longrightarrow> list_all visible v \<Longrightarrow> list_all visible (k @ ''='' @ v)"
  using visible_eq by (auto simp: clean_key_def list_all_iff dest: word_char_visible)

lemma clean_key_no_eq: "clean_key k \<Longrightarrow> CHR ''='' \<notin> set k"
  by (auto simp: clean_key_def list_all_iff dest: word_char_visible)

lemma clean_key_trim: "clean_key k \<Longrightarrow> trim_space k = k"
  by (rule trim_space_visible) (auto simp: clean_key_def list_all_iff dest: word_char_visible)

lemma exportPrefix_visible: "list_all visible s \<Longrightarrow> exportPrefix s = None"
  using takeWhile_visible [of s] takeWhile_visible [of "drop 6 s"]
  by (auto simp: exportPrefix_def Let_def list_all_iff dest: in_set_dropD)

lemma line_key_assign:
  assumes "clean_key k" and "list_all visible v"
  shows "line_key (k @ ''='' @ v) = Some (False, k)"
proof -
  let ?l = "k @ ''='' @ v"
  have vis: "list_all visible ?l" using assms by (rule assign_visible)
  have ne: "k \<noteq> []" and hash: "hd k \<noteq> CHR ''#''"
    using assms(1) word_char_visible by (auto simp: clean_key_def list_all_iff)
  then have "\<not> has_prefix ''#'' ?l" by (cases k) (auto simp: has_prefix_def)
  moreover have "index_byte CHR ''='' ?l = Some (length k)"
    using clean_key_no_eq [OF assms(1)] index_byte_append [of "CHR ''=''" k v] by simp
  ultimately show ?thesis
    using ne trim_space_visible [OF vis] exportPrefix_visible [OF vis] clean_key_trim [OF assms(1)]
    by (simp add: line_key_def Let_def)
qed

lemma line_key_export:
  assumes "clean_key k" and "list_all visible v"
  shows "line_key (''export '' @ k @ ''='' @ v) = Some (True, k)"
proof -
  let ?l = "''export '' @ k @ ''='' @ v"
  have vis: "list_all visible (k @ ''='' @ v)" using assms by (rule assign_visible)
  have "visible (last (k @ ''='' @ v))" using vis by (auto simp: list_all_iff)
  then have trim: "trim_space ?l = ?l"
    by (intro trim_space_visible_ends) (auto simp: visible_def)
  have "takeWhile re_space (CHR '' '' # k @ ''='' @ v) = '' ''"
    using takeWhile_visible [OF vis] by (simp add: re_space_def)
  then have "exportPrefix ?l = Some 7"
    by (simp add: exportPrefix_def Let_def has_prefix_def re_space_def)
  moreover have "index_byte CHR ''='' (k @ ''='' @ v) = Some (length k)"
    using clean_key_no_eq [OF assms(1)] index_byte_append [of "CHR ''=''" k v] by simp
  ultimately show ?thesis
    using trim clean_key_trim [OF assms(1)] by (simp add: line_key_def Let_def has_prefix_def)
qed

lemma rewrite_line_cases:
  assumes "kv_ok kv"
  obtains (keep) "rewrite_line kv line = line" "\<And>ex k. line_key line = Some (ex, k) \<Longrightarrow> gm_get kv k = None"
  | (set) ex k v where "line_key line = Some (ex, k)" "gm_get kv k = Some v"
      "rewrite_line kv line = (if ex then ''export '' else []) @ k @ ''='' @ v"
      "clean_key k" "list_all visible v"
proof (cases "\<exists>ex k v. line_key line = Some (ex, k) \<and> gm_get kv k = Some v")
  case True
  then obtain ex k v where l: "line_key line = Some (ex, k)" and kv: "gm_get kv k = Some v" by blast
  moreover have "clean_key k \<and> list_all visible v"
    using assms map_of_SomeD [OF kv] by (force simp: kv_ok_def list_all_iff)
  ultimately show thesis using set by (simp add: rewrite_line_def)
next
  case False
  then show thesis
    by (intro keep) (auto simp: rewrite_line_def split: option.splits)
qed

lemma line_key_rewrite: "kv_ok kv \<Longrightarrow> line_key (rewrite_line kv line) = line_key line"
  by (erule rewrite_line_cases [where line = line]) (auto simp: line_key_assign line_key_export simp del: append_Cons)

lemma rewrite_line_idem:
  assumes "kv_ok kv"
  shows "rewrite_line kv (rewrite_line kv line) = rewrite_line kv line"
proof (cases rule: rewrite_line_cases [OF assms, of line, case_names keep set])
  case (set ex k v)
  then have "line_key (rewrite_line kv line) = Some (ex, k)"
    using line_key_rewrite [OF assms, of line] by simp
  then have "rewrite_line kv (rewrite_line kv line) = (if ex then ''export '' else []) @ k @ ''='' @ v"
    by (simp add: rewrite_line_def [of kv "rewrite_line kv line"] set(2))
  with set(3) show ?thesis by simp
qed simp

section \<open>The whole file\<close>

definition env_lines :: "content \<Rightarrow> string list" where
  "env_lines content = split_on CHR 0x0A content"

definition assigns :: "(string, string) gomap \<Rightarrow> string \<Rightarrow> bool" where
  "assigns kv line \<longleftrightarrow> (\<exists>ex k. line_key line = Some (ex, k) \<and> gm_get kv k \<noteq> None)"

lemma assigns_rewrite: "kv_ok kv \<Longrightarrow> assigns kv (rewrite_line kv line) = assigns kv line"
  by (simp add: assigns_def line_key_rewrite)

lemma rewrite_not_assigns: "\<not> assigns kv line \<Longrightarrow> rewrite_line kv line = line"
  by (auto simp: assigns_def rewrite_line_def split: option.splits)

definition new_lines :: "(string, string) gomap \<Rightarrow> string list \<Rightarrow> string list" where
  "new_lines kv lines = map (rewrite_line kv) lines
     @ map (\<lambda>(k, v). k @ ''='' @ v) (filter (\<lambda>(k, v). \<not> is_seen lines k) kv)"

lemma newline_not_visible: "list_all visible s \<Longrightarrow> CHR 0x0A \<notin> set s"
  by (auto simp: list_all_iff visible_def)

lemma rewrite_line_no_newline:
  assumes "kv_ok kv" and "CHR 0x0A \<notin> set line"
  shows "CHR 0x0A \<notin> set (rewrite_line kv line)"
proof (cases rule: rewrite_line_cases [OF assms(1), of line, case_names keep set])
  case (set ex k v)
  then show ?thesis using newline_not_visible [OF assign_visible [OF set(4,5)]] by auto
qed (simp add: assms)

lemma new_lines_no_newline:
  assumes "kv_ok kv" and "\<forall>l \<in> set lines. CHR 0x0A \<notin> set l" and "x \<in> set (new_lines kv lines)"
  shows "CHR 0x0A \<notin> set x"
proof -
  have "CHR 0x0A \<notin> set (k @ ''='' @ v)" if "(k, v) \<in> set kv" for k v
    using that assms(1) by (intro newline_not_visible assign_visible) (auto simp: kv_ok_def list_all_iff)
  then show ?thesis
    using assms rewrite_line_no_newline [OF assms(1)] by (fastforce simp: new_lines_def)
qed

lemma split_on_snoc_sep: "split_on c (s @ [c]) = split_on c s @ [[]]"
  using split_on_append [of c s "[]"] by simp

lemma rewrite_env_new:
  "rewrite_env kv lines =
    (if has_suffix [CHR 0x0A] (join [CHR 0x0A] (new_lines kv lines)) then join [CHR 0x0A] (new_lines kv lines)
     else join [CHR 0x0A] (new_lines kv lines) @ [CHR 0x0A])"
  by (simp add: rewrite_env_def new_lines_def Let_def)

lemma rewrite_env_lines:
  assumes kv: "kv_ok kv" and nl: "\<forall>l \<in> set lines. CHR 0x0A \<notin> set l" and ne: "new_lines kv lines \<noteq> []"
  shows "env_lines (rewrite_env kv lines) = new_lines kv lines
    \<or> env_lines (rewrite_env kv lines) = new_lines kv lines @ [[]]"
proof -
  have "split_on CHR 0x0A (join [CHR 0x0A] (new_lines kv lines)) = new_lines kv lines"
    using ne new_lines_no_newline [OF kv nl] by (intro split_on_join) auto
  then show ?thesis
    by (simp add: rewrite_env_new env_lines_def split_on_snoc_sep)
qed

lemma line_key_Nil [simp]: "line_key [] = None"
  by (simp add: line_key_def)

lemma assigned_line:
  assumes kv: "kv_ok kv" and x: "x \<in> set (new_lines kv lines)" and l: "line_key x = Some (ex, k)"
    and v: "gm_get kv k = Some v"
  shows "x = (if ex then ''export '' else []) @ k @ ''='' @ v"
proof (cases "x \<in> rewrite_line kv ` set lines")
  case True
  then obtain line where line: "x = rewrite_line kv line" by blast
  then have "line_key line = Some (ex, k)" using l line_key_rewrite [OF kv] by simp
  with v line show ?thesis by (simp add: rewrite_line_def)
next
  case False
  then obtain k' v' where x': "x = k' @ ''='' @ v'" and mem: "(k', v') \<in> set kv"
    using x by (auto simp: new_lines_def)
  then have "clean_key k' \<and> list_all visible v'" using kv by (auto simp: kv_ok_def list_all_iff)
  then have "line_key x = Some (False, k')" using line_key_assign x' by blast
  moreover have "gm_get kv k' = Some v'" using kv mem by (simp add: kv_ok_def gm_get_in_set)
  ultimately show ?thesis using l v x' by simp
qed

lemma assigned_exists:
  assumes kv: "kv_ok kv" and v: "gm_get kv k = Some v"
  shows "\<exists>x \<in> set (new_lines kv lines). map_option snd (line_key x) = Some k"
proof (cases "is_seen lines k")
  case True
  then obtain line ex where "line \<in> set lines" "line_key line = Some (ex, k)"
    by (auto simp: is_seen_def)
  then show ?thesis
    using line_key_rewrite [OF kv, of line] by (intro bexI [of _ "rewrite_line kv line"]) (auto simp: new_lines_def)
next
  case False
  have mem: "(k, v) \<in> set kv" using v by (rule map_of_SomeD)
  then have "clean_key k \<and> list_all visible v" using kv by (auto simp: kv_ok_def list_all_iff)
  then have "line_key (k @ ''='' @ v) = Some (False, k)" using line_key_assign by blast
  with mem False show ?thesis by (force simp: new_lines_def)
qed

lemma others_kept:
  assumes kv: "kv_ok kv"
  shows "filter (\<lambda>l. \<not> assigns kv l) (new_lines kv lines) = filter (\<lambda>l. \<not> assigns kv l) lines"
proof -
  have "assigns kv (k @ ''='' @ v)" if "(k, v) \<in> set kv" for k v
  proof -
    have "clean_key k \<and> list_all visible v" "gm_get kv k = Some v"
      using kv that by (auto simp: kv_ok_def list_all_iff gm_get_in_set)
    then show ?thesis using line_key_assign by (auto simp: assigns_def)
  qed
  moreover have "filter (\<lambda>l. \<not> assigns kv l) (map (rewrite_line kv) lines) = filter (\<lambda>l. \<not> assigns kv l) lines"
    by (induction lines) (auto simp: assigns_rewrite [OF kv] rewrite_not_assigns)
  ultimately show ?thesis by (auto simp: new_lines_def filter_empty_conv)
qed

theorem rewrite_env_spec:
  assumes "kv_ok kv" and "kv \<noteq> []" and "\<forall>l \<in> set lines. CHR 0x0A \<notin> set l"
  shows "(\<forall>k v. gm_get kv k = Some v \<longrightarrow>
            (\<exists>x \<in> set (env_lines (rewrite_env kv lines)). map_option snd (line_key x) = Some k)
            \<and> (\<forall>x \<in> set (env_lines (rewrite_env kv lines)). \<forall>ex. line_key x = Some (ex, k) \<longrightarrow>
                 x = (if ex then ''export '' else []) @ k @ ''='' @ v))
    \<and> filter (\<lambda>l. l \<noteq> [] \<and> \<not> assigns kv l) (env_lines (rewrite_env kv lines))
      = filter (\<lambda>l. l \<noteq> [] \<and> \<not> assigns kv l) lines"
proof -
  obtain k0 v0 where k0: "gm_get kv k0 = Some v0"
    using assms(2) that [of "fst (hd kv)" "snd (hd kv)"] by (cases kv) auto
  have ne: "new_lines kv lines \<noteq> []"
    using assigned_exists [OF assms(1) k0, of lines] by auto
  have keep: "filter (\<lambda>l. l \<noteq> [] \<and> \<not> assigns kv l) xs = filter (\<lambda>l. l \<noteq> []) (filter (\<lambda>l. \<not> assigns kv l) xs)" for xs
    by (simp add: conj_commute)
  from rewrite_env_lines [OF assms(1,3) ne]
  have "filter (\<lambda>l. l \<noteq> [] \<and> \<not> assigns kv l) (env_lines (rewrite_env kv lines))
      = filter (\<lambda>l. l \<noteq> [] \<and> \<not> assigns kv l) lines"
    by (elim disjE) (simp_all only: keep others_kept [OF assms(1)] filter_append, simp_all)
  moreover from rewrite_env_lines [OF assms(1,3) ne]
  have "set (env_lines (rewrite_env kv lines)) \<subseteq> insert [] (set (new_lines kv lines))"
    and "set (new_lines kv lines) \<subseteq> set (env_lines (rewrite_env kv lines))" by auto
  moreover have "\<exists>x \<in> set (env_lines (rewrite_env kv lines)). map_option snd (line_key x) = Some k"
    if "gm_get kv k = Some v" for k v
    using assigned_exists [OF assms(1) that, of lines] calculation(3) by blast
  moreover have "x = (if ex then ''export '' else []) @ k @ ''='' @ v"
    if "gm_get kv k = Some v" "x \<in> set (env_lines (rewrite_env kv lines))" "line_key x = Some (ex, k)" for k v x ex
  proof -
    have "x \<noteq> []" using that(3) by auto
    then have "x \<in> set (new_lines kv lines)" using that(2) calculation(2) by blast
    then show ?thesis using assigned_line [OF assms(1) _ that(3,1)] by blast
  qed
  ultimately show ?thesis by blast
qed

theorem rewrite_env_idem:
  assumes "kv_ok kv" and "kv \<noteq> []" and "\<forall>l \<in> set lines. CHR 0x0A \<notin> set l"
  shows "rewrite_env kv (env_lines (rewrite_env kv lines)) = rewrite_env kv lines"
proof -
  let ?L = "env_lines (rewrite_env kv lines)"
  have spec: "\<exists>x \<in> set ?L. map_option snd (line_key x) = Some k" if "gm_get kv k = Some v" for k v
    using rewrite_env_spec [OF assms] that by blast
  then have "is_seen ?L k" if "(k, v) \<in> set kv" for k v
    using that assms(1) unfolding is_seen_def kv_ok_def by (metis gm_get_in_set)
  then have "filter (\<lambda>(k, v). \<not> is_seen ?L k) kv = []"
    by (auto simp: filter_empty_conv)
  moreover have "map (rewrite_line kv) ?L = ?L"
  proof (rule map_idI)
    fix x assume x: "x \<in> set ?L"
    show "rewrite_line kv x = x"
    proof (cases rule: rewrite_line_cases [OF assms(1), of x, case_names keep set])
      case (set ex k v)
      then show ?thesis using rewrite_env_spec [OF assms] x by auto
    qed
  qed
  ultimately have "new_lines kv ?L = ?L" by (simp add: new_lines_def)
  moreover have "join [CHR 0x0A] ?L = rewrite_env kv lines" by (simp add: env_lines_def)
  moreover have "has_suffix [CHR 0x0A] (rewrite_env kv lines)"
    by (simp add: rewrite_env_new has_suffix_def)
  ultimately show ?thesis by (simp add: rewrite_env_new [of kv ?L])
qed

text \<open>A final empty line is not dropped, so an appended key follows a blank line.\<close>

lemma rewrite_env_blank_line:
  "rewrite_env [(''K'', ''v'')] (split_on CHR 0x0A (''A=1'' @ [CHR 0x0A]))
   = ''A=1'' @ [CHR 0x0A, CHR 0x0A] @ ''K=v'' @ [CHR 0x0A]"
  by code_simp

section \<open>The writer of the env file is atomic\<close>

lemma atomicWriteFile_shape: "atomic_shape dst data (atomicWriteFile dst data fl)"
proof -
  let ?tmp = "dst @ tmpSuffix"
  consider (open_err) "open_fails fl"
    | (write_err) k where "\<not> open_fails fl" "write_fails fl = Some k"
    | (sync_err) "\<not> open_fails fl" "write_fails fl = None" "sync_fails fl"
    | (close_err) "\<not> open_fails fl" "write_fails fl = None" "\<not> sync_fails fl" "close_fails fl"
    | (rename_err) "\<not> open_fails fl" "write_fails fl = None" "\<not> sync_fails fl" "\<not> close_fails fl" "rename_fails fl"
    | (commit) "\<not> open_fails fl" "write_fails fl = None" "\<not> sync_fails fl" "\<not> close_fails fl" "\<not> rename_fails fl"
    by (cases "write_fails fl") blast+
  then show ?thesis
  proof cases
    case open_err
    then show ?thesis by (simp add: atomicWriteFile_def Let_def atomic_shape_unopened)
  next
    case (write_err k)
    have "atomicWriteFile dst data fl =
      ([OpenTrunc ?tmp, WriteFile ?tmp (take k data), CloseFile ?tmp, RemoveFile ?tmp], Some ErrWriteTmp)"
      using write_err by (simp add: atomicWriteFile_def Let_def)
    then show ?thesis by (simp only:) (rule atomic_shape_unsynced, simp)
  next
    case sync_err
    have "atomicWriteFile dst data fl =
      ([OpenTrunc ?tmp, WriteFile ?tmp data, CloseFile ?tmp, RemoveFile ?tmp], Some ErrSyncTmp)"
      using sync_err by (simp add: atomicWriteFile_def Let_def)
    then show ?thesis by (simp only:) (rule atomic_shape_unsynced, simp)
  next
    case close_err
    have "atomicWriteFile dst data fl =
      ([OpenTrunc ?tmp, WriteFile ?tmp data, SyncFile ?tmp, CloseFile ?tmp, RemoveFile ?tmp], Some ErrCloseTmp)"
      using close_err by (simp add: atomicWriteFile_def Let_def)
    then show ?thesis by (simp only:) (rule atomic_shape_synced, simp)
  next
    case rename_err
    have "atomicWriteFile dst data fl =
      ([OpenTrunc ?tmp, WriteFile ?tmp data, SyncFile ?tmp, CloseFile ?tmp, RemoveFile ?tmp], Some ErrRename)"
      using rename_err by (simp add: atomicWriteFile_def Let_def)
    then show ?thesis by (simp only:) (rule atomic_shape_synced, simp)
  next
    case commit
    have "atomicWriteFile dst data fl =
      (OpenTrunc ?tmp # WriteFile ?tmp data # SyncFile ?tmp # CloseFile ?tmp # RenameFile ?tmp dst
       # (if dir_open_fails fl \<or> dir_sync_fails fl then [] else [SyncDirOf dst]), None)"
      using commit by (simp add: atomicWriteFile_def Let_def)
    then show ?thesis by (simp only:) (rule atomic_shape_renamed, simp)
  qed
qed

interpretation env_writer: atomic_writer atomicWriteFile
  by (rule atomic_writerI [OF atomicWriteFile_shape]) (simp add: atomicWriteFile_def no_faults_def Let_def)

section \<open>What Load guarantees\<close>

definition envFile_of :: "options \<Rightarrow> path" where
  "envFile_of opts = (if o_EnvFile opts = [] then ''.env'' else o_EnvFile opts)"

lemma persistGenerated_cases:
  assumes "persistGenerated f kv ok fl s = (s', err)"
  obtains (unread) "s' = s" "err = Some ErrReadForPersist"
  | (failed) e where "err = Some (ErrPersist e)" "cache s' f = cache s f"
  | (written) "err = None"
      "cache s' f = Some (rewrite_env kv (case cache s f of None \<Rightarrow> [] | Some data \<Rightarrow> split_on CHR 0x0A data))"
proof (cases "cache s f \<noteq> None \<and> \<not> ok")
  case True
  then show thesis using assms unread by (auto simp: persistGenerated_def)
next
  case False
  let ?lines = "case cache s f of None \<Rightarrow> [] | Some data \<Rightarrow> split_on CHR 0x0A data"
  let ?w = "atomicWriteFile f (rewrite_env kv ?lines) fl"
  have "persistGenerated f kv ok fl s = (apply_ops (fst ?w) s, map_option ErrPersist (snd ?w))"
    using False by (auto simp: persistGenerated_def split: option.split prod.split)
  then have s': "s' = apply_ops (fst ?w) s" and err: "err = map_option ErrPersist (snd ?w)"
    using assms by simp_all
  show thesis
  proof (cases "snd ?w")
    case None
    then show thesis using written err s' env_writer.success_writes [OF None, of s] by simp
  next
    case (Some e)
    then show thesis using failed err s' env_writer.failure_keeps [OF Some, of s] by simp
  qed
qed

lemma load_finish_cases:
  assumes "load_finish env f cfg s = (s', out, r)"
  obtains (err) e where "r = Inl e" "out = []" "cache s' f = cache s f"
  | (ready) "r = Inr cfg" "out = []" "s' = s" "validate cfg = None" "AuthToken cfg \<noteq> []" "SessionSecret cfg \<noteq> []"
  | (generated) cfg1 gen1 cfg2 gen2 where
      "fill_token (token_random env) cfg = Inr (cfg1, gen1)"
      "fill_secret (secret_random env) cfg1 = Inr (cfg2, gen2)" "gen1 @ gen2 \<noteq> []"
      "r = Inr cfg2" "validate cfg2 = None"
      "persistGenerated f (persist_order env (gen1 @ gen2)) (persist_read_ok env) (persist_faults env) s = (s', None)"
      "out = (if gen1 \<noteq> [] then banner (AuthToken cfg2) f else [])"
proof (cases "fill_token (token_random env) cfg")
  case (Inl e)
  then show thesis using assms by (intro err [of e]) (auto simp: load_finish_def)
next
  case (Inr p1)
  obtain cfg1 gen1 where 1: "fill_token (token_random env) cfg = Inr (cfg1, gen1)"
    using Inr by (cases p1) auto
  show thesis
  proof (cases "fill_secret (secret_random env) cfg1")
    case (Inl e)
    then show thesis using assms 1 by (intro err [of e]) (auto simp: load_finish_def)
  next
    case (Inr p2)
    obtain cfg2 gen2 where 2: "fill_secret (secret_random env) cfg1 = Inr (cfg2, gen2)"
      using Inr by (cases p2) auto
    show thesis
    proof (cases "validate cfg2")
      case (Some v)
      then show thesis using assms 1 2 by (intro err [of "ErrValidation v"]) (auto simp: load_finish_def)
    next
      case None
      show thesis
      proof (cases "gen1 @ gen2 = []")
        case True
        then have "cfg1 = cfg" "cfg2 = cfg" "AuthToken cfg \<noteq> []" "SessionSecret cfg \<noteq> []"
          using 1 2 by (auto simp: fill_token_def fill_secret_def split: if_splits option.splits)
        then show thesis using ready assms 1 2 None True by (simp add: load_finish_def)
      next
        case gen: False
        obtain t e where p: "persistGenerated f (persist_order env (gen1 @ gen2)) (persist_read_ok env)
          (persist_faults env) s = (t, e)" by fastforce
        have run: "load_finish env f cfg s =
          (case e of Some x \<Rightarrow> (t, [], Inl x)
           | None \<Rightarrow> (t, (if gen1 \<noteq> [] then banner (AuthToken cfg2) f else []), Inr cfg2))"
          using 1 2 None gen p by (cases e) (auto simp: load_finish_def)
        show thesis
        proof (cases e)
          case None
          then show thesis using generated [OF 1 2 gen _ \<open>validate cfg2 = None\<close>] run assms p by simp
        next
          case (Some x)
          from p have "cache t f = cache s f" using Some by (cases rule: persistGenerated_cases) auto
          then show thesis using err Some run assms by simp
        qed
      qed
    qed
  qed
qed

lemma Load_cases:
  assumes "Load opts env s = (s', out, r)"
  obtains (err) e where "r = Inl e" "out = []" "s' = s"
  | (merged) cfg where "load_finish env (envFile_of opts) cfg s = (s', out, r)"
proof -
  let ?file = "case cache s (envFile_of opts) of None \<Rightarrow> Some Map.empty | Some data \<Rightarrow> dotenv_read env data"
  show thesis
  proof (cases ?file)
    case None
    then show thesis using assms
      by (intro err [of ErrReadEnv]) (auto simp: Load_def envFile_of_def [symmetric] Let_def)
  next
    case (Some fileEnv)
    let ?cfg = "merge_config opts (env_lookup fileEnv (getenv env))"
    have run: "Load opts env s =
      (if StateDir ?cfg = [] then
         (case user_home env of None \<Rightarrow> (s, [], Inl ErrHomeDir)
          | Some home \<Rightarrow> load_finish env (envFile_of opts) (?cfg\<lparr>StateDir := path_join [home, ''.port-manager'']\<rparr>) s)
       else load_finish env (envFile_of opts) ?cfg s)"
      using Some by (simp add: Load_def envFile_of_def [symmetric] Let_def)
    show thesis
      using run assms err merged by (cases "StateDir ?cfg = []"; cases "user_home env") auto
  qed
qed

lemma validate_None:
  "validate c = None \<longleftrightarrow>
    16 \<le> length (AuthToken c) \<and> 16 \<le> length (SessionSecret c) \<and> PublicHost c \<noteq> []
    \<and> 0 \<le> Port c \<and> Port c \<le> 65535 \<and> 0 < PortMin c \<and> PortMin c < PortMax c \<and> PortMax c \<le> 65535
    \<and> 0 < KillGraceMS c \<and> ScannerName c \<in> {''auto'', ''libproc'', ''lsof''}"
  by (auto simp: validate_def MinTokenBytes_def MinSecretBytes_def)

text \<open>
  C30. Every configuration Load returns has a token and a secret of 16 bytes or more, ports
  within range with a non-empty scan range, a positive grace period and a known scanner.
\<close>

theorem Load_valid:
  assumes "Load opts env s = (s', out, Inr cfg)"
  shows "16 \<le> length (AuthToken cfg) \<and> 16 \<le> length (SessionSecret cfg) \<and> PublicHost cfg \<noteq> []
    \<and> 0 \<le> Port cfg \<and> Port cfg \<le> 65535 \<and> 0 < PortMin cfg \<and> PortMin cfg < PortMax cfg \<and> PortMax cfg \<le> 65535
    \<and> 0 < KillGraceMS cfg \<and> ScannerName cfg \<in> {''auto'', ''libproc'', ''lsof''}"
  using assms
proof (cases rule: Load_cases)
  case (merged c)
  then have "validate cfg = None" by (cases rule: load_finish_cases) auto
  then show ?thesis using validate_None by blast
qed simp

theorem Load_error_keeps_env:
  assumes "Load opts env s = (s', out, Inl e)"
  shows "cache s' (envFile_of opts) = cache s (envFile_of opts) \<and> out = []"
  using assms
proof (cases rule: Load_cases)
  case (merged c)
  then show ?thesis by (cases rule: load_finish_cases) auto
qed simp

lemma hex_visible: "list_all visible (hex_encode bs)"
proof -
  have "visible (hex_digit n)" if "n < 16" for n
    using that by (auto simp: hex_digit_def visible_def of_char_mod_256)
  moreover have "unat b div 16 < 16" for b :: byte
    using unsigned_less [of b, where ?'a = nat] by simp
  ultimately show ?thesis by (auto simp: hex_encode_def list_all_iff)
qed

lemma generateSecret_visible: "generateSecret n rnd = Some v \<Longrightarrow> list_all visible v"
  by (auto simp: generateSecret_def hex_visible)

lemma generated_keys: "clean_key ''AUTH_TOKEN''" "clean_key ''SESSION_SECRET''"
  by (simp_all add: clean_key_def word_char_def is_digit_def less_eq_char_def)

lemma generated_kv:
  assumes "fill_token rt cfg = Inr (cfg1, gen1)" and "fill_secret rs cfg1 = Inr (cfg2, gen2)"
  shows "kv_ok (gen1 @ gen2) \<and> AuthToken cfg2 = AuthToken cfg1
    \<and> (\<forall>v. gm_get (gen1 @ gen2) ''AUTH_TOKEN'' = Some v \<longrightarrow> v = AuthToken cfg2)
    \<and> (\<forall>v. gm_get (gen1 @ gen2) ''SESSION_SECRET'' = Some v \<longrightarrow> v = SessionSecret cfg2)
    \<and> (gen1 \<noteq> [] \<longleftrightarrow> gm_get (gen1 @ gen2) ''AUTH_TOKEN'' \<noteq> None)"
  using assms generateSecret_visible generated_keys
  by (auto simp: fill_token_def fill_secret_def kv_ok_def gm_ok_def split: if_splits option.splits)

lemma kv_ok_mset:
  assumes "mset kv = mset kv'" and "kv_ok kv'" shows "kv_ok kv"
  using assms gm_ok_mset [OF assms(1)] mset_eq_setD [OF assms(1)] by (simp add: kv_ok_def list_all_iff)

definition holds_token :: "content \<Rightarrow> string \<Rightarrow> string \<Rightarrow> bool" where
  "holds_token content key v \<longleftrightarrow>
    (\<exists>x \<in> set (env_lines content). map_option snd (line_key x) = Some key)
    \<and> (\<forall>x \<in> set (env_lines content). map_option snd (line_key x) = Some key \<longrightarrow>
         x = key @ ''='' @ v \<or> x = ''export '' @ key @ ''='' @ v)"

lemma split_on_no_newline: "x \<in> set (split_on c s) \<Longrightarrow> c \<notin> set x"
  using split_on_pieces by blast

lemma rewrite_env_holds:
  assumes "kv_ok kv" and "gm_get kv k = Some v" and "\<forall>l \<in> set lines. CHR 0x0A \<notin> set l"
  shows "holds_token (rewrite_env kv lines) k v"
proof -
  have "kv \<noteq> []" using assms(2) by auto
  note spec = rewrite_env_spec [OF assms(1) this assms(3)]
  show ?thesis
    unfolding holds_token_def
  proof (intro conjI ballI impI)
    show "\<exists>x \<in> set (env_lines (rewrite_env kv lines)). map_option snd (line_key x) = Some k"
      using spec assms(2) by blast
    fix x assume x: "x \<in> set (env_lines (rewrite_env kv lines))" and "map_option snd (line_key x) = Some k"
    then obtain ex where "line_key x = Some (ex, k)" by auto
    then have "x = (if ex then ''export '' else []) @ k @ ''='' @ v"
      using spec assms(2) x by blast
    then show "x = k @ ''='' @ v \<or> x = ''export '' @ k @ ''='' @ v" by (cases ex) auto
  qed
qed

text \<open>
  C31. When Load prints a banner, it shows the token of the returned configuration and the env
  file has that token on every line that assigns AUTH_TOKEN, of which there is one at least.
\<close>

theorem Load_banner_persisted:
  assumes "Load opts env s = (s', out, Inr cfg)" and "out \<noteq> []"
    and "\<forall>m. mset (persist_order env m) = mset m"
  shows "out = banner (AuthToken cfg) (envFile_of opts)
    \<and> (\<exists>content. cache s' (envFile_of opts) = Some content \<and> holds_token content ''AUTH_TOKEN'' (AuthToken cfg))"
  using assms(1)
proof (cases rule: Load_cases)
  case (merged c)
  then show ?thesis
  proof (cases rule: load_finish_cases)
    case (generated cfg1 gen1 cfg2 gen2)
    let ?kv = "persist_order env (gen1 @ gen2)"
    let ?lines = "case cache s (envFile_of opts) of None \<Rightarrow> [] | Some data \<Rightarrow> split_on CHR 0x0A data"
    have mset: "mset ?kv = mset (gen1 @ gen2)" using assms(3) by blast
    have kv: "kv_ok (gen1 @ gen2)" using generated_kv [OF generated(1,2)] by blast
    have gen1: "gen1 \<noteq> []" using generated(7) assms(2) by auto
    have "gm_get (gen1 @ gen2) ''AUTH_TOKEN'' = Some (AuthToken cfg)"
      using generated_kv [OF generated(1,2)] gen1 generated(4)
      by (cases "gm_get (gen1 @ gen2) ''AUTH_TOKEN''") (simp_all del: map_of_append)
    then have tok: "gm_get ?kv ''AUTH_TOKEN'' = Some (AuthToken cfg)"
      using gm_get_mset [OF mset] gm_ok_mset [OF mset] kv by (simp add: kv_ok_def)
    have "\<forall>l \<in> set ?lines. CHR 0x0A \<notin> set l" by (auto split: option.splits dest: split_on_no_newline)
    then have holds: "holds_token (rewrite_env ?kv ?lines) ''AUTH_TOKEN'' (AuthToken cfg)"
      by (rule rewrite_env_holds [OF kv_ok_mset [OF mset kv] tok])
    from generated(6) have "cache s' (envFile_of opts) = Some (rewrite_env ?kv ?lines)"
      by (cases rule: persistGenerated_cases) auto
    with holds show ?thesis using generated(4,7) gen1 by auto
  qed (use assms in auto)
qed (use assms in auto)

section \<open>A first run\<close>

definition quiet_env :: load_env where
  "quiet_env = \<lparr>getenv = \<lambda>_. [], user_home = Some ''/home/u'', dotenv_read = \<lambda>_. Some Map.empty,
     token_random = Some (replicate 32 171), secret_random = Some (replicate 32 205),
     persist_read_ok = True, persist_faults = no_faults, persist_order = rev\<rparr>"

definition no_options :: options where
  "no_options = \<lparr>o_EnvFile = [], o_AuthToken = [], o_SessionSecret = [], o_PublicHost = [], o_Port = None,
     o_PortMin = 0, o_PortMax = 0, o_KillGraceMS = 0, o_Scanner = [], o_StateDir = [], o_TrustXFF = False\<rparr>"

definition blank_fs :: fs where
  "blank_fs = \<lparr>cache = \<lambda>_. None, current = \<lambda>_. [None], older = \<lambda>_. []\<rparr>"

definition first_config :: config where
  "first_config = \<lparr>AuthToken = hex_encode (replicate 32 171), SessionSecret = hex_encode (replicate 32 205),
     PublicHost = DefaultPublicHost, Port = 40000, PortMin = 40000, PortMax = 40500, KillGraceMS = 3000,
     ScannerName = ''auto'', StateDir = path_join [''/home/u'', ''.port-manager''], TrustXFF = False\<rparr>"

lemma first_merge:
  "(merge_config no_options (env_lookup Map.empty (getenv quiet_env)))\<lparr>StateDir := path_join [''/home/u'', ''.port-manager'']\<rparr>
   = first_config\<lparr>AuthToken := [], SessionSecret := []\<rparr>"
  by (simp add: merge_config_def env_lookup_def lookup_int_def parsePortRange_def parseBool_def ascii_lower_def
      no_options_def quiet_env_def first_config_def DefaultPort_def DefaultPortMin_def DefaultPortMax_def
      DefaultKillGraceMS_def DefaultScanner_def DefaultPublicHost_def)

lemma first_valid: "validate first_config = None"
  unfolding validate_None by (simp add: first_config_def DefaultPublicHost_def)

lemma first_load:
  "\<exists>s'. Load no_options quiet_env blank_fs = (s', banner (AuthToken first_config) ''.env'', Inr first_config)"
proof -
  let ?cfg = "first_config\<lparr>AuthToken := [], SessionSecret := []\<rparr>"
  let ?kv = "[(''SESSION_SECRET'', SessionSecret first_config), (''AUTH_TOKEN'', AuthToken first_config)]"
  have state_dir: "StateDir (merge_config no_options (env_lookup Map.empty (getenv quiet_env))) = []"
    by (simp add: merge_config_def env_lookup_def no_options_def quiet_env_def split: prod.split)
  then have load: "Load no_options quiet_env blank_fs = load_finish quiet_env ''.env'' ?cfg blank_fs"
    using first_merge by (simp add: Load_def Let_def) (simp add: no_options_def blank_fs_def quiet_env_def)
  have "fill_token (token_random quiet_env) ?cfg
    = Inr (first_config\<lparr>SessionSecret := []\<rparr>, [(''AUTH_TOKEN'', AuthToken first_config)])"
    by (simp add: fill_token_def generateSecret_def quiet_env_def first_config_def GeneratedTokenBytes_def)
  moreover have "fill_secret (secret_random quiet_env) (first_config\<lparr>SessionSecret := []\<rparr>)
    = Inr (first_config, [(''SESSION_SECRET'', SessionSecret first_config)])"
    by (simp add: fill_secret_def generateSecret_def quiet_env_def first_config_def GeneratedTokenBytes_def)
  moreover have "\<exists>s'. persistGenerated ''.env'' ?kv True no_faults blank_fs = (s', None)"
    using env_writer.no_faults_succeed
    by (simp add: persistGenerated_def blank_fs_def case_prod_unfold)
  ultimately show ?thesis
    using first_valid load by (auto simp: load_finish_def) (auto simp: quiet_env_def)
qed

lemma Load_valid_witness:
  "16 \<le> length (AuthToken first_config) \<and> 16 \<le> length (SessionSecret first_config) \<and> PublicHost first_config \<noteq> []
    \<and> 0 \<le> Port first_config \<and> Port first_config \<le> 65535 \<and> 0 < PortMin first_config
    \<and> PortMin first_config < PortMax first_config \<and> PortMax first_config \<le> 65535
    \<and> 0 < KillGraceMS first_config \<and> ScannerName first_config \<in> {''auto'', ''libproc'', ''lsof''}"
  using first_load Load_valid by blast

lemma Load_error_keeps_env_witness:
  "cache blank_fs (envFile_of no_options) = cache blank_fs (envFile_of no_options) \<and> ([]::string) = []"
proof (rule Load_error_keeps_env)
  show "Load no_options (quiet_env\<lparr>user_home := None\<rparr>) blank_fs = (blank_fs, [], Inl ErrHomeDir)"
    by (simp add: Load_def Let_def no_options_def blank_fs_def merge_config_def env_lookup_def quiet_env_def
        split: prod.split)
qed

lemma Load_banner_persisted_witness:
  "\<exists>s'. Load no_options quiet_env blank_fs = (s', banner (AuthToken first_config) ''.env'', Inr first_config)
    \<and> (\<exists>content. cache s' (envFile_of no_options) = Some content
         \<and> holds_token content ''AUTH_TOKEN'' (AuthToken first_config))"
proof -
  obtain s' where load: "Load no_options quiet_env blank_fs = (s', banner (AuthToken first_config) ''.env'', Inr first_config)"
    using first_load by blast
  have "\<forall>m. mset (persist_order quiet_env m) = mset m" by (simp add: quiet_env_def)
  from Load_banner_persisted [OF load _ this] load show ?thesis by (auto simp: banner_def)
qed

lemma rewrite_env_idem_witness:
  "rewrite_env [(''K'', ''v'')] (env_lines (rewrite_env [(''K'', ''v'')] [''A=1''])) = rewrite_env [(''K'', ''v'')] [''A=1'']"
  by (rule rewrite_env_idem)
     (simp_all add: kv_ok_def clean_key_def word_char_def visible_def less_eq_char_def gm_ok_def)

end
