(* ===== verification/Auth.thy ===== *)
theory Auth
  imports Config
begin

text \<open>
  \<^verbatim>\<open>internal/auth/auth.go\<close>: the bearer token, the session cookie and the per-IP limiter of
  failed logins.

  Each operation of the limiter runs under \<open>rateLimitMu\<close>, so it is one step on the state. The
  clock \<open>a.now()\<close> is read once per operation; its value is the argument \<open>now\<close>. The order in
  which the runtime ranges over the map of failures is the argument \<open>iter\<close>.
\<close>

section \<open>State and constants\<close>

definition CookieTTL :: duration where "CookieTTL = 24 * Hour"
definition RateLimitWindow :: duration where "RateLimitWindow = 15 * Minute"
definition RateLimitCapacity :: nat where "RateLimitCapacity = 5"
definition RateLimitMaxIPs :: nat where "RateLimitMaxIPs = 10000"
definition cookieTimestampBytes :: nat where "cookieTimestampBytes = 8"
definition cookieMacBytes :: nat where "cookieMacBytes = 32"
definition cookieBodyBytes :: nat where "cookieBodyBytes = cookieTimestampBytes + cookieMacBytes"

lemmas [time_units] = CookieTTL_def RateLimitWindow_def
lemmas cookie_sizes = cookieTimestampBytes_def cookieMacBytes_def cookieBodyBytes_def

type_synonym ip = string
type_synonym failure_map = "(ip, gotime list) gomap"

record auth =
  au_token :: "byte list"
  au_secret :: "byte list"
  au_failures :: failure_map

definition newAuth :: "config \<Rightarrow> auth" where
  "newAuth cfg = \<lparr>au_token = bytes_of (AuthToken cfg), au_secret = bytes_of (SessionSecret cfg), au_failures = []\<rparr>"

section \<open>Bearer token and session cookie\<close>

definition CheckBearer :: "auth \<Rightarrow> string \<Rightarrow> bool" where
  "CheckBearer a tok =
    (if length (au_token a) = 0 then False
     else if length tok < MinTokenBytes then False
     else ct_compare (sha256 (au_token a)) (sha256 (bytes_of tok)) = 1)"

definition IssueCookie :: "auth \<Rightarrow> gotime \<Rightarrow> string" where
  "IssueCookie a issued =
    (let stamp = be64 (unix_seconds issued)
     in b64_encode (stamp @ hmac_sha256 (au_secret a) stamp))"

definition VerifyCookie :: "auth \<Rightarrow> gotime \<Rightarrow> string \<Rightarrow> bool" where
  "VerifyCookie a now val =
    (if val = [] then False
     else case b64_decode val of
       None \<Rightarrow> False
     | Some raw \<Rightarrow>
         if length raw \<noteq> cookieBodyBytes then False
         else let stamp = take cookieTimestampBytes raw;
                  ts = uint64_be stamp;
                  expected = hmac_sha256 (au_secret a) stamp
              in if ct_compare expected (drop cookieTimestampBytes raw) \<noteq> 1 then False
                 else let issued = time_of_unix ts
                      in if now < issued then False else time_sub now issued < CookieTTL)"

section \<open>The limiter of failed logins\<close>

definition fails_of :: "failure_map \<Rightarrow> ip \<Rightarrow> gotime list" where
  "fails_of m ip = (case gm_get m ip of None \<Rightarrow> [] | Some fs \<Rightarrow> fs)"

definition pruneLocked :: "ip \<Rightarrow> gotime \<Rightarrow> failure_map \<Rightarrow> gotime list \<times> failure_map" where
  "pruneLocked ip now m =
    (let fails = fails_of m ip in
     if fails = [] then ([], m)
     else let cutoff = now - RateLimitWindow;
              keep = filter (\<lambda>t. cutoff < t) fails
          in if keep = [] then ([], gm_del ip m) else (keep, gm_put ip keep m))"

definition RateLimitCheck :: "ip \<Rightarrow> gotime \<Rightarrow> auth \<Rightarrow> (bool \<times> duration) \<times> auth" where
  "RateLimitCheck ip now a =
    (let (fails, m) = pruneLocked ip now (au_failures a); a' = a\<lparr>au_failures := m\<rparr> in
     if RateLimitCapacity \<le> length fails then
       let wait = RateLimitWindow - time_sub now (hd fails)
       in ((False, if wait < 0 then 0 else wait), a')
     else ((True, 0), a'))"

definition sweepExpiredLocked :: "gotime \<Rightarrow> failure_map \<Rightarrow> failure_map" where
  "sweepExpiredLocked now m =
    (let cutoff = now - RateLimitWindow
     in filter (\<lambda>(ip, fails). \<not> (fails = [] \<or> \<not> cutoff < last fails)) m)"

text \<open>The loop of \<open>evictOldestLocked\<close>: entries in the order visited, map, best entry so far.\<close>

fun evict_scan :: "(ip \<times> gotime list) list \<Rightarrow> failure_map \<Rightarrow> (ip \<times> gotime) option
    \<Rightarrow> failure_map \<times> (ip \<times> gotime) option" where
  "evict_scan [] m sel = (m, sel)"
| "evict_scan ((ip, fails) # es) m sel =
    (if fails = [] then evict_scan es (gm_del ip m) sel
     else let newest = last fails in
       case sel of
         None \<Rightarrow> evict_scan es m (Some (ip, newest))
       | Some (_, oldestTime) \<Rightarrow>
           if newest < oldestTime then evict_scan es m (Some (ip, newest)) else evict_scan es m sel)"

definition evictOldestLocked :: "(failure_map \<Rightarrow> failure_map) \<Rightarrow> failure_map \<Rightarrow> failure_map" where
  "evictOldestLocked iter m =
    (case evict_scan (iter m) m None of (m', None) \<Rightarrow> m' | (m', Some (ip, _)) \<Rightarrow> gm_del ip m')"

definition RateLimitRecordFailure :: "(failure_map \<Rightarrow> failure_map) \<Rightarrow> ip \<Rightarrow> gotime \<Rightarrow> auth \<Rightarrow> auth" where
  "RateLimitRecordFailure iter ip now a =
    (let (fails, m) = pruneLocked ip now (au_failures a);
         m' = (if gm_get m ip = None \<and> RateLimitMaxIPs \<le> length m then
                 let s = sweepExpiredLocked now m
                 in if RateLimitMaxIPs \<le> length s then evictOldestLocked iter s else s
               else m)
     in a\<lparr>au_failures := gm_put ip (fails @ [now]) m'\<rparr>)"

definition RateLimitRecordSuccess :: "ip \<Rightarrow> auth \<Rightarrow> auth" where
  "RateLimitRecordSuccess ip a = a\<lparr>au_failures := gm_del ip (au_failures a)\<rparr>"

section \<open>Token and cookie: properties\<close>

lemma CheckBearer_iff:
  "CheckBearer a tok \<longleftrightarrow>
    au_token a \<noteq> [] \<and> MinTokenBytes \<le> length tok \<and> sha256 (au_token a) = sha256 (bytes_of tok)"
  by (simp add: CheckBearer_def ct_compare_eq [unfolded One_nat_def])

text \<open>
  C12. CheckBearer accepts a token exactly when it has 16 bytes or more and is the configured
  token or collides with it under SHA-256.
\<close>

theorem bearer_exact_or_collision:
  "CheckBearer (newAuth cfg) tok \<longleftrightarrow>
    AuthToken cfg \<noteq> [] \<and> 16 \<le> length tok
    \<and> (tok = AuthToken cfg \<or> bytes_of tok \<noteq> bytes_of (AuthToken cfg)
         \<and> sha256 (bytes_of tok) = sha256 (bytes_of (AuthToken cfg)))"
proof -
  have "bytes_of tok = bytes_of (AuthToken cfg) \<longleftrightarrow> tok = AuthToken cfg"
    by (metis string_of_bytes_of)
  moreover have "bytes_of (AuthToken cfg) = [] \<longleftrightarrow> AuthToken cfg = []" by (simp add: bytes_of_def)
  ultimately show ?thesis by (auto simp: CheckBearer_iff newAuth_def MinTokenBytes_def)
qed

text \<open>The second a stamp denotes.\<close>

definition stamp_time :: "gotime \<Rightarrow> gotime" where
  "stamp_time t = t div Second * Second"

lemma VerifyCookie_iff:
  "VerifyCookie a now val \<longleftrightarrow>
    (\<exists>stamp mac. b64_decode val = Some (stamp @ mac) \<and> length stamp = 8 \<and> length mac = 32
       \<and> mac = hmac_sha256 (au_secret a) stamp
       \<and> time_of_unix (uint64_be stamp) \<le> now \<and> now < time_of_unix (uint64_be stamp) + CookieTTL)"
  (is "?l \<longleftrightarrow> ?r")
proof
  have ttl: "time_sub now t < CookieTTL \<longleftrightarrow> now < t + CookieTTL" for t
  proof -
    have "time_sub now t < CookieTTL \<longleftrightarrow> now - t < CookieTTL"
      by (rule time_sub_less_iff) (simp_all add: time_units min_duration_def max_duration_def)
    then show ?thesis by auto
  qed
  {
    assume ?l
    then obtain raw where raw: "b64_decode val = Some raw" "length raw = 40"
      "ct_compare (hmac_sha256 (au_secret a) (take 8 raw)) (drop 8 raw) = Suc 0"
      "time_of_unix (uint64_be (take 8 raw)) \<le> now"
      "time_sub now (time_of_unix (uint64_be (take 8 raw))) < CookieTTL"
      by (auto simp: VerifyCookie_def Let_def cookie_sizes split: if_splits option.splits)
    then show ?r
      by (intro exI [of _ "take 8 raw"] exI [of _ "drop 8 raw"]) (simp add: ct_compare_eq [unfolded One_nat_def] ttl)
  }
  assume ?r
  then obtain stamp mac where d: "b64_decode val = Some (stamp @ mac)" "length stamp = 8" "length mac = 32"
    "mac = hmac_sha256 (au_secret a) stamp" "time_of_unix (uint64_be stamp) \<le> now"
    "now < time_of_unix (uint64_be stamp) + CookieTTL" by blast
  moreover have "val \<noteq> []" using d by (auto simp: b64_decode_def)
  ultimately show ?l
    by (simp add: VerifyCookie_def Let_def cookie_sizes ct_compare_eq [unfolded One_nat_def] ttl)
qed

lemma issued_cookie_valid:
  assumes "0 \<le> issued" and "issued < 2 ^ 62"
  shows "VerifyCookie a now (IssueCookie a issued) \<longleftrightarrow>
    stamp_time issued \<le> now \<and> now < stamp_time issued + 24 * Hour"
proof -
  let ?stamp = "be64 (unix_seconds issued)"
  have "time_of_unix (uint64_be ?stamp) = stamp_time issued"
    using assms
    by (subst uint64_be_be64, subst time_of_unix_seconds) (auto simp: stamp_time_def time_units)
  moreover have "?stamp @ hmac_sha256 (au_secret a) ?stamp = stamp @ mac \<longleftrightarrow>
    stamp = ?stamp \<and> mac = hmac_sha256 (au_secret a) ?stamp" if "length stamp = 8" for stamp mac
    using that by (auto simp: append_eq_append_conv)
  ultimately show ?thesis
    by (auto simp: VerifyCookie_iff IssueCookie_def Let_def b64_roundtrip CookieTTL_def)
qed

theorem cookie_lifetime:
  assumes "0 \<le> issued" and "issued < 2 ^ 62"
  shows "VerifyCookie a now (IssueCookie a issued) \<longleftrightarrow>
    stamp_time issued \<le> now \<and> now < stamp_time issued + 24 * Hour"
  using assms by (rule issued_cookie_valid)

text \<open>
  C8. Every value VerifyCookie accepts decodes to a stamp followed by the HMAC-SHA256 of that
  stamp under the session secret, and the stamp is at most 24 hours old and not in the future.
\<close>

theorem cookie_unforgeable:
  assumes "VerifyCookie a now val"
  shows "\<exists>stamp. length stamp = 8 \<and> b64_decode val = Some (stamp @ hmac_sha256 (au_secret a) stamp)
    \<and> time_of_unix (uint64_be stamp) \<le> now \<and> now < time_of_unix (uint64_be stamp) + 24 * Hour"
  using assms by (auto simp: VerifyCookie_iff CookieTTL_def)

theorem cookie_secret_rotation:
  assumes "VerifyCookie b now (IssueCookie a issued)"
  shows "hmac_sha256 (au_secret b) (be64 (unix_seconds issued)) = hmac_sha256 (au_secret a) (be64 (unix_seconds issued))"
proof -
  obtain stamp mac where "be64 (unix_seconds issued) @ hmac_sha256 (au_secret a) (be64 (unix_seconds issued)) = stamp @ mac"
    "length stamp = 8" "mac = hmac_sha256 (au_secret b) stamp"
    using assms by (auto simp: VerifyCookie_iff IssueCookie_def Let_def b64_roundtrip)
  then show ?thesis by (auto simp: append_eq_append_conv)
qed

end
