(* ===== verification/RateLimit.thy ===== *)
theory RateLimit
  imports Auth
begin

text \<open>
  The contract of the limiter of failed logins, what it guarantees to a caller that checks, tries
  and records one attempt after the other, and the proof that \<^verbatim>\<open>internal/auth/auth.go\<close> meets it.
\<close>

section \<open>The contract\<close>

text \<open>One attempt of such a caller: the verdict first, then the record of the failure.\<close>

definition guess_step ::
    "(ip \<Rightarrow> gotime \<Rightarrow> 's \<Rightarrow> (bool \<times> duration) \<times> 's) \<Rightarrow> (ip \<Rightarrow> gotime \<Rightarrow> 's \<Rightarrow> 's)
     \<Rightarrow> ip \<times> gotime \<Rightarrow> 's \<times> (ip \<times> gotime) list \<Rightarrow> 's \<times> (ip \<times> gotime) list" where
  "guess_step chk fail = (\<lambda>(ip, t) (s, admitted).
     let ((allowed, _), s') = chk ip t s
     in if allowed then (fail ip t s', admitted @ [(ip, t)]) else (s', admitted))"

definition guess_run ::
    "(ip \<Rightarrow> gotime \<Rightarrow> 's \<Rightarrow> (bool \<times> duration) \<times> 's) \<Rightarrow> (ip \<Rightarrow> gotime \<Rightarrow> 's \<Rightarrow> 's)
     \<Rightarrow> (ip \<times> gotime) list \<Rightarrow> 's \<Rightarrow> 's \<times> (ip \<times> gotime) list" where
  "guess_run chk fail attempts s = fold (guess_step chk fail) attempts (s, [])"

definition in_window :: "gotime \<Rightarrow> ip \<Rightarrow> (ip \<times> gotime) list \<Rightarrow> gotime list" where
  "in_window t ip evs = map snd (filter (\<lambda>(i, x). i = ip \<and> t - RateLimitWindow < x \<and> x \<le> t) evs)"

text \<open>Never more than the limiter's capacity of distinct addresses within one window.\<close>

definition window_ips :: "gotime \<Rightarrow> (ip \<times> gotime) list \<Rightarrow> ip list" where
  "window_ips t evs = remdups (map fst (filter (\<lambda>(_, x). t - RateLimitWindow < x \<and> x \<le> t) evs))"

definition within_capacity :: "(ip \<times> gotime) list \<Rightarrow> bool" where
  "within_capacity evs \<longleftrightarrow> list_all (\<lambda>(_, t). length (window_ips t evs) \<le> RateLimitMaxIPs) evs"

lemma length_window_ips: "length (window_ips t evs) = card (set (window_ips t evs))"
  unfolding window_ips_def by (simp only: length_remdups_card_conv set_remdups)

lemma window_ips_append: "length (window_ips t evs) \<le> length (window_ips t (evs @ evs'))"
  unfolding length_window_ips by (rule card_mono) (auto simp: window_ips_def)

lemma within_capacity_appendD: "within_capacity (evs @ evs') \<Longrightarrow> within_capacity evs"
  unfolding within_capacity_def list_all_iff
  by (auto intro: order_trans [OF window_ips_append])

locale login_limiter =
  fixes chk :: "ip \<Rightarrow> gotime \<Rightarrow> 's \<Rightarrow> (bool \<times> duration) \<times> 's"
    and fail :: "ip \<Rightarrow> gotime \<Rightarrow> 's \<Rightarrow> 's"
    and success :: "ip \<Rightarrow> 's \<Rightarrow> 's"
    and recent :: "'s \<Rightarrow> ip \<Rightarrow> gotime \<Rightarrow> gotime list"
    and ok :: "gotime \<Rightarrow> 's \<Rightarrow> bool"
  assumes verdict: "ok now s \<Longrightarrow> fst (fst (chk ip now s)) \<longleftrightarrow> length (recent s ip now) < RateLimitCapacity"
    and check_recent: "ok now s \<Longrightarrow> now \<le> t \<Longrightarrow> recent (snd (chk ip now s)) j t = recent s j t"
    and fail_recent:
      "ok now s \<Longrightarrow> now \<le> t \<Longrightarrow> recent s ip now \<noteq> [] \<or> card {j. recent s j now \<noteq> []} < RateLimitMaxIPs \<Longrightarrow>
       recent (fail ip now s) j t =
         (if j = ip then filter (\<lambda>x. t - RateLimitWindow < x) (recent s ip now @ [now]) else recent s j t)"
    and success_recent: "ok now s \<Longrightarrow> recent (success ip s) j t = (if j = ip then [] else recent s j t)"
    and ok_check: "ok now s \<Longrightarrow> ok now (snd (chk ip now s))"
    and ok_fail: "ok now s \<Longrightarrow> ok now (fail ip now s)"
    and ok_success: "ok now s \<Longrightarrow> ok now (success ip s)"
    and ok_later: "ok now s \<Longrightarrow> now \<le> t \<Longrightarrow> ok t s"
begin

text \<open>What holds between two attempts: the state knows the admitted ones, and none is one too many.\<close>

definition tracks :: "gotime \<Rightarrow> 's \<Rightarrow> (ip \<times> gotime) list \<Rightarrow> bool" where
  "tracks now s log \<longleftrightarrow> ok now s \<and> (\<forall>(i, x) \<in> set log. x \<le> now)
    \<and> (\<forall>j t. now \<le> t \<longrightarrow> recent s j t = in_window t j log)
    \<and> (\<forall>j t. length (in_window t j log) \<le> RateLimitCapacity)"

lemma tracks_later: "tracks now s log \<Longrightarrow> now \<le> t \<Longrightarrow> tracks t s log"
  by (fastforce simp: tracks_def intro: ok_later)

lemma in_window_snoc:
  "in_window t j (log @ [(i, x)]) =
    in_window t j log @ (if i = j \<and> t - RateLimitWindow < x \<and> x \<le> t then [x] else [])"
  by (simp add: in_window_def)

lemma in_window_shrinks:
  "x \<le> t \<Longrightarrow> \<forall>(i, y) \<in> set log. y \<le> x \<Longrightarrow> length (in_window t j log) \<le> length (in_window x j log)"
proof (induction log rule: rev_induct)
  case (snoc e log)
  then show ?case by (cases e) (auto simp: in_window_snoc)
qed (simp add: in_window_def)

lemma tracks_step:
  assumes tr: "tracks now s log" and le: "now \<le> x"
    and room: "in_window x i log \<noteq> [] \<or> card {j. in_window x j log \<noteq> []} < RateLimitMaxIPs"
  shows "case guess_step chk fail (i, x) (s, log) of (s', log') \<Rightarrow> tracks x s' log'"
proof -
  have trx: "tracks x s log" using tracks_later [OF tr le] .
  then have ok: "ok x s" and past: "\<forall>(i, y) \<in> set log. y \<le> x"
    and rec: "\<And>j t. x \<le> t \<Longrightarrow> recent s j t = in_window t j log"
    and cap: "\<And>j t. length (in_window t j log) \<le> RateLimitCapacity" by (auto simp: tracks_def)
  obtain allowed w s1 where c: "chk i x s = ((allowed, w), s1)" by (metis prod.exhaust)
  then have s1: "s1 = snd (chk i x s)" by simp
  have ok1: "ok x s1" and rec1: "\<And>j t. x \<le> t \<Longrightarrow> recent s1 j t = in_window t j log"
    using ok_check [OF ok] check_recent [OF ok] rec s1 by simp_all
  show ?thesis
  proof (cases allowed)
    case False
    then show ?thesis using ok1 rec1 past cap by (simp add: guess_step_def c tracks_def)
  next
    case True
    then have less: "length (in_window x i log) < RateLimitCapacity"
      using verdict [OF ok, of i] c rec by simp
    let ?log = "log @ [(i, x)]"
    have "recent (fail i x s1) j t = in_window t j ?log" if "x \<le> t" for j t
    proof -
      have "recent s1 i x \<noteq> [] \<or> card {j. recent s1 j x \<noteq> []} < RateLimitMaxIPs"
        using room rec1 by simp
      note fail_recent [OF ok1 that this, of j]
      moreover have "filter (\<lambda>y. t - RateLimitWindow < y) (in_window x i log) = in_window t i log"
        using past that by (induction log) (auto simp: in_window_def)
      ultimately show ?thesis using that rec1 by (auto simp: in_window_snoc)
    qed
    moreover have "length (in_window t j ?log) \<le> RateLimitCapacity" for j t
    proof (cases "i = j \<and> t - RateLimitWindow < x \<and> x \<le> t")
      case True
      then have "length (in_window t j log) \<le> length (in_window x j log)"
        using past by (intro in_window_shrinks) auto
      with True less show ?thesis by (simp add: in_window_snoc)
    next
      case False
      then have "in_window t j ?log = in_window t j log" by (auto simp: in_window_snoc)
      then show ?thesis using cap [of t j] by simp
    qed
    ultimately show ?thesis
      using True ok_fail [OF ok1] past by (auto simp: guess_step_def c tracks_def)
  qed
qed

lemma guess_run_snoc:
  "guess_run chk fail (as @ [a]) s = guess_step chk fail a (guess_run chk fail as s)"
  by (simp add: guess_run_def)

lemma guess_run_log: "set (snd (guess_run chk fail as s)) \<subseteq> set as"
  by (induction as rule: rev_induct)
     (auto simp: guess_run_snoc guess_step_def Let_def guess_run_def split: prod.splits if_splits)

lemma guess_run_tracks:
  assumes "sorted (map snd as)" and "within_capacity as" and "ok t0 s"
    and "\<And>j t. t0 \<le> t \<Longrightarrow> recent s j t = []" and "\<forall>(i, x) \<in> set as. t0 \<le> x"
  shows "tracks (if as = [] then t0 else snd (last as)) (fst (guess_run chk fail as s)) (snd (guess_run chk fail as s))"
  using assms(1,2,5)
proof (induction as rule: rev_induct)
  case Nil
  then show ?case using assms(3,4) by (simp add: guess_run_def tracks_def in_window_def)
next
  case (snoc a as)
  obtain i x where a: "a = (i, x)" by (cases a)
  let ?now = "if as = [] then t0 else snd (last as)"
  let ?s = "fst (guess_run chk fail as s)" and ?log = "snd (guess_run chk fail as s)"
  have sub: "within_capacity as" using snoc.prems(2) by (rule within_capacity_appendD)
  have "tracks ?now ?s ?log"
    using snoc.IH sub snoc.prems by (auto simp: sorted_append)
  moreover have "?now \<le> x"
  proof (cases "as = []")
    case False
    then have "last as \<in> set as" by simp
    with False show ?thesis using snoc.prems(1) a by (auto simp: sorted_append)
  qed (use snoc.prems a in simp)
  moreover have "in_window x i ?log \<noteq> [] \<or> card {j. in_window x j ?log \<noteq> []} < RateLimitMaxIPs"
  proof (cases "in_window x i ?log \<noteq> []")
    case False
    let ?ips = "set (window_ips x (as @ [a]))"
    have "{j. in_window x j ?log \<noteq> []} \<subseteq> ?ips"
      using guess_run_log [of as s] by (force simp: in_window_def window_ips_def filter_empty_conv)
    moreover have "i \<in> ?ips" using a by (simp add: window_ips_def time_units)
    ultimately have "{j. in_window x j ?log \<noteq> []} \<subset> ?ips" using False by blast
    then have "card {j. in_window x j ?log \<noteq> []} < card ?ips" by (intro psubset_card_mono) auto
    moreover have "card ?ips \<le> RateLimitMaxIPs"
      using snoc.prems(2) a by (auto simp: within_capacity_def list_all_iff length_window_ips)
    ultimately show ?thesis by simp
  qed blast
  ultimately have "case guess_step chk fail (i, x) (?s, ?log) of (s', log') \<Rightarrow> tracks x s' log'"
    by (rule tracks_step)
  then show ?case using a by (simp add: guess_run_snoc split: prod.splits)
qed

lemma guesses_bounded:
  assumes "sorted (map snd as)" and "within_capacity as" and "ok t0 s"
    and "\<And>j t. t0 \<le> t \<Longrightarrow> recent s j t = []" and "\<forall>(i, x) \<in> set as. t0 \<le> x"
  shows "length (in_window t ip (snd (guess_run chk fail as s))) \<le> RateLimitCapacity"
  using guess_run_tracks [OF assms] by (simp add: tracks_def)

end

section \<open>The implementation meets it\<close>

definition recent_fails :: "failure_map \<Rightarrow> ip \<Rightarrow> gotime \<Rightarrow> gotime list" where
  "recent_fails m ip t = filter (\<lambda>x. t - RateLimitWindow < x) (fails_of m ip)"

definition map_ok :: "gotime \<Rightarrow> failure_map \<Rightarrow> bool" where
  "map_ok now m \<longleftrightarrow> gm_ok m \<and> length m \<le> RateLimitMaxIPs
    \<and> (\<forall>ip fs. gm_get m ip = Some fs \<longrightarrow> fs \<noteq> [] \<and> sorted fs \<and> last fs \<le> now)"

definition reorders :: "(failure_map \<Rightarrow> failure_map) \<Rightarrow> bool" where
  "reorders iter \<longleftrightarrow> (\<forall>m. mset (iter m) = mset m)"

lemma fails_of_put [simp]: "fails_of (gm_put ip fs m) j = (if j = ip then fs else fails_of m j)"
  by (simp add: fails_of_def update_conv')

lemma fails_of_del [simp]: "fails_of (gm_del ip m) j = (if j = ip then [] else fails_of m j)"
  by (simp add: fails_of_def delete_conv')

lemma map_ok_fails: "map_ok now m \<Longrightarrow> sorted (fails_of m ip) \<and> (\<forall>x \<in> set (fails_of m ip). x \<le> now)"
  by (auto simp: map_ok_def fails_of_def split: option.split dest: last_in_sorted) (meson last_in_sorted order_trans)

lemma map_ok_put:
  assumes "map_ok now m" and "fs \<noteq> []" "sorted fs" "last fs \<le> now"
    and "gm_get m ip = None \<longrightarrow> length m < RateLimitMaxIPs"
  shows "map_ok now (gm_put ip fs m)"
  using assms gm.put_in_cap [of m RateLimitMaxIPs ip fs] by (simp add: map_ok_def update_conv')

lemma map_ok_del: "map_ok now m \<Longrightarrow> map_ok now (gm_del ip m)"
  using gm.len_del_le [of m ip] by (auto simp: map_ok_def delete_conv')

lemma map_ok_filter: "map_ok now m \<Longrightarrow> map_ok now (filter P m)"
  using length_filter_le [of P m]
  by (auto simp: map_ok_def gm_get_filter simp del: length_filter_le split: option.splits if_splits intro: order_trans)

lemma prune_spec:
  assumes m: "map_ok now m" and p: "pruneLocked ip now m = (fails, m')"
  shows "fails = recent_fails m ip now \<and> map_ok now m' \<and> fails_of m' j = (if j = ip then fails else fails_of m j)
    \<and> (gm_get m' ip = None \<longleftrightarrow> fails = [])"
proof (cases "fails_of m ip = []")
  case True
  then have "gm_get m ip = None" using m by (auto simp: fails_of_def map_ok_def split: option.splits)
  then show ?thesis using True p m by (auto simp: pruneLocked_def recent_fails_def)
next
  case False
  then have mem: "gm_get m ip \<noteq> None" by (auto simp: fails_of_def split: option.splits)
  let ?keep = "recent_fails m ip now"
  have run: "pruneLocked ip now m = (if ?keep = [] then ([], gm_del ip m) else (?keep, gm_put ip ?keep m))"
    using False by (simp add: pruneLocked_def Let_def recent_fails_def)
  show ?thesis
  proof (cases "?keep = []")
    case True
    then show ?thesis using run p map_ok_del [OF m, of ip] by (auto simp: delete_conv')
  next
    case keep: False
    have "sorted ?keep" "last ?keep \<le> now"
      using map_ok_fails [OF m, of ip] keep last_in_set [OF keep] by (auto simp: recent_fails_def sorted_filter_le)
    then have "map_ok now (gm_put ip ?keep m)" using m keep mem by (intro map_ok_put) auto
    then show ?thesis using run p keep by (auto simp: update_conv')
  qed
qed

lemma recent_fails_later:
  "now \<le> t \<Longrightarrow> filter (\<lambda>x. t - RateLimitWindow < x) (recent_fails m ip now) = recent_fails m ip t"
  by (auto simp: recent_fails_def intro: filter_cong)

lemma recent_fails_cong: "fails_of m j = fails_of m' j \<Longrightarrow> recent_fails m j t = recent_fails m' j t"
  by (simp add: recent_fails_def)

lemma prune_recent:
  assumes "map_ok now m" and "now \<le> t"
  shows "recent_fails (snd (pruneLocked ip now m)) j t = recent_fails m j t"
proof -
  obtain fails m' where p: "pruneLocked ip now m = (fails, m')" by fastforce
  note prune_spec [OF assms(1) p, of j]
  then show ?thesis
    using p recent_fails_later [OF assms(2), of m ip]
    by (cases "j = ip") (auto simp: recent_fails_def)
qed

lemma recent_ne_iff:
  assumes "map_ok now m" and "gm_get m j = Some fs"
  shows "recent_fails m j t \<noteq> [] \<longleftrightarrow> t - RateLimitWindow < last fs"
proof -
  have fs: "fs \<noteq> []" "sorted fs" using assms by (auto simp: map_ok_def)
  have "(\<exists>x \<in> set fs. t - RateLimitWindow < x) \<longleftrightarrow> t - RateLimitWindow < last fs"
    using last_in_sorted [OF fs(2)] last_in_set [OF fs(1)] by (meson less_le_trans)
  then show ?thesis using assms(2) by (simp add: recent_fails_def fails_of_def filter_empty_conv)
qed

lemma recent_none: "gm_get m j = None \<Longrightarrow> recent_fails m j t = []"
  by (simp add: recent_fails_def fails_of_def)

lemma sweep_get:
  assumes "map_ok now m"
  shows "gm_get (sweepExpiredLocked now m) j = (if recent_fails m j now = [] then None else gm_get m j)"
proof (cases "gm_get m j")
  case None
  then show ?thesis using assms by (simp add: sweepExpiredLocked_def Let_def gm_get_filter map_ok_def)
next
  case (Some fs)
  then have "fs \<noteq> []" using assms by (auto simp: map_ok_def)
  then show ?thesis
    using Some assms recent_ne_iff [OF assms Some, of now]
    by (auto simp: sweepExpiredLocked_def Let_def gm_get_filter map_ok_def)
qed

lemma sweep_ok: "map_ok now m \<Longrightarrow> map_ok now (sweepExpiredLocked now m)"
  by (simp add: sweepExpiredLocked_def Let_def map_ok_filter)

lemma sweep_length:
  assumes "map_ok now m"
  shows "length (sweepExpiredLocked now m) = card {j. recent_fails m j now \<noteq> []}"
proof -
  have "dom (gm_get (sweepExpiredLocked now m)) = {j. recent_fails m j now \<noteq> []}"
    using recent_none [of m] by (auto simp: sweep_get [OF assms] split: if_splits) blast
  then show ?thesis 
    using gm.len_card [of "sweepExpiredLocked now m"] sweep_ok [OF assms] by (simp add: map_ok_def)
qed

lemma sweep_recent:
  assumes "map_ok now m" and "now \<le> t"
  shows "recent_fails (sweepExpiredLocked now m) j t = recent_fails m j t"
proof (cases "recent_fails m j now = []")
  case True
  then have "recent_fails (sweepExpiredLocked now m) j t = []"
    using sweep_get [OF assms(1), of j] by (simp add: recent_none)
  moreover have "recent_fails m j t = []"
    using recent_fails_later [OF assms(2), of m j] True by simp
  ultimately show ?thesis by simp
next
  case False
  then show ?thesis by (simp add: recent_fails_def fails_of_def sweep_get [OF assms(1)])
qed

lemma evict_scan_spec:
  "\<forall>(i, f) \<in> set es. f \<noteq> [] \<Longrightarrow> es \<noteq> [] \<or> sel \<noteq> None \<Longrightarrow>
   \<exists>i x. evict_scan es m sel = (m, Some (i, x))
     \<and> (sel = Some (i, x) \<or> (\<exists>f. (i, f) \<in> set es \<and> x = last f))
     \<and> (\<forall>(j, f) \<in> set es. x \<le> last f) \<and> (\<forall>j y. sel = Some (j, y) \<longrightarrow> x \<le> y)"
proof (induction es arbitrary: sel)
  case (Cons e es)
  obtain j f where e: "e = (j, f)" "f \<noteq> []" using Cons.prems by (cases e) auto
  define sel' where "sel' = (case sel of None \<Rightarrow> Some (j, last f)
    | Some (k, y) \<Rightarrow> if last f < y then Some (j, last f) else Some (k, y))"
  have "evict_scan (e # es) m sel = evict_scan es m sel'"
    using e by (auto simp: sel'_def Let_def split: option.split)
  moreover have "sel' \<noteq> None" by (auto simp: sel'_def split: option.split)
  then obtain i x where ix: "evict_scan es m sel' = (m, Some (i, x))"
    "sel' = Some (i, x) \<or> (\<exists>f. (i, f) \<in> set es \<and> x = last f)"
    "\<forall>(j, f) \<in> set es. x \<le> last f" "\<forall>j y. sel' = Some (j, y) \<longrightarrow> x \<le> y"
    using Cons.IH [of sel'] Cons.prems by auto
  moreover have "sel = Some (i, x) \<or> (\<exists>f. (i, f) \<in> set (e # es) \<and> x = last f)"
    using ix(2) e by (auto simp: sel'_def split: option.splits if_splits)
  moreover have "x \<le> last f" "\<forall>j y. sel = Some (j, y) \<longrightarrow> x \<le> y"
    using ix(4) by (fastforce simp: sel'_def split: option.splits if_splits)+
  ultimately show ?case using e by auto
qed auto

lemma evict_spec:
  assumes "map_ok now m" and "m \<noteq> []" and "reorders iter"
  shows "\<exists>i fs. gm_get m i = Some fs \<and> (\<forall>j gs. gm_get m j = Some gs \<longrightarrow> last fs \<le> last gs)
    \<and> evictOldestLocked iter m = gm_del i m"
proof -
  have set: "set (iter m) = set m" using assms(3) by (metis mset_eq_setD reorders_def)
  have gm: "gm_ok m" and ne: "\<forall>(i, f) \<in> set (iter m). f \<noteq> []"
    using assms(1) gm_get_in_set by (fastforce simp: map_ok_def set)+
  have "iter m \<noteq> []" using set assms(2) by auto
  then obtain i x where s: "evict_scan (iter m) m None = (m, Some (i, x))"
    "\<exists>f. (i, f) \<in> set (iter m) \<and> x = last f" "\<forall>(j, f) \<in> set (iter m). x \<le> last f"
    using evict_scan_spec [OF ne, of None m] by auto
  then obtain fs where "gm_get m i = Some fs" "x = last fs" using gm_get_in_set [OF gm] set by auto
  moreover have "\<forall>j gs. gm_get m j = Some gs \<longrightarrow> x \<le> last gs"
    using s(3) gm_get_in_set [OF gm] set by auto
  ultimately show ?thesis using s(1) by (auto simp: evictOldestLocked_def)
qed

section \<open>The operations\<close>

definition make_room :: "(failure_map \<Rightarrow> failure_map) \<Rightarrow> ip \<Rightarrow> gotime \<Rightarrow> failure_map \<Rightarrow> failure_map" where
  "make_room iter ip now m =
    (if gm_get m ip = None \<and> RateLimitMaxIPs \<le> length m then
       if RateLimitMaxIPs \<le> length (sweepExpiredLocked now m)
       then evictOldestLocked iter (sweepExpiredLocked now m) else sweepExpiredLocked now m
     else m)"

lemma record_failure_eq:
  "au_failures (RateLimitRecordFailure iter ip now a) =
    (case pruneLocked ip now (au_failures a) of (fails, m) \<Rightarrow>
       gm_put ip (fails @ [now]) (make_room iter ip now m))"
  by (simp add: RateLimitRecordFailure_def make_room_def Let_def split: prod.split)

lemma make_room_ok:
  assumes "map_ok now m" and "reorders iter"
  shows "map_ok now (make_room iter ip now m)
    \<and> (gm_get (make_room iter ip now m) ip = None \<longrightarrow> length (make_room iter ip now m) < RateLimitMaxIPs)"
proof (cases "gm_get m ip = None \<and> RateLimitMaxIPs \<le> length m")
  case True
  let ?s = "sweepExpiredLocked now m"
  have s: "map_ok now ?s" using assms(1) by (rule sweep_ok)
  show ?thesis
  proof (cases "RateLimitMaxIPs \<le> length ?s")
    case full: True
    then have "?s \<noteq> []" by (auto simp: RateLimitMaxIPs_def)
    from evict_spec [OF s this assms(2)] obtain i fs
      where i: "gm_get ?s i = Some fs" "evictOldestLocked iter ?s = gm_del i ?s" by blast
    then have "length (gm_del i ?s) < length ?s" "length ?s \<le> RateLimitMaxIPs"
      using s gm.len_del_less [of ?s i] by (auto simp: map_ok_def)
    then show ?thesis using True full i map_ok_del [OF s, of i] by (simp add: make_room_def)
  qed (use True s in \<open>simp add: make_room_def\<close>)
qed (use assms in \<open>auto simp: make_room_def\<close>)

lemma make_room_keeps:
  assumes "map_ok now m" and "now \<le> t"
    and "gm_get m ip \<noteq> None \<or> card {j. recent_fails m j now \<noteq> []} < RateLimitMaxIPs"
  shows "recent_fails (make_room iter ip now m) j t = recent_fails m j t"
  using assms sweep_recent [OF assms(1,2)] sweep_length [OF assms(1)] by (auto simp: make_room_def)

definition limiter_ok :: "gotime \<Rightarrow> auth \<Rightarrow> bool" where
  "limiter_ok now a \<longleftrightarrow> map_ok now (au_failures a)"

definition recent_failures :: "auth \<Rightarrow> ip \<Rightarrow> gotime \<Rightarrow> gotime list" where
  "recent_failures a ip t = recent_fails (au_failures a) ip t"

lemma check_eq:
  "RateLimitCheck ip now a =
    ((let fails = fst (pruneLocked ip now (au_failures a)) in
      if RateLimitCapacity \<le> length fails
      then (False, max 0 (RateLimitWindow - time_sub now (hd fails))) else (True, 0)),
     a\<lparr>au_failures := snd (pruneLocked ip now (au_failures a))\<rparr>)"
  by (auto simp: RateLimitCheck_def Let_def split: prod.splits)

lemma prune_fst: "map_ok now m \<Longrightarrow> fst (pruneLocked ip now m) = recent_fails m ip now"
  using prune_spec by (metis prod.collapse)

lemma prune_ok: "map_ok now m \<Longrightarrow> map_ok now (snd (pruneLocked ip now m))"
  using prune_spec by (metis prod.collapse)

lemma limiter_ok_later: "limiter_ok now a \<Longrightarrow> now \<le> t \<Longrightarrow> limiter_ok t a"
  by (fastforce simp: limiter_ok_def map_ok_def)

lemma check_keeps_ok: "limiter_ok now a \<Longrightarrow> limiter_ok now (snd (RateLimitCheck ip now a))"
  by (simp add: limiter_ok_def check_eq prune_ok)

lemma success_keeps_ok: "limiter_ok now a \<Longrightarrow> limiter_ok now (RateLimitRecordSuccess ip a)"
  by (simp add: limiter_ok_def RateLimitRecordSuccess_def map_ok_del)

lemma failure_keeps_ok:
  assumes "limiter_ok now a" and "reorders iter"
  shows "limiter_ok now (RateLimitRecordFailure iter ip now a)"
proof -
  obtain fails m where p: "pruneLocked ip now (au_failures a) = (fails, m)" by fastforce
  have ok: "map_ok now (au_failures a)" using assms(1) by (simp add: limiter_ok_def)
  have fails: "fails = recent_fails (au_failures a) ip now" and m: "map_ok now m"
    using prune_spec [OF ok p] by auto
  have "sorted (fails @ [now])"
    using map_ok_fails [OF ok, of ip] by (auto simp: fails recent_fails_def sorted_append sorted_filter_le)
  then have "map_ok now (gm_put ip (fails @ [now]) (make_room iter ip now m))"
    using make_room_ok [OF m assms(2), of ip] by (intro map_ok_put) auto
  then show ?thesis by (simp add: limiter_ok_def record_failure_eq p)
qed

lemma failure_recent:
  assumes "limiter_ok now a" and le: "now \<le> t"
    and room: "recent_failures a ip now \<noteq> [] \<or> card {j. recent_failures a j now \<noteq> []} < RateLimitMaxIPs"
  shows "recent_failures (RateLimitRecordFailure iter ip now a) j t =
    (if j = ip then filter (\<lambda>x. t - RateLimitWindow < x) (recent_failures a ip now @ [now]) else recent_failures a j t)"
proof -
  obtain fails m where p: "pruneLocked ip now (au_failures a) = (fails, m)" by fastforce
  have ok: "map_ok now (au_failures a)" using assms(1) by (simp add: limiter_ok_def)
  have fails: "fails = recent_fails (au_failures a) ip now" and m: "map_ok now m"
    and none: "gm_get m ip = None \<longleftrightarrow> fails = []"
    using prune_spec [OF ok p] by auto
  have keep: "recent_fails m j t = recent_fails (au_failures a) j t" if "now \<le> t" for j t
    using prune_recent [OF ok that, of ip j] p by simp
  then have "gm_get m ip \<noteq> None \<or> card {j. recent_fails m j now \<noteq> []} < RateLimitMaxIPs"
    using room none fails by (auto simp: recent_failures_def)
  note make_room_keeps [OF m le this, of iter j]
  then show ?thesis
    using keep [OF le, of j] fails
    by (simp add: recent_failures_def record_failure_eq p recent_fails_def)
qed

lemma check_recent:
  "limiter_ok now a \<Longrightarrow> now \<le> t \<Longrightarrow> recent_failures (snd (RateLimitCheck ip now a)) j t = recent_failures a j t"
  by (simp add: limiter_ok_def recent_failures_def check_eq prune_recent)

lemma check_verdict:
  "limiter_ok now a \<Longrightarrow>
   fst (fst (RateLimitCheck ip now a)) \<longleftrightarrow> length (recent_failures a ip now) < RateLimitCapacity"
  by (simp add: check_eq prune_fst limiter_ok_def recent_failures_def Let_def)

lemma success_recent:
  "recent_failures (RateLimitRecordSuccess ip a) j t = (if j = ip then [] else recent_failures a j t)"
  by (simp add: RateLimitRecordSuccess_def recent_failures_def recent_fails_def)

lemma limiter_contract:
  assumes "reorders iter"
  shows "login_limiter RateLimitCheck (RateLimitRecordFailure iter) RateLimitRecordSuccess recent_failures limiter_ok"
proof unfold_locales
qed (rule check_verdict check_recent failure_recent success_recent check_keeps_ok
      failure_keeps_ok [OF _ assms] success_keeps_ok limiter_ok_later; assumption)+

interpretation rl: login_limiter RateLimitCheck "RateLimitRecordFailure rev" RateLimitRecordSuccess
  recent_failures limiter_ok
  by (rule limiter_contract) (simp add: reorders_def)

section \<open>Properties\<close>

lemma new_limiter_ok: "limiter_ok now (newAuth cfg)"
  by (simp add: limiter_ok_def newAuth_def map_ok_def)

lemma new_recent: "recent_failures (newAuth cfg) ip t = []"
  by (simp add: recent_failures_def newAuth_def recent_fails_def fails_of_def)

text \<open>
  C13. Check, record-failure and record-success keep the limiter well formed: distinct
  addresses, at most 10000 of them, each with a non-empty list of failures in time order; for
  every iteration order of the map.
\<close>

theorem limiter_memory_bound:
  assumes "limiter_ok now a" and "reorders iter"
  shows "limiter_ok now (snd (RateLimitCheck ip now a))
    \<and> limiter_ok now (RateLimitRecordFailure iter ip now a)
    \<and> limiter_ok now (RateLimitRecordSuccess ip a)
    \<and> length (au_failures (RateLimitRecordFailure iter ip now a)) \<le> 10000"
  using failure_keeps_ok [OF assms, of ip] check_keeps_ok [OF assms(1)] success_keeps_ok [OF assms(1)]
  by (auto simp: limiter_ok_def map_ok_def RateLimitMaxIPs_def)

lemma wrong_guesses_bounded:
  assumes "reorders iter" and "sorted (map snd attempts)" and "within_capacity attempts"
  shows "length (in_window t ip (snd (guess_run RateLimitCheck (RateLimitRecordFailure iter) attempts (newAuth cfg)))) \<le> 5"
proof (cases "attempts = []")
  case True
  then show ?thesis by (simp add: guess_run_def in_window_def)
next
  case False
  let ?t0 = "snd (hd attempts)"
  have "\<forall>(i, x) \<in> set attempts. ?t0 \<le> x"
    using assms(2) False by (cases attempts) auto
  then show ?thesis
    using login_limiter.guesses_bounded [OF limiter_contract [OF assms(1)] assms(2,3), of ?t0 "newAuth cfg" t ip]
    by (simp add: new_limiter_ok new_recent RateLimitCapacity_def)
qed

theorem five_failures_per_window:
  assumes "reorders iter" and "sorted (map snd attempts)" and "within_capacity attempts"
  shows "length (in_window t ip (snd (guess_run RateLimitCheck (RateLimitRecordFailure iter) attempts (newAuth cfg)))) \<le> 5"
  using assms by (rule wrong_guesses_bounded)

lemma refused_until:
  assumes ok: "limiter_ok now a" and refused: "RateLimitCheck ip now a = ((False, wait), a')"
    and five: "length (recent_failures a ip now) = 5" and le: "now \<le> t"
  shows "0 < wait \<and> wait \<le> RateLimitWindow \<and> (fst (fst (RateLimitCheck ip t a')) \<longleftrightarrow> now + wait \<le> t)"
proof -
  let ?r = "recent_failures a ip now"
  obtain x xs where r: "?r = x # xs" using five by (cases ?r) auto
  have fails: "sorted ?r" "\<forall>y \<in> set ?r. now - RateLimitWindow < y \<and> y \<le> now"
    using map_ok_fails [of now "au_failures a" ip] ok
    by (auto simp: limiter_ok_def recent_failures_def recent_fails_def sorted_filter_le)
  then have x: "now - RateLimitWindow < x" "x \<le> now" "\<forall>y \<in> set ?r. x \<le> y"
    using r by auto
  then have "\<bar>now - x\<bar> < 2 ^ 63" by (simp add: time_units)
  then have wait: "wait = RateLimitWindow - (now - x)"
    using refused r ok x by (auto simp: check_eq prune_fst limiter_ok_def recent_failures_def Let_def
        time_sub_small split: if_splits)
  have a': "a' = snd (RateLimitCheck ip now a)" using refused by simp
  have ok': "limiter_ok t a'" unfolding a' using check_keeps_ok [OF ok] limiter_ok_later le by blast
  have "recent_failures a' ip t = filter (\<lambda>y. t - RateLimitWindow < y) ?r"
    using check_recent [OF ok le, of ip ip] recent_fails_later [OF le]
    by (simp add: a' recent_failures_def)
  moreover have "length (filter (\<lambda>y. t - RateLimitWindow < y) ?r) < 5 \<longleftrightarrow> \<not> t - RateLimitWindow < x"
  proof (cases "t - RateLimitWindow < x")
    case True
    then have "filter (\<lambda>y. t - RateLimitWindow < y) ?r = ?r" using x(3) by (intro filter_True) auto
    with five True show ?thesis by simp
  next
    case False
    then have "length (filter (\<lambda>y. t - RateLimitWindow < y) ?r) < length ?r"
      using r by (simp add: length_filter_le le_imp_less_Suc)
    with five False show ?thesis by simp
  qed
  ultimately show ?thesis
    using check_verdict [OF ok', of ip] wait x by (auto simp: RateLimitCapacity_def)
qed

theorem retry_after_exact:
  assumes ok: "limiter_ok now a" and refused: "RateLimitCheck ip now a = ((False, wait), a')"
    and five: "length (recent_failures a ip now) = 5" and le: "now \<le> t"
  shows "0 < wait \<and> wait \<le> RateLimitWindow \<and> (fst (fst (RateLimitCheck ip t a')) \<longleftrightarrow> now + wait \<le> t)"
  using assms by (rule refused_until)

lemma make_room_evicts:
  assumes m: "map_ok now m" and "reorders iter" and full: "length m = RateLimitMaxIPs"
    and live: "\<forall>j gs. gm_get m j = Some gs \<longrightarrow> now - RateLimitWindow < last gs"
    and ip: "gm_get m ip = Some fs" "\<forall>j gs. j \<noteq> ip \<longrightarrow> gm_get m j = Some gs \<longrightarrow> last fs < last gs"
    and other: "gm_get m other = None"
  shows "make_room iter other now m = gm_del ip m"
proof -
  have "sweepExpiredLocked now m = m"
    unfolding sweepExpiredLocked_def Let_def
  proof (rule filter_True, clarify)
    fix j gs assume "(j, gs) \<in> set m" and bad: "gs = [] \<or> \<not> now - RateLimitWindow < last gs"
    then have "gm_get m j = Some gs" using m by (simp add: map_ok_def gm_get_in_set)
    then show False using bad live m by (auto simp: map_ok_def)
  qed
  moreover have "m \<noteq> []" using full by (auto simp: RateLimitMaxIPs_def)
  then obtain i gs where i: "gm_get m i = Some gs" "\<forall>j hs. gm_get m j = Some hs \<longrightarrow> last gs \<le> last hs"
    "evictOldestLocked iter m = gm_del i m"
    using evict_spec [OF m _ assms(2)] by blast
  have "i = ip"
  proof (rule ccontr)
    assume "i \<noteq> ip"
    then have "last fs < last gs" using ip(2) i(1) by blast
    moreover have "last gs \<le> last fs" using i(2) ip(1) by blast
    ultimately show False by simp
  qed
  ultimately show ?thesis using i other full by (simp add: make_room_def)
qed

text \<open>
  C39. When the table holds 10000 addresses with live failures, one failure from a new address
  evicts the address whose newest failure is oldest, so that a blocked address is admitted again
  at once.
\<close>

theorem full_table_unblocks_oldest:
  assumes ok: "limiter_ok now a" and "reorders iter" and "length (au_failures a) = 10000"
    and "\<forall>j gs. gm_get (au_failures a) j = Some gs \<longrightarrow> now - RateLimitWindow < last gs"
    and "gm_get (au_failures a) ip = Some fs"
    and "\<forall>j gs. j \<noteq> ip \<longrightarrow> gm_get (au_failures a) j = Some gs \<longrightarrow> last fs < last gs"
    and other: "gm_get (au_failures a) other = None"
  shows "fst (fst (RateLimitCheck ip now (RateLimitRecordFailure iter other now a)))"
proof -
  let ?a' = "RateLimitRecordFailure iter other now a"
  have m: "map_ok now (au_failures a)" using ok by (simp add: limiter_ok_def)
  have "pruneLocked other now (au_failures a) = ([], au_failures a)"
    using other by (simp add: pruneLocked_def fails_of_def)
  moreover have "make_room iter other now (au_failures a) = gm_del ip (au_failures a)"
    using assms(3-7) by (intro make_room_evicts [OF m assms(2)]) (auto simp: RateLimitMaxIPs_def)
  ultimately have "au_failures ?a' = gm_put other [now] (gm_del ip (au_failures a))"
    by (simp add: record_failure_eq)
  moreover have "other \<noteq> ip" using assms(5) other by auto
  ultimately have "recent_failures ?a' ip now = []"
    by (simp add: recent_failures_def recent_fails_def)
  then show ?thesis
    using check_verdict [OF failure_keeps_ok [OF ok assms(2)], of ip] by (simp add: RateLimitCapacity_def)
qed

text \<open>A full table: one address with five failures, and ten thousand minus one later ones.\<close>

definition full_table :: failure_map where
  "full_table = (''attacker'', replicate 5 0) # map (\<lambda>i. (itoa (int i), [1])) [0..<9999]"

lemma atoi_itoa_nat: "n < 9999 \<Longrightarrow> atoi (itoa (int n)) = Some (int n)"
  by (rule atoi_itoa) simp_all

lemma itoa_inj: "inj_on (\<lambda>i. itoa (int i)) {0..<9999}"
  by (rule inj_on_inverseI [of _ "\<lambda>s. nat (the (atoi s))"]) (simp add: atoi_itoa_nat)

lemma itoa_not_attacker: "n < 9999 \<Longrightarrow> itoa (int n) \<noteq> ''attacker''"
proof
  assume n: "n < 9999" and "itoa (int n) = ''attacker''"
  then have "atoi ''attacker'' = Some (int n)" using atoi_itoa_nat [of n] by simp
  then show False by (simp add: atoi_def atoi_digits_def is_digit_def less_eq_char_def)
qed

lemma full_table_ok: "gm_ok full_table \<and> length full_table = 10000"
proof -
  have "''attacker'' \<notin> (\<lambda>i. itoa (int i)) ` {0..<9999}"
    using itoa_not_attacker by force
  then show ?thesis
    using itoa_inj by (simp add: full_table_def gm_ok_def distinct_map comp_def del: upt_Suc)
qed

lemma full_table_get:
  "gm_get full_table j = Some gs \<longleftrightarrow>
    j = ''attacker'' \<and> gs = replicate 5 0 \<or> j \<noteq> ''attacker'' \<and> (\<exists>i < 9999. j = itoa (int i)) \<and> gs = [1]"
  using itoa_not_attacker full_table_ok
  by (auto simp: full_table_def gm_get_in_set gm_ok_def simp del: map_of.simps)

section \<open>Concrete runs\<close>

definition sample_auth :: auth where
  "sample_auth = \<lparr>au_token = bytes_of ''0123456789abcdef'', au_secret = bytes_of ''fedcba9876543210'',
     au_failures = []\<rparr>"

definition full_auth :: auth where
  "full_auth = sample_auth\<lparr>au_failures := full_table\<rparr>"

lemma full_auth_ok: "limiter_ok 1 full_auth"
  using full_table_ok
  by (auto simp: limiter_ok_def full_auth_def map_ok_def RateLimitMaxIPs_def full_table_get)

lemma full_table_unblocks_oldest_witness:
  "fst (fst (RateLimitCheck ''attacker'' 1 full_auth)) = False
   \<and> fst (fst (RateLimitCheck ''attacker'' 1 (RateLimitRecordFailure rev ''newcomer'' 1 full_auth)))"
proof
  have "recent_failures full_auth ''attacker'' 1 = replicate 5 0"
    by (simp add: full_auth_def recent_failures_def recent_fails_def fails_of_def full_table_def time_units)
  then show "fst (fst (RateLimitCheck ''attacker'' 1 full_auth)) = False"
    using check_verdict [OF full_auth_ok, of "''attacker''"] by (simp add: RateLimitCapacity_def)
  have fresh: "gm_get full_table ''newcomer'' = None"
  proof (rule ccontr)
    assume "gm_get full_table ''newcomer'' \<noteq> None"
    then obtain i where i: "i < 9999" "''newcomer'' = itoa (int i)"
      by (auto simp: full_table_get)
    then have "atoi ''newcomer'' = Some (int i)" using atoi_itoa_nat [of i] by simp
    then show False by (simp add: atoi_def atoi_digits_def is_digit_def less_eq_char_def)
  qed
  show "fst (fst (RateLimitCheck ''attacker'' 1 (RateLimitRecordFailure rev ''newcomer'' 1 full_auth)))"
  proof (rule full_table_unblocks_oldest [OF full_auth_ok])
    show "reorders rev" by (simp add: reorders_def)
    show "gm_get (au_failures full_auth) ''attacker'' = Some (replicate 5 0)"
      by (simp add: full_auth_def full_table_def)
  qed (use full_table_ok fresh in \<open>auto simp: full_auth_def full_table_get time_units\<close>)
qed

definition six_attempts :: "(ip \<times> gotime) list" where
  "six_attempts = map (\<lambda>k. (''10.0.0.7'', k * Second)) [0, 1, 2, 3, 4, 5]"

lemma five_failures_per_window_witness:
  "length (in_window (5 * Second) ''10.0.0.7''
     (snd (guess_run RateLimitCheck (RateLimitRecordFailure rev) six_attempts
        (newAuth \<lparr>AuthToken = ''t'', SessionSecret = ''s'', PublicHost = ''h'', Port = 1, PortMin = 1, PortMax = 2,
           KillGraceMS = 1, ScannerName = ''auto'', StateDir = ''d'', TrustXFF = False\<rparr>)))) \<le> 5"
proof (rule five_failures_per_window)
  show "within_capacity six_attempts"
    by (simp add: within_capacity_def six_attempts_def window_ips_def RateLimitMaxIPs_def time_units)
qed (simp_all add: reorders_def six_attempts_def time_units)

definition five_failures :: auth where
  "five_failures = sample_auth\<lparr>au_failures := [(''10.0.0.7'', [0, 1, 2, 3, 4])]\<rparr>"

lemma five_failures_ok: "limiter_ok 4 five_failures"
  by (simp add: limiter_ok_def five_failures_def map_ok_def RateLimitMaxIPs_def gm_ok_def)

lemma five_failures_refused:
  "RateLimitCheck ''10.0.0.7'' 4 five_failures = ((False, 15 * Minute - 4), five_failures)"
  by (simp add: RateLimitCheck_def five_failures_def sample_auth_def pruneLocked_def fails_of_def Let_def
      RateLimitCapacity_def time_sub_small time_units)

lemma five_failures_recent: "length (recent_failures five_failures ''10.0.0.7'' 4) = 5"
  by (simp add: recent_failures_def recent_fails_def five_failures_def fails_of_def time_units)

lemma retry_after_exact_witness:
  "0 < 15 * Minute - 4 \<and> 15 * Minute - 4 \<le> RateLimitWindow
   \<and> (fst (fst (RateLimitCheck ''10.0.0.7'' (15 * Minute - 1) five_failures)) \<longleftrightarrow> 4 + (15 * Minute - 4) \<le> 15 * Minute - 1)"
  by (rule retry_after_exact [OF five_failures_ok five_failures_refused five_failures_recent])
     (simp add: time_units)

lemma limiter_memory_bound_witness:
  "limiter_ok 4 (snd (RateLimitCheck ''10.0.0.7'' 4 five_failures))
    \<and> limiter_ok 4 (RateLimitRecordFailure rev ''10.0.0.7'' 4 five_failures)
    \<and> limiter_ok 4 (RateLimitRecordSuccess ''10.0.0.7'' five_failures)
    \<and> length (au_failures (RateLimitRecordFailure rev ''10.0.0.7'' 4 five_failures)) \<le> 10000"
  by (rule limiter_memory_bound [OF five_failures_ok]) (simp add: reorders_def)

lemma cookie_lifetime_witness:
  "VerifyCookie sample_auth (1700000000 * Second + 5) (IssueCookie sample_auth (1700000000 * Second)) \<longleftrightarrow>
    stamp_time (1700000000 * Second) \<le> 1700000000 * Second + 5
    \<and> 1700000000 * Second + 5 < stamp_time (1700000000 * Second) + 24 * Hour"
  by (rule cookie_lifetime) (simp_all add: time_units)

lemma cookie_unforgeable_witness:
  "\<exists>stamp. length stamp = 8
    \<and> b64_decode (IssueCookie sample_auth 0) = Some (stamp @ hmac_sha256 (au_secret sample_auth) stamp)
    \<and> time_of_unix (uint64_be stamp) \<le> 5 \<and> 5 < time_of_unix (uint64_be stamp) + 24 * Hour"
  by (rule cookie_unforgeable)
     (simp add: VerifyCookie_iff IssueCookie_def Let_def b64_roundtrip append_eq_append_conv uint64_be_be64
       time_of_unix_seconds CookieTTL_def time_units)

lemma cookie_secret_rotation_witness:
  "hmac_sha256 (au_secret (sample_auth\<lparr>au_token := []\<rparr>)) (be64 (unix_seconds 0))
   = hmac_sha256 (au_secret sample_auth) (be64 (unix_seconds 0))"
  by (rule cookie_secret_rotation [of _ 5])
     (simp add: VerifyCookie_iff IssueCookie_def Let_def b64_roundtrip append_eq_append_conv uint64_be_be64
       time_of_unix_seconds CookieTTL_def time_units)

end
