(* ===== verification/Ulid.thy ===== *)
theory Ulid
  imports Crypto
begin

text \<open>
  \<^verbatim>\<open>newULID\<close> of \<^verbatim>\<open>internal/store/store.go\<close>: a 48-bit millisecond time stamp and 80 random
  bits in 26 characters of Crockford's base 32. The random bytes (or the failure to read them)
  are an argument.
\<close>

unbundle bit_operations_syntax

definition crockford :: string where "crockford = ''0123456789ABCDEFGHJKMNPQRSTVWXYZ''"

definition ulid_raw :: "gotime \<Rightarrow> byte list \<Rightarrow> byte list" where
  "ulid_raw ts rnd =
    (let ms = word_of_int (ts div 1000000) :: 64 word in
     [ucast (drop_bit 40 ms), ucast (drop_bit 32 ms), ucast (drop_bit 24 ms),
      ucast (drop_bit 16 ms), ucast (drop_bit 8 ms), ucast ms] @ take 10 rnd)"

definition ulid_digits :: "byte list \<Rightarrow> byte list" where
  "ulid_digits raw =
   [drop_bit 5 (raw ! 0 AND 0xE0), raw ! 0 AND 0x1F,
    drop_bit 3 (raw ! 1 AND 0xF8), push_bit 2 (raw ! 1 AND 0x07) OR drop_bit 6 (raw ! 2 AND 0xC0),
    drop_bit 1 (raw ! 2 AND 0x3E), push_bit 4 (raw ! 2 AND 0x01) OR drop_bit 4 (raw ! 3 AND 0xF0),
    push_bit 1 (raw ! 3 AND 0x0F) OR drop_bit 7 (raw ! 4 AND 0x80), drop_bit 2 (raw ! 4 AND 0x7C),
    push_bit 3 (raw ! 4 AND 0x03) OR drop_bit 5 (raw ! 5 AND 0xE0), raw ! 5 AND 0x1F,
    drop_bit 3 (raw ! 6 AND 0xF8), push_bit 2 (raw ! 6 AND 0x07) OR drop_bit 6 (raw ! 7 AND 0xC0),
    drop_bit 1 (raw ! 7 AND 0x3E), push_bit 4 (raw ! 7 AND 0x01) OR drop_bit 4 (raw ! 8 AND 0xF0),
    push_bit 1 (raw ! 8 AND 0x0F) OR drop_bit 7 (raw ! 9 AND 0x80), drop_bit 2 (raw ! 9 AND 0x7C),
    push_bit 3 (raw ! 9 AND 0x03) OR drop_bit 5 (raw ! 10 AND 0xE0), raw ! 10 AND 0x1F,
    drop_bit 3 (raw ! 11 AND 0xF8), push_bit 2 (raw ! 11 AND 0x07) OR drop_bit 6 (raw ! 12 AND 0xC0),
    drop_bit 1 (raw ! 12 AND 0x3E), push_bit 4 (raw ! 12 AND 0x01) OR drop_bit 4 (raw ! 13 AND 0xF0),
    push_bit 1 (raw ! 13 AND 0x0F) OR drop_bit 7 (raw ! 14 AND 0x80), drop_bit 2 (raw ! 14 AND 0x7C),
    push_bit 3 (raw ! 14 AND 0x03) OR drop_bit 5 (raw ! 15 AND 0xE0), raw ! 15 AND 0x1F]"

definition newULID :: "gotime \<Rightarrow> byte list option \<Rightarrow> string option" where
  "newULID ts rnd =
    (case rnd of
       None \<Rightarrow> None
     | Some r \<Rightarrow> Some (map (\<lambda>d. crockford ! unat d) (ulid_digits (ulid_raw ts r))))"

section \<open>The digits as base-32 digits of the 128-bit number\<close>

lemma byte_bound: "unat (b::byte) < 256"
  using unsigned_less [of b, where ?'a = nat] by simp

lemma byte_masks:
  "(b::byte) AND 1 = take_bit 1 b" "b AND 3 = take_bit 2 b" "b AND 7 = take_bit 3 b"
  "b AND 15 = take_bit 4 b" "b AND 31 = take_bit 5 b"
  by (simp_all add: take_bit_eq_mask mask_numeral)

lemma mod_div_swap: "x div 2 mod 32 = x mod 64 div (2::nat)" "x div 4 mod 32 = x mod 128 div (4::nat)"
  using drop_bit_take_bit [of 1 6 x] drop_bit_take_bit [of 2 7 x]
  by (simp_all add: take_bit_eq_mod drop_bit_eq_div)

lemma scaled_mod: "x mod 8 * 4 mod 256 = x mod 8 * (4::nat)" "x mod 2 * 16 mod 256 = x mod 2 * (16::nat)"
  "x mod 16 * 2 mod 256 = x mod 16 * (2::nat)" "x mod 4 * 8 mod 256 = x mod 4 * (8::nat)"
  using mod_less_divisor [of 8 x] mod_less_divisor [of 2 x] mod_less_divisor [of 16 x] mod_less_divisor [of 4 x]
  by (intro mod_less; linarith)+

text \<open>The value of each masked and shifted byte.\<close>

lemma unat_parts:
  fixes b :: byte
  shows "unat (drop_bit 5 (b AND 0xE0)) = unat b div 32"
    and "unat (b AND 0x1F) = unat b mod 32"
    and "unat (drop_bit 3 (b AND 0xF8)) = unat b div 8"
    and "unat (drop_bit 1 (b AND 0x3E)) = unat b mod 64 div 2"
    and "unat (drop_bit 2 (b AND 0x7C)) = unat b mod 128 div 4"
    and "unat (drop_bit 6 (b AND 0xC0)) = unat b div 64"
    and "unat (drop_bit 4 (b AND 0xF0)) = unat b div 16"
    and "unat (drop_bit 7 (b AND 0x80)) = unat b div 128"
    and "unat (push_bit 2 (b AND 0x07)) = unat b mod 8 * 2 ^ 2"
    and "unat (push_bit 4 (b AND 0x01)) = unat b mod 2 * 2 ^ 4"
    and "unat (push_bit 1 (b AND 0x0F)) = unat b mod 16 * 2 ^ 1"
    and "unat (push_bit 3 (b AND 0x03)) = unat b mod 4 * 2 ^ 3"
  using byte_bound [of b]
  apply (simp_all add: byte_masks)
  apply (simp_all only: unsigned_take_bit_eq unat_drop_bit_eq unsigned_push_bit_eq push_bit_eq_mult)
  apply (simp_all add: take_bit_eq_mod drop_bit_eq_div unat_mod unat_div unat_word_ariths
      mod_div_swap scaled_mod)
  done

lemma or_plus_nat: "b < 2 ^ k \<Longrightarrow> a * 2 ^ k OR b = a * 2 ^ k + (b::nat)"
proof -
  assume b: "b < 2 ^ k"
  have "push_bit k a AND take_bit k b = 0"
    by (rule bit_eqI) (simp add: bit_simps)
  moreover have "take_bit k b = b" using b by (rule take_bit_nat_eq_self)
  ultimately have "push_bit k a AND b = 0" by simp
  then show ?thesis by (simp add: disjunctive_add_eq_or push_bit_eq_mult)
qed

lemma unat_or_parts: "unat p = A * 2 ^ k \<Longrightarrow> unat q < 2 ^ k \<Longrightarrow> unat (p OR q :: byte) = A * 2 ^ k + unat q"
  by (simp add: unsigned_or_eq or_plus_nat)

lemma unat_joins:
  fixes b c :: byte
  shows "unat (push_bit 2 (b AND 0x07) OR drop_bit 6 (c AND 0xC0)) = unat b mod 8 * 4 + unat c div 64"
    and "unat (push_bit 4 (b AND 0x01) OR drop_bit 4 (c AND 0xF0)) = unat b mod 2 * 16 + unat c div 16"
    and "unat (push_bit 1 (b AND 0x0F) OR drop_bit 7 (c AND 0x80)) = unat b mod 16 * 2 + unat c div 128"
    and "unat (push_bit 3 (b AND 0x03) OR drop_bit 5 (c AND 0xE0)) = unat b mod 4 * 8 + unat c div 32"
proof -
  have c: "unat c div 64 < 4" "unat c div 16 < 16" "unat c div 128 < 2" "unat c div 32 < 8"
    using byte_bound [of c] by simp_all
  show "unat (push_bit 2 (b AND 0x07) OR drop_bit 6 (c AND 0xC0)) = unat b mod 8 * 4 + unat c div 64"
    using unat_or_parts [OF unat_parts(9), of "drop_bit 6 (c AND 0xC0)"] c by (simp only: unat_parts) simp
  show "unat (push_bit 4 (b AND 0x01) OR drop_bit 4 (c AND 0xF0)) = unat b mod 2 * 16 + unat c div 16"
    using unat_or_parts [OF unat_parts(10), of "drop_bit 4 (c AND 0xF0)"] c by (simp only: unat_parts) simp
  show "unat (push_bit 1 (b AND 0x0F) OR drop_bit 7 (c AND 0x80)) = unat b mod 16 * 2 + unat c div 128"
    using unat_or_parts [OF unat_parts(11), of "drop_bit 7 (c AND 0x80)"] c by (simp only: unat_parts) simp
  show "unat (push_bit 3 (b AND 0x03) OR drop_bit 5 (c AND 0xE0)) = unat b mod 4 * 8 + unat c div 32"
    using unat_or_parts [OF unat_parts(12), of "drop_bit 5 (c AND 0xE0)"] c by (simp only: unat_parts) simp
qed

definition digits_number :: "nat \<Rightarrow> nat list \<Rightarrow> nat" where
  "digits_number base = foldl (\<lambda>n d. n * base + d) 0"

text \<open>Five bytes are eight base-32 digits.\<close>

definition five_bytes :: "nat \<Rightarrow> nat \<Rightarrow> nat \<Rightarrow> nat \<Rightarrow> nat \<Rightarrow> nat list" where
  "five_bytes a b c d e = [a div 8, a mod 8 * 4 + b div 64, b mod 64 div 2, b mod 2 * 16 + c div 16,
     c mod 16 * 2 + d div 128, d mod 128 div 4, d mod 4 * 8 + e div 32, e mod 32]"

lemma regroup_bits:
  "((((((((acc * 32 + a1) * 32 + (a2 * 4 + b1)) * 32 + b2) * 32 + (b3 * 16 + c1)) * 32
      + (c2 * 2 + d1)) * 32 + d2) * 32 + (d3 * 8 + e1)) * 32 + e2)
   = ((((acc * 256 + (a1 * 8 + a2)) * 256 + (b1 * 64 + b2 * 2 + b3)) * 256 + (c1 * 16 + c2)) * 256
      + (d1 * 128 + d2 * 4 + d3)) * 256 + (e1 * 32 + e2 :: nat)"
  by (simp add: algebra_simps)

lemma five_bytes_number:
  "foldl (\<lambda>n d. n * 32 + d) acc (five_bytes a b c d e) = foldl (\<lambda>n d. n * 256 + d) acc [a, b, c, d, e]"
proof -
  have a: "a = a div 8 * 8 + a mod 8" by simp
  have "b mod 64 mod 2 = b mod 2" by (simp add: mod_mod_cancel)
  then have b: "b = b div 64 * 64 + b mod 64 div 2 * 2 + b mod 2"
    using div_mult_mod_eq [of b 64] div_mult_mod_eq [of "b mod 64" 2] by linarith
  have c: "c = c div 16 * 16 + c mod 16" by simp
  have "d mod 128 mod 4 = d mod 4" by (simp add: mod_mod_cancel)
  then have d: "d = d div 128 * 128 + d mod 128 div 4 * 4 + d mod 4"
    using div_mult_mod_eq [of d 128] div_mult_mod_eq [of "d mod 128" 4] by linarith
  have e: "e = e div 32 * 32 + e mod 32" by simp
  show ?thesis
    unfolding five_bytes_def foldl.simps regroup_bits
    by (simp only: a [symmetric] b [symmetric] c [symmetric] d [symmetric] e [symmetric])
qed

lemma ulid_digits_groups:
  assumes "length raw = 16"
  shows "map unat (ulid_digits raw) =
    (let r = map unat raw in [r ! 0 div 32, r ! 0 mod 32]
      @ five_bytes (r ! 1) (r ! 2) (r ! 3) (r ! 4) (r ! 5)
      @ five_bytes (r ! 6) (r ! 7) (r ! 8) (r ! 9) (r ! 10)
      @ five_bytes (r ! 11) (r ! 12) (r ! 13) (r ! 14) (r ! 15))"
  using assms
  by (simp only: ulid_digits_def five_bytes_def Let_def list.map unat_parts unat_joins nth_map
      append.simps)

lemma list16:
  assumes "length raw = 16"
  shows "raw = map ((!) raw) [0, 1, 2, 3, 4, 5, 6, 7, 8, 9, 10, 11, 12, 13, 14, 15]"
proof -
  have "[0..<16] = [0, 1, 2, 3, 4, 5, 6, 7, 8, 9, 10, 11, 12, 13, 14, 15]" by code_simp
  then show ?thesis using assms map_nth [of raw] by simp
qed

theorem ulid_number:
  assumes "length raw = 16"
  shows "digits_number 32 (map unat (ulid_digits raw)) = digits_number 256 (map unat raw)"
proof -
  let ?r = "map unat raw"
  have "length ?r = 16" using assms by simp
  from list16 [OF this] have r: "?r = [?r ! 0] @ [?r ! 1, ?r ! 2, ?r ! 3, ?r ! 4, ?r ! 5]
      @ [?r ! 6, ?r ! 7, ?r ! 8, ?r ! 9, ?r ! 10] @ [?r ! 11, ?r ! 12, ?r ! 13, ?r ! 14, ?r ! 15]"
    by (simp only: list.map append.simps)
  have first: "foldl (\<lambda>n d. n * 32 + d) 0 [?r ! 0 div 32, ?r ! 0 mod 32] = foldl (\<lambda>n d. n * 256 + d) 0 [?r ! 0]"
    by simp
  show ?thesis
    unfolding ulid_digits_groups [OF assms] Let_def digits_number_def
    by (subst (2) r) (simp only: foldl_append first five_bytes_number)
qed

section \<open>Order and uniqueness\<close>

lemma digits_number_append: "foldl (\<lambda>n d. n * b + d) acc xs = acc * b ^ length xs + digits_number b xs"
proof (induction xs arbitrary: acc)
  case (Cons x xs)
  have "digits_number b (x # xs) = x * b ^ length xs + digits_number b xs"
    using Cons.IH [of x] by (simp add: digits_number_def)
  then show ?case using Cons.IH [of "acc * b + x"] by (simp add: algebra_simps)
qed (simp add: digits_number_def)

lemma digits_number_Cons: "digits_number b (x # xs) = x * b ^ length xs + digits_number b xs"
  using digits_number_append [of b x xs] by (simp add: digits_number_def)

lemma digits_number_bound: "\<forall>x \<in> set xs. x < b \<Longrightarrow> digits_number b xs < b ^ length xs"
proof (induction xs)
  case (Cons x xs)
  then have "x * b ^ length xs + digits_number b xs < (x + 1) * b ^ length xs"
    by (simp add: algebra_simps)
  also have "\<dots> \<le> b * b ^ length xs"
    using Cons.prems by (intro mult_le_mono1) simp
  finally show ?case by (simp add: digits_number_Cons)
qed (simp add: digits_number_def)

lemma digits_number_less:
  "length xs = length ys \<Longrightarrow> \<forall>x \<in> set xs. x < b \<Longrightarrow> \<forall>y \<in> set ys. y < b \<Longrightarrow>
   digits_number b xs < digits_number b ys \<longleftrightarrow> xs < ys"
proof (induction xs ys rule: list_induct2)
  case (Cons x xs y ys)
  let ?k = "b ^ length ys"
  have bound: "digits_number b xs < ?k" "digits_number b ys < ?k"
    using Cons.prems Cons.hyps digits_number_bound [of xs b] digits_number_bound [of ys b] by auto
  consider "x < y" | "y < x" | "x = y" by linarith
  then show ?case
  proof cases
    case 1
    then have "(x + 1) * ?k \<le> y * ?k" by (intro mult_le_mono1) simp
    then have "digits_number b (x # xs) < digits_number b (y # ys)"
      using bound Cons.hyps by (simp add: digits_number_Cons)
    with 1 show ?thesis by simp
  next
    case 2
    then have "(y + 1) * ?k \<le> x * ?k" by (intro mult_le_mono1) simp
    then have "\<not> digits_number b (x # xs) < digits_number b (y # ys)"
      using bound Cons.hyps by (simp add: digits_number_Cons)
    with 2 show ?thesis by simp
  next
    case 3
    with Cons show ?thesis by (simp add: digits_number_Cons)
  qed
qed simp

lemma crockford_less: "\<forall>i<32. \<forall>j<32. crockford ! i < crockford ! j \<longleftrightarrow> i < j"
  by code_simp

lemma map_strict_mono_less:
  assumes "\<forall>i<n. \<forall>j<n. (f i < f j) = (i < (j::nat))"
  shows "length xs = length ys \<Longrightarrow> \<forall>x \<in> set xs. x < n \<Longrightarrow> \<forall>y \<in> set ys. y < n \<Longrightarrow>
    map f xs < (map f ys :: 'b::linorder list) \<longleftrightarrow> xs < ys"
proof (induction xs ys rule: list_induct2)
  case (Cons x xs y ys)
  have "f x = f y \<longleftrightarrow> x = y"
    using assms Cons.prems by (metis linorder_less_linear list.set_intros(1) order_less_irrefl)
  with Cons assms show ?case by auto
qed simp

definition ulid_string :: "byte list \<Rightarrow> string" where
  "ulid_string raw = map (\<lambda>d. crockford ! unat d) (ulid_digits raw)"

lemma newULID_string: "newULID ts (Some r) = Some (ulid_string (ulid_raw ts r))"
  by (simp add: newULID_def ulid_string_def)

lemma small_sums:
  "x < 8 \<Longrightarrow> y < 4 \<Longrightarrow> x * 4 + y < (32::nat)" "x < 2 \<Longrightarrow> y < 16 \<Longrightarrow> x * 16 + y < (32::nat)"
  "x < 16 \<Longrightarrow> y < 2 \<Longrightarrow> x * 2 + y < (32::nat)" "x < 4 \<Longrightarrow> y < 8 \<Longrightarrow> x * 8 + y < (32::nat)"
  by linarith+

lemma five_bytes_bound:
  assumes "a < 256" "b < 256" "c < 256" "d < 256" "e < 256"
  shows "\<forall>x \<in> set (five_bytes a b c d e). x < 32"
proof -
  have m: "a mod 8 < 8" "b mod 64 div 2 < 32" "b mod 2 < 2" "c mod 16 < 16" "d mod 128 div 4 < 32"
    "d mod 4 < 4" "e mod 32 < 32"
    by (simp_all add: less_mult_imp_div_less)
  have q: "a div 8 < 32" "b div 64 < 4" "c div 16 < 16" "d div 128 < 2" "e div 32 < 8"
    using assms by simp_all
  show ?thesis unfolding five_bytes_def list.set ball_simps by (intro conjI TrueI small_sums m q)
qed

lemma ulid_digits_bound: "length raw = 16 \<Longrightarrow> \<forall>d \<in> set (map unat (ulid_digits raw)). d < 32"
proof -
  assume len: "length raw = 16"
  have b: "map unat raw ! i < 256" if "i < 16" for i
    using that len byte_bound by simp
  have f: "map unat raw ! 0 div 32 < 32" "map unat raw ! 0 mod 32 < 32"
    using b [of 0] by simp_all
  have g: "\<forall>x \<in> set (five_bytes (map unat raw ! i) (map unat raw ! j) (map unat raw ! k) (map unat raw ! l)
      (map unat raw ! m)). x < 32" if "i < 16" "j < 16" "k < 16" "l < 16" "m < 16" for i j k l m
    using that by (intro five_bytes_bound b)
  show ?thesis
    unfolding ulid_digits_groups [OF len] Let_def set_append ball_Un
    using f by (intro conjI g) auto
qed

lemma ulid_string_less:
  assumes "length r1 = 16" and "length r2 = 16"
  shows "ulid_string r1 < ulid_string r2 \<longleftrightarrow>
    digits_number 256 (map unat r1) < digits_number 256 (map unat r2)"
proof -
  have len: "length (map unat (ulid_digits r1)) = length (map unat (ulid_digits r2))"
    by (simp add: ulid_digits_def)
  have bounds: "\<forall>d \<in> set (map unat (ulid_digits r1)). d < 32" "\<forall>d \<in> set (map unat (ulid_digits r2)). d < 32"
    by (rule ulid_digits_bound [OF assms(1)], rule ulid_digits_bound [OF assms(2)])
  have "ulid_string r = map ((!) crockford) (map unat (ulid_digits r))" for r
    by (simp add: ulid_string_def)
  then have "ulid_string r1 < ulid_string r2 \<longleftrightarrow> map unat (ulid_digits r1) < map unat (ulid_digits r2)"
    using map_strict_mono_less [OF crockford_less len bounds] by simp
  also have "\<dots> \<longleftrightarrow> digits_number 32 (map unat (ulid_digits r1)) < digits_number 32 (map unat (ulid_digits r2))"
    by (rule digits_number_less [OF len bounds, symmetric])
  finally show ?thesis by (simp only: ulid_number assms)
qed

lemma digits_number_be_bytes: "digits_number 256 (map unat (be_bytes n w)) = unat w mod 2 ^ (8 * n)"
proof (induction n arbitrary: w)
  case (Suc n)
  have "unat (drop_bit 8 w) = unat w div 256" by (simp only: unat_drop_bit_eq) (simp add: drop_bit_eq_div)
  moreover have "unat (ucast w :: byte) = unat w mod 256"
    by (simp add: unsigned_ucast_eq take_bit_eq_mod)
  moreover have "unat w mod (256 * 2 ^ (8 * n)) = 256 * (unat w div 256 mod 2 ^ (8 * n)) + unat w mod 256"
    by (rule mod_mult2_eq)
  ultimately show ?case
    using Suc by (simp add: digits_number_def power_add mult.commute)
qed (simp add: digits_number_def)

lemma ulid_raw_parts:
  "ulid_raw ts r = be_bytes 6 (word_of_int (ts div 1000000)) @ take 10 r"
  by (simp add: ulid_raw_def Let_def numeral_eq_Suc)

lemma length_ulid_raw: "length r = 10 \<Longrightarrow> length (ulid_raw ts r) = 16"
  by (simp add: ulid_raw_def Let_def)

lemma ulid_raw_number:
  assumes "length r = 10"
  shows "digits_number 256 (map unat (ulid_raw ts r)) =
    nat ((ts div 1000000) mod 2 ^ 48) * 256 ^ 10 + digits_number 256 (map unat r)"
proof -
  have "nat (ts div 1000000 mod 2 ^ 64) mod nat (2 ^ 48) = nat (ts div 1000000 mod 2 ^ 64 mod 2 ^ 48)"
    by (rule nat_mod_distrib [symmetric]) simp_all
  also have "ts div 1000000 mod 2 ^ 64 mod 2 ^ 48 = ts div 1000000 mod 2 ^ 48"
    by (rule mod_mod_cancel) simp
  finally have "unat (word_of_int (ts div 1000000) :: 64 word) mod 2 ^ 48 = nat ((ts div 1000000) mod 2 ^ 48)"
    by (simp add: unat_eq_nat_uint uint_word_of_int)
  then have "digits_number 256 (map unat (be_bytes 6 (word_of_int (ts div 1000000)))) = nat ((ts div 1000000) mod 2 ^ 48)"
    by (simp add: digits_number_be_bytes)
  then show ?thesis
    using assms digits_number_append [of 256 "digits_number 256 (map unat (be_bytes 6 (word_of_int (ts div 1000000))))" "map unat r"]
    by (simp add: ulid_raw_parts digits_number_def)
qed

theorem newULID_time_order:
  assumes "0 \<le> t1 div 1000000" and "t1 div 1000000 < t2 div 1000000" and "t2 div 1000000 < 2 ^ 48"
    and "length r1 = 10" and "length r2 = 10"
    and "newULID t1 (Some r1) = Some id1" and "newULID t2 (Some r2) = Some id2"
  shows "id1 < id2"
proof -
  let ?m1 = "nat (t1 div 1000000)" and ?m2 = "nat (t2 div 1000000)"
  have r1: "digits_number 256 (map unat r1) < 256 ^ 10"
    using digits_number_bound [of "map unat r1" 256] assms(4) byte_bound by simp
  have "?m1 + 1 \<le> ?m2" using assms(1,2) by linarith
  then have "(?m1 + 1) * 256 ^ 10 \<le> ?m2 * 256 ^ 10" by (rule mult_le_mono1)
  then have "digits_number 256 (map unat (ulid_raw t1 r1)) < digits_number 256 (map unat (ulid_raw t2 r2))"
    using assms(1-3) r1 by (simp add: ulid_raw_number assms(4,5))
  then have "ulid_string (ulid_raw t1 r1) < ulid_string (ulid_raw t2 r2)"
    by (simp add: ulid_string_less length_ulid_raw assms(4,5))
  then show ?thesis using assms(6,7) by (simp add: newULID_string)
qed

lemma newULID_time_order_witness:
  "ulid_string (ulid_raw 0 (replicate 10 255)) < ulid_string (ulid_raw 1000000 (replicate 10 0))"
  by (rule newULID_time_order [of 0 1000000, OF _ _ _ _ _ newULID_string newULID_string]) simp_all

end
