(* ===== verification/Store.thy ===== *)
theory Store
  imports Ulid Filesystem Crypto
begin

text \<open>
  \<^verbatim>\<open>internal/store/store.go\<close>: labels and remembered listeners, their retention limits, and the
  state file.

  Every public operation runs under \<open>s.mu\<close> and is one step on the store and the file system.
  \<open>encoding/json\<close> is an argument (\<open>marshal\<close>, \<open>unmarshal\<close>), as are the clock reading, the
  random bytes, the order in which the runtime ranges over the labels, and the failing calls.
  A Go slice is a list: a nil slice and an empty one are not told apart, except where
  \<open>hydrate\<close> replaces nil by empty.
\<close>

section \<open>Data\<close>

definition MaxLabelLen :: nat where "MaxLabelLen = 64"
definition PerKeyRememberedCap :: nat where "PerKeyRememberedCap = 5"
definition GlobalRememberedCap :: nat where "GlobalRememberedCap = 100"
definition MaxStateBytes :: nat where "MaxStateBytes = 256 * 1024"
definition stateVersion :: int where "stateVersion = 1"
definition stateDirName :: string where "stateDirName = ''.port-manager''"
definition stateFile :: string where "stateFile = ''state.json''"

lemmas retention = PerKeyRememberedCap_def GlobalRememberedCap_def

record remembered =
  r_ID :: string
  r_Port :: int
  r_Command :: "string list"
  r_Cwd :: string
  r_Env :: "string list"
  r_KilledAt :: gotime
  r_LabelKey :: string

record labelEntry =
  l_Cwd :: string
  l_Command :: "string list"
  l_Label :: string
  l_UpdatedAt :: gotime

type_synonym label_map = "(string, labelEntry) gomap"

record persisted =
  Version :: int
  Labels :: label_map
  Remembered :: "remembered list"

text \<open>What \<open>json.Unmarshal\<close> produces: the map and the slice may be nil.\<close>

record unmarshalled =
  u_Version :: int
  u_Labels :: "label_map option"
  u_Remembered :: "remembered list option"

record store =
  st_path :: path
  st_data :: persisted

datatype store_error =
    ErrLabelTooLong | ErrStateSizeExceeded | ErrMarshal | ErrWriteState write_error
  | ErrUlid | ErrEmptyHomeDir | ErrMkdirState | ErrReadState | ErrParseState

record json =
  marshal :: "persisted \<Rightarrow> content option"
  unmarshal :: "content \<Rightarrow> unmarshalled option"

section \<open>Writing the state file\<close>

definition writeAtomic :: "path \<Rightarrow> content \<Rightarrow> faults \<Rightarrow> fsop list \<times> write_error option" where
  "writeAtomic p data fl =
    (let tmp = p @ tmpSuffix in
     if open_fails fl then ([], Some ErrOpenTmp)
     else let (ops, err) =
       (case write_fails fl of
          Some k \<Rightarrow> ([WriteFile tmp (take k data), CloseFile tmp], Some ErrWriteTmp)
        | None \<Rightarrow>
            if sync_fails fl then ([WriteFile tmp data, CloseFile tmp], Some ErrSyncTmp)
            else if close_fails fl then ([WriteFile tmp data, SyncFile tmp, CloseFile tmp], Some ErrCloseTmp)
            else if rename_fails fl then ([WriteFile tmp data, SyncFile tmp, CloseFile tmp], Some ErrRename)
            else ([WriteFile tmp data, SyncFile tmp, CloseFile tmp, RenameFile tmp p], None))
     in (OpenTrunc tmp # ops @ (if err \<noteq> None then [RemoveFile tmp] else []), err))"

section \<open>Labels\<close>

definition label_preimage :: "string \<Rightarrow> string list \<Rightarrow> string" where
  "label_preimage cwd command = cwd @ [CHR 0x00] @ join [CHR 0x00] command"

definition LabelKey :: "string \<Rightarrow> string list \<Rightarrow> string" where
  "LabelKey cwd command = take 16 (hex_encode (sha256 (bytes_of (label_preimage cwd command))))"

definition Label :: "store \<Rightarrow> string \<Rightarrow> string list \<Rightarrow> string" where
  "Label s cwd command =
    (case gm_get (Labels (st_data s)) (LabelKey cwd command) of None \<Rightarrow> [] | Some e \<Rightarrow> l_Label e)"

text \<open>The scan of \<open>evictOldestLabelLocked\<close> over the entries in the order visited.\<close>

fun oldest_label :: "label_map \<Rightarrow> (string \<times> gotime) option \<Rightarrow> (string \<times> gotime) option" where
  "oldest_label [] best = best"
| "oldest_label ((k, e) # es) best =
    oldest_label es
      (case best of
         None \<Rightarrow> Some (k, l_UpdatedAt e)
       | Some (_, oldestAt) \<Rightarrow> if l_UpdatedAt e < oldestAt then Some (k, l_UpdatedAt e) else best)"

definition evictOldestLabelLocked :: "(label_map \<Rightarrow> label_map) \<Rightarrow> label_map \<Rightarrow> bool \<times> label_map" where
  "evictOldestLabelLocked iter m =
    (if m = [] then (False, m)
     else case oldest_label (range_order iter m) None of
       None \<Rightarrow> (True, m) \<comment> \<open>unreachable: the map is not empty\<close>
     | Some (k, _) \<Rightarrow> (True, gm_del k m))"

section \<open>Persisting\<close>

lemma oldest_label_spec:
  "es \<noteq> [] \<or> best \<noteq> None \<Longrightarrow>
   \<exists>k t. oldest_label es best = Some (k, t)
     \<and> (best = Some (k, t) \<or> (\<exists>e. (k, e) \<in> set es \<and> t = l_UpdatedAt e))
     \<and> (\<forall>(j, e) \<in> set es. t \<le> l_UpdatedAt e) \<and> (\<forall>j u. best = Some (j, u) \<longrightarrow> t \<le> u)"
proof (induction es arbitrary: best)
  case (Cons x es)
  obtain j e where x: "x = (j, e)" by (cases x)
  define best' where "best' = (case best of None \<Rightarrow> Some (j, l_UpdatedAt e)
    | Some (_, u) \<Rightarrow> if l_UpdatedAt e < u then Some (j, l_UpdatedAt e) else best)"
  have "best' \<noteq> None" by (auto simp: best'_def split: option.split)
  then obtain k t where kt: "oldest_label es best' = Some (k, t)"
    "best' = Some (k, t) \<or> (\<exists>e. (k, e) \<in> set es \<and> t = l_UpdatedAt e)"
    "\<forall>(j, e) \<in> set es. t \<le> l_UpdatedAt e" "\<forall>j u. best' = Some (j, u) \<longrightarrow> t \<le> u"
    using Cons.IH [of best'] by blast
  have "oldest_label (x # es) best = Some (k, t)" using kt(1) by (simp add: x best'_def)
  moreover have "best = Some (k, t) \<or> (\<exists>e. (k, e) \<in> set (x # es) \<and> t = l_UpdatedAt e)"
    using kt(2) by (auto simp: x best'_def split: option.splits if_splits)
  moreover have "t \<le> l_UpdatedAt e" "\<forall>j u. best = Some (j, u) \<longrightarrow> t \<le> u"
    using kt(4) by (fastforce simp: best'_def split: option.splits if_splits)+
  ultimately show ?case using kt(3) x by auto
qed auto

lemma evict_label_spec:
  assumes "m \<noteq> []"
  shows "\<exists>k e. (k, e) \<in> set m \<and> (\<forall>(j, f) \<in> set m. l_UpdatedAt e \<le> l_UpdatedAt f)
    \<and> evictOldestLabelLocked iter m = (True, gm_del k m)"
proof -
  have "range_order iter m \<noteq> []" using assms by (metis mset_range_order mset_zero_iff)
  then obtain k t where "oldest_label (range_order iter m) None = Some (k, t)"
    "\<exists>e. (k, e) \<in> set m \<and> t = l_UpdatedAt e" "\<forall>(j, e) \<in> set m. t \<le> l_UpdatedAt e"
    using oldest_label_spec [of "range_order iter m" None] by auto
  then show ?thesis using assms by (auto simp: evictOldestLabelLocked_def)
qed

lemma delete_shorter: "(k, e) \<in> set m \<Longrightarrow> length (gm_del k m) < length m"
  by (induction m) (auto simp: AList.delete_eq less_Suc_eq_le)

lemma evict_label_shorter: "(True, m') = evictOldestLabelLocked iter m \<Longrightarrow> length m' < length m"
proof -
  assume e: "(True, m') = evictOldestLabelLocked iter m"
  then have "m \<noteq> []" by (auto simp: evictOldestLabelLocked_def)
  from evict_label_spec [OF this, of iter] e show ?thesis using delete_shorter by fastforce
qed

text \<open>The loop of \<open>persistLocked\<close>: what is left of the data, and the bytes to write.\<close>

function shrink :: "(persisted \<Rightarrow> content option) \<Rightarrow> (label_map \<Rightarrow> label_map) \<Rightarrow> persisted
    \<Rightarrow> persisted \<times> (store_error + content)" where
  "shrink mar iter d =
    (case mar d of
       None \<Rightarrow> (d, Inl ErrMarshal)
     | Some buf \<Rightarrow>
         if length buf \<le> MaxStateBytes then (d, Inr buf)
         else case Remembered d of
           _ # rs \<Rightarrow> shrink mar iter (d\<lparr>Remembered := rs\<rparr>)
         | [] \<Rightarrow>
             (case evictOldestLabelLocked iter (Labels d) of
                (True, m) \<Rightarrow> shrink mar iter (d\<lparr>Labels := m\<rparr>)
              | (False, _) \<Rightarrow> (d, Inl ErrStateSizeExceeded)))"
  by pat_completeness auto
termination
  by (relation "measure (\<lambda>(_, _, d). length (Remembered d) + length (Labels d))")
     (auto dest: evict_label_shorter)

declare shrink.simps [simp del]

text \<open>What a mutation takes from outside.\<close>

record store_env =
  e_json :: json
  e_iter :: "label_map \<Rightarrow> label_map"
  e_faults :: faults
  e_now :: gotime
  e_random :: "byte list option"

definition persistLocked :: "store_env \<Rightarrow> store \<times> fs \<Rightarrow> (store \<times> fs) \<times> store_error option" where
  "persistLocked env = (\<lambda>(s, f).
    case shrink (marshal (e_json env)) (e_iter env) (st_data s) of
      (d, Inl e) \<Rightarrow> ((s\<lparr>st_data := d\<rparr>, f), Some e)
    | (d, Inr buf) \<Rightarrow>
        (let (ops, err) = writeAtomic (st_path s) buf (e_faults env)
         in ((s\<lparr>st_data := d\<rparr>, apply_ops ops f), map_option ErrWriteState err)))"

section \<open>Operations\<close>

definition Open_store :: "json \<Rightarrow> bool \<Rightarrow> bool \<Rightarrow> string \<Rightarrow> fs \<Rightarrow> store_error + store" where
  "Open_store js mkdir_ok read_ok homeDir f =
    (if homeDir = [] then Inl ErrEmptyHomeDir
     else if \<not> mkdir_ok then Inl ErrMkdirState
     else
       let dir = path_join [homeDir, stateDirName];
           p = path_join [dir, stateFile];
           s = \<lparr>st_path = p, st_data = \<lparr>Version = stateVersion, Labels = [], Remembered = []\<rparr>\<rparr>
       in case cache f p of
            None \<Rightarrow> Inr s
          | Some b \<Rightarrow>
              if \<not> read_ok then Inl ErrReadState
              else case unmarshal js b of
                None \<Rightarrow> Inl ErrParseState
              | Some u \<Rightarrow>
                  Inr (s\<lparr>st_data := \<lparr>Version = (if u_Version u = 0 then stateVersion else u_Version u),
                         Labels = (case u_Labels u of None \<Rightarrow> [] | Some m \<Rightarrow> m),
                         Remembered = (case u_Remembered u of None \<Rightarrow> [] | Some rs \<Rightarrow> rs)\<rparr>\<rparr>))"

definition SetLabel :: "store_env \<Rightarrow> string \<Rightarrow> string list \<Rightarrow> string \<Rightarrow> store \<times> fs
    \<Rightarrow> (store \<times> fs) \<times> store_error option" where
  "SetLabel env cwd command label = (\<lambda>(s, f).
    if MaxLabelLen < rune_count label then ((s, f), Some ErrLabelTooLong)
    else
      let d = st_data s;
          key = LabelKey cwd command;
          m = (if label = [] then gm_del key (Labels d)
               else gm_put key \<lparr>l_Cwd = cwd, l_Command = command, l_Label = label, l_UpdatedAt = e_now env\<rparr> (Labels d))
      in persistLocked env (s\<lparr>st_data := d\<lparr>Labels := m\<rparr>\<rparr>, f))"

definition evictPerKeyLocked :: "string \<Rightarrow> remembered list \<Rightarrow> remembered list" where
  "evictPerKeyLocked key rs =
    (let matches = length (filter (\<lambda>r. r_LabelKey r = key) rs) in
     if matches \<le> PerKeyRememberedCap then rs
     else snd (fold (\<lambda>r (toDrop, kept).
         if r_LabelKey r = key \<and> 0 < toDrop then (toDrop - 1, kept) else (toDrop, kept @ [r]))
       rs (matches - PerKeyRememberedCap, [])))"

definition evictGlobalLocked :: "remembered list \<Rightarrow> remembered list" where
  "evictGlobalLocked rs =
    (if length rs \<le> GlobalRememberedCap then rs else drop (length rs - GlobalRememberedCap) rs)"

definition Remember :: "store_env \<Rightarrow> remembered \<Rightarrow> store \<times> fs \<Rightarrow> (store \<times> fs) \<times> store_error option" where
  "Remember env r = (\<lambda>(s, f).
    let r = (if r_LabelKey r = [] then r\<lparr>r_LabelKey := LabelKey (r_Cwd r) (r_Command r)\<rparr> else r);
        r = (if is_zero (r_KilledAt r) then r\<lparr>r_KilledAt := e_now env\<rparr> else r)
    in case (if r_ID r = [] then newULID (r_KilledAt r) (e_random env) else Some (r_ID r)) of
         None \<Rightarrow> ((s, f), Some ErrUlid)
       | Some rid \<Rightarrow>
           let d = st_data s;
               rs = Remembered d @ [r\<lparr>r_ID := rid\<rparr>]
           in persistLocked env
                (s\<lparr>st_data := d\<lparr>Remembered := evictGlobalLocked (evictPerKeyLocked (r_LabelKey r) rs)\<rparr>\<rparr>, f))"

definition ListRemembered :: "store \<Rightarrow> string \<Rightarrow> string list \<Rightarrow> remembered list" where
  "ListRemembered s cwd command =
    filter (\<lambda>r. r_LabelKey r = LabelKey cwd command) (rev (Remembered (st_data s)))"

definition AllRemembered :: "store \<Rightarrow> remembered list" where
  "AllRemembered s = rev (Remembered (st_data s))"

definition FindRemembered :: "store \<Rightarrow> string \<Rightarrow> remembered option" where
  "FindRemembered s rid = List.find (\<lambda>r. r_ID r = rid) (Remembered (st_data s))"

definition DeleteRemembered :: "store_env \<Rightarrow> string \<Rightarrow> store \<times> fs \<Rightarrow> (store \<times> fs) \<times> store_error option" where
  "DeleteRemembered env rid = (\<lambda>(s, f).
    let d = st_data s; kept = filter (\<lambda>r. r_ID r \<noteq> rid) (Remembered d)
    in if length kept = length (Remembered d) then ((s, f), None)
       else persistLocked env (s\<lparr>st_data := d\<lparr>Remembered := kept\<rparr>\<rparr>, f))"

end
