(* ===== verification/Inspector.thy ===== *)
theory Inspector
  imports GoStrings Crypto
begin

text \<open>
  \<^verbatim>\<open>internal/inspector\<close>: the snapshot of one process (\<^verbatim>\<open>inspector.go\<close>) and its environment,
  read from the buffer of \<open>KERN_PROCARGS2\<close> (\<^verbatim>\<open>envp_darwin.go\<close>).

  The answers of gopsutil and of the kernel are arguments. An error of theirs is described by
  what the code asks of it: whether it is one of gopsutil's two sentinels, the errno it wraps,
  and its message.
\<close>

section \<open>Errors\<close>

datatype errno = EPERM | EACCES | ESRCH | EINVAL | OtherErrno nat

record os_error =
  oe_not_running :: bool
  oe_not_permitted :: bool
  oe_errno :: "errno option"
  oe_msg :: string

datatype env_error =
    EnvCanceled | EnvArgmax | EnvNotFound | EnvPermission | EnvRejected errno
  | EnvShort nat | EnvImplausible int

datatype inspect_error =
    ErrInvalidPid int | ErrInspectCtx | ErrNotFound | ErrPermission | ErrInspect os_error
  | ErrNoUids | ErrReadEnviron env_error

text \<open>\<open>indexOf\<close>, with \<open>None\<close> for \<open>-1\<close>: the loop compares a slice of the length of \<open>sub\<close> at each position.\<close>

function index_from :: "string \<Rightarrow> string \<Rightarrow> nat \<Rightarrow> nat option" where
  "index_from s sub i =
    (if i + length sub \<le> length s then
       if take (length sub) (drop i s) = sub then Some i else index_from s sub (i + 1)
     else None)"
  by pat_completeness auto
termination by (relation "measure (\<lambda>(s, sub, i). Suc (length s) - i)") auto

declare index_from.simps [simp del]

definition indexOf :: "string \<Rightarrow> string \<Rightarrow> nat option" where
  "indexOf s sub = (if sub = [] then Some 0 else if length s < length sub then None else index_from s sub 0)"

definition containsAny :: "string \<Rightarrow> string list \<Rightarrow> bool" where
  "containsAny s subs \<longleftrightarrow> list_ex (\<lambda>sub. indexOf s sub \<noteq> None) subs"

definition classify :: "os_error \<Rightarrow> inspect_error" where
  "classify err =
    (if oe_not_running err then ErrNotFound
     else if oe_not_permitted err then ErrPermission
     else if oe_errno err \<in> {Some EPERM, Some EACCES} then ErrPermission
     else if oe_errno err = Some ESRCH then ErrNotFound
     else if containsAny (oe_msg err) [''no such process'', ''process does not exist''] then ErrNotFound
     else if containsAny (oe_msg err) [''operation not permitted'', ''permission denied''] then ErrPermission
     else ErrInspect err)"

section \<open>The command line\<close>

definition blank :: "char \<Rightarrow> bool" where
  "blank c \<longleftrightarrow> c = CHR '' '' \<or> c = CHR 0x09"

text \<open>The loop of \<open>splitCmdline\<close>: position, start of the current word, words so far.\<close>

function split_from :: "string \<Rightarrow> nat \<Rightarrow> nat option \<Rightarrow> string list \<Rightarrow> string list" where
  "split_from s i start out =
    (if i < length s then
       if blank (s ! i) then
         (case start of
            None \<Rightarrow> split_from s (i + 1) None out
          | Some b \<Rightarrow> split_from s (i + 1) None (out @ [take (i - b) (drop b s)]))
       else split_from s (i + 1) (case start of None \<Rightarrow> Some i | Some b \<Rightarrow> Some b) out
     else (case start of None \<Rightarrow> out | Some b \<Rightarrow> out @ [drop b s]))"
  by pat_completeness auto
termination by (relation "measure (\<lambda>(s, i, start, out). length s - i)") auto

declare split_from.simps [simp del]

definition splitCmdline :: "string \<Rightarrow> string list" where
  "splitCmdline s = split_from s 0 None []"

definition resolveArgv :: "os_error + string list \<Rightarrow> os_error + string \<Rightarrow> os_error + string list" where
  "resolveArgv argv cmdline =
    (case argv of
       Inr (a # as) \<Rightarrow> Inr (a # as)
     | _ \<Rightarrow>
         (case cmdline of
            Inr (c # cs) \<Rightarrow> Inr (splitCmdline (c # cs))
          | _ \<Rightarrow> argv))"

section \<open>The buffer of KERN_PROCARGS2\<close>

function skip_while :: "(char \<Rightarrow> bool) \<Rightarrow> string \<Rightarrow> nat \<Rightarrow> nat" where
  "skip_while P buf pos = (if pos < length buf \<and> P (buf ! pos) then skip_while P buf (pos + 1) else pos)"
  by pat_completeness auto
termination by (relation "measure (\<lambda>(P, buf, pos). length buf - pos)") auto

declare skip_while.simps [simp del]

abbreviation NUL :: char where "NUL \<equiv> CHR 0x00"

fun skip_argv :: "nat \<Rightarrow> string \<Rightarrow> nat \<Rightarrow> nat option" where
  "skip_argv 0 buf pos = Some pos"
| "skip_argv (Suc n) buf pos =
    (let pos = skip_while (\<lambda>c. c \<noteq> NUL) buf pos
     in if length buf \<le> pos then None else skip_argv n buf (pos + 1))"

lemma skip_while_le: "pos \<le> skip_while P buf pos"
  by (induction P buf pos rule: skip_while.induct) (subst skip_while.simps, auto)

function collect_env :: "string \<Rightarrow> nat \<Rightarrow> string list \<Rightarrow> string list" where
  "collect_env buf start env =
    (if start < length buf then
       let pos = skip_while (\<lambda>c. c \<noteq> NUL) buf start
       in if pos = start then env
          else collect_env buf (if pos < length buf then pos + 1 else pos) (env @ [take (pos - start) (drop start buf)])
     else env)"
  by pat_completeness auto
termination
proof (relation "measure (\<lambda>(buf, start, env). length buf - start)")
  fix buf :: string and start pos :: nat and env :: "string list"
  assume "start < length buf" "pos = skip_while (\<lambda>c. c \<noteq> NUL) buf start" "pos \<noteq> start"
  moreover from this have "start < pos" using skip_while_le [of start "\<lambda>c. c \<noteq> NUL" buf] by simp
  ultimately show "((buf, if pos < length buf then pos + 1 else pos, env @ [take (pos - start) (drop start buf)]),
    (buf, start, env)) \<in> measure (\<lambda>(buf, start, env). length buf - start)"
    by auto
qed simp

declare collect_env.simps [simp del]

definition le_uint32 :: "byte list \<Rightarrow> 32 word" where
  "le_uint32 bs = word_of_nat (foldr (\<lambda>b n. unat b + 256 * n) bs 0)"

definition parseProcargs :: "string \<Rightarrow> env_error + string list" where
  "parseProcargs buf =
    (if length buf < 4 then Inl (EnvShort (length buf))
     else let argc = sint (le_uint32 (bytes_of (take 4 buf))) in
       if argc < 0 \<or> 10000 < argc then Inl (EnvImplausible argc)
       else let pos = skip_while (\<lambda>c. c \<noteq> NUL) buf 4;
                pos = skip_while (\<lambda>c. c = NUL) buf pos
            in case skip_argv (nat argc) buf pos of
                 None \<Rightarrow> Inr []
               | Some pos \<Rightarrow> Inr (collect_env buf pos []))"

text \<open>
  The reads of \<open>readEnv\<close>: the context at its two checks, the return codes of the two helpers
  (\<open>None\<close> for 0), the bytes read, and the errno of the probe with \<open>kill(pid, 0)\<close>.
\<close>

record env_reads =
  ev_ctx1 :: bool
  ev_argmax :: "errno option"
  ev_ctx2 :: bool
  ev_procargs :: "errno + string"
  ev_kill0 :: "errno option"

definition readEnv :: "env_reads \<Rightarrow> env_error + string list" where
  "readEnv r =
    (if ev_ctx1 r then Inl EnvCanceled
     else if ev_argmax r \<noteq> None then Inl EnvArgmax
     else if ev_ctx2 r then Inl EnvCanceled
     else case ev_procargs r of
       Inr buf \<Rightarrow> parseProcargs buf
     | Inl e \<Rightarrow>
         (case e of
            ESRCH \<Rightarrow> Inl EnvNotFound
          | EPERM \<Rightarrow> Inl EnvPermission
          | EACCES \<Rightarrow> Inl EnvPermission
          | EINVAL \<Rightarrow>
              (case ev_kill0 r of
                 Some ESRCH \<Rightarrow> Inl EnvNotFound
               | Some EPERM \<Rightarrow> Inl EnvPermission
               | _ \<Rightarrow> Inl (EnvRejected EINVAL))
          | OtherErrno n \<Rightarrow> Inl (EnvRejected (OtherErrno n))))"

text \<open>Every other system has a stub.\<close>

definition readEnv_stub :: "env_error + string list" where
  "readEnv_stub = Inr []"

section \<open>Inspect\<close>

record procinfo =
  PI_PID :: int
  PI_Command :: "string list"
  PI_Cwd :: string
  PI_StartTime :: gotime
  PI_UID :: int
  PI_Env :: "string list"

record process_reads =
  pr_new :: "os_error option"
  pr_slice :: "os_error + string list"
  pr_cmdline :: "os_error + string"
  pr_cwd :: "os_error + string"
  pr_create :: "os_error + int"
  pr_uids :: "os_error + int list"

text \<open>gopsutil and the C helper take the pid as a 32-bit integer; \<open>int32(pid)\<close> wraps.\<close>

definition int32 :: "int \<Rightarrow> int" where "int32 pid = sint (word_of_int pid :: 32 word)"

definition Inspect :: "bool \<Rightarrow> bool \<Rightarrow> (int \<Rightarrow> process_reads) \<Rightarrow> (int \<Rightarrow> env_reads) \<Rightarrow> int \<Rightarrow> inspect_error + procinfo" where
  "Inspect darwin ctx_done gops sysctl pid =
    (if pid \<le> 0 then Inl (ErrInvalidPid pid)
     else if ctx_done then Inl ErrInspectCtx
     else let p = gops (int32 pid) in
       case pr_new p of Some e \<Rightarrow> Inl (classify e) | None \<Rightarrow>
       case resolveArgv (pr_slice p) (pr_cmdline p) of Inl e \<Rightarrow> Inl (classify e) | Inr argv \<Rightarrow>
       case (case pr_cwd p of Inr d \<Rightarrow> Some d
             | Inl e \<Rightarrow> if classify e = ErrNotFound then None else Some []) of
         None \<Rightarrow> Inl ErrNotFound | Some cwd \<Rightarrow>
       case pr_create p of Inl e \<Rightarrow> Inl (classify e) | Inr createTime \<Rightarrow>
       case pr_uids p of Inl e \<Rightarrow> Inl (classify e) | Inr [] \<Rightarrow> Inl ErrNoUids | Inr (uid # _) \<Rightarrow>
       case (case (if darwin then readEnv (sysctl (int32 pid)) else readEnv_stub) of Inr env \<Rightarrow> Inr env
             | Inl e \<Rightarrow> if e \<noteq> EnvPermission then Inl e else Inr []) of
         Inl e \<Rightarrow> Inl (ErrReadEnviron e) | Inr env \<Rightarrow>
       Inr \<lparr>PI_PID = pid, PI_Command = argv, PI_Cwd = cwd, PI_StartTime = createTime * Millisecond,
            PI_UID = uid, PI_Env = env\<rparr>)"

end
