(* ===== verification/Http.thy ===== *)
theory Http
  imports RateLimit Store Inspector
begin

text \<open>
  The HTTP vocabulary of \<^verbatim>\<open>internal/server\<close>: requests and responses with what the handlers use of
  \<^verbatim>\<open>net/http\<close>, and the pure helpers of \<^verbatim>\<open>middleware.go\<close>, \<^verbatim>\<open>handlers.go\<close> and
  \<^verbatim>\<open>mutation_handlers.go\<close>: redaction, the address a login is counted under, the redirect target,
  the label check.
\<close>

section \<open>Requests\<close>

text \<open>
  Header values under their canonical names, in order; the parsed query; the parsed form, \<open>None\<close>
  when \<open>ParseForm\<close> fails; and the values the middleware puts into the context.
\<close>

record request =
  rq_method :: string
  rq_path :: string
  rq_header :: "string \<Rightarrow> string list"
  rq_query :: "string \<Rightarrow> string list"
  rq_form :: "(string \<Rightarrow> string list) option"
  rq_remote :: string
  rq_id :: string
  rq_authKind :: string

definition first_value :: "string list \<Rightarrow> string" where
  "first_value vs = (case vs of [] \<Rightarrow> [] | v # _ \<Rightarrow> v)"

definition header_get :: "request \<Rightarrow> string \<Rightarrow> string" where
  "header_get r k = first_value (rq_header r k)"

text \<open>
  \<open>Request.Cookie\<close>: the segments of the \<open>Cookie\<close> headers, name and segment trimmed of ASCII white
  space, quotes around the value dropped, values with other bytes than the printable ones refused.
\<close>

definition trim_string :: "string \<Rightarrow> string" where
  "trim_string s = (let ws = (\<lambda>c. c \<in> set [CHR '' '', CHR 0x09, CHR 0x0A, CHR 0x0D])
     in rev (dropWhile ws (rev (dropWhile ws s))))"

definition valid_cookie_byte :: "char \<Rightarrow> bool" where
  "valid_cookie_byte c \<longleftrightarrow> (let n = of_char c :: nat in 32 \<le> n \<and> n < 127 \<and> n \<noteq> 34 \<and> n \<noteq> 59 \<and> n \<noteq> 92)"

definition cookie_value :: "string \<Rightarrow> string option" where
  "cookie_value raw =
    (let v = (if 1 < length raw \<and> hd raw = CHR 0x22 \<and> last raw = CHR 0x22 then butlast (tl raw) else raw)
     in if list_all valid_cookie_byte v then Some v else None)"

definition cookie_segment :: "string \<Rightarrow> string \<Rightarrow> string option" where
  "cookie_segment name part =
    (let part = trim_string part in
     if part = [] then None
     else case index_byte CHR ''='' part of
       None \<Rightarrow> if part = name then Some [] else None
     | Some i \<Rightarrow> if trim_string (take i part) = name then cookie_value (drop (Suc i) part) else None)"

definition request_cookie :: "request \<Rightarrow> string \<Rightarrow> string option" where
  "request_cookie r name =
    (case List.map_filter (cookie_segment name)
            (concat (map (\<lambda>line. split_on CHR '';'' (trim_string line)) (rq_header r ''Cookie''))) of
       [] \<Rightarrow> None
     | v # _ \<Rightarrow> Some v)"

section \<open>Responses\<close>

text \<open>
  A response being written: the headers, the cookies set, the status sent (0 before the first
  \<open>WriteHeader\<close>), the status the recorder of the logger saw last, and the body. Headers set after
  the status are not sent.
\<close>

record set_cookie =
  ck_value :: string
  ck_path :: string
  ck_http_only :: bool
  ck_same_site_lax :: bool
  ck_expires :: "gotime option"
  ck_max_age :: int

record writer =
  w_header :: "(string, string) gomap"
  w_cookies :: "set_cookie list"
  w_status :: int
  rec_status :: int
  w_body :: string

definition new_writer :: writer where
  "new_writer = \<lparr>w_header = [], w_cookies = [], w_status = 0, rec_status = 0, w_body = []\<rparr>"

definition set_header :: "string \<Rightarrow> string \<Rightarrow> writer \<Rightarrow> writer" where
  "set_header k v w = (if w_status w = 0 then w\<lparr>w_header := gm_put k v (w_header w)\<rparr> else w)"

definition add_cookie :: "set_cookie \<Rightarrow> writer \<Rightarrow> writer" where
  "add_cookie c w = (if w_status w = 0 then w\<lparr>w_cookies := w_cookies w @ [c]\<rparr> else w)"

text \<open>\<open>statusRecorder\<close> in front of the connection: only the first status is sent, the last one is recorded.\<close>

definition WriteHeader :: "int \<Rightarrow> writer \<Rightarrow> writer" where
  "WriteHeader code w = w\<lparr>rec_status := code, w_status := (if w_status w = 0 then code else w_status w)\<rparr>"

definition Write :: "string \<Rightarrow> writer \<Rightarrow> writer" where
  "Write b w = w\<lparr>rec_status := (if rec_status w = 0 then 200 else rec_status w),
     w_status := (if w_status w = 0 then 200 else w_status w), w_body := w_body w @ b\<rparr>"

definition http_error :: "string \<Rightarrow> int \<Rightarrow> writer \<Rightarrow> writer" where
  "http_error msg code w =
    Write (msg @ [CHR 0x0A]) (WriteHeader code
      (set_header ''X-Content-Type-Options'' ''nosniff'' (set_header ''Content-Type'' ''text/plain; charset=utf-8'' w)))"

text \<open>
  \<open>http.Redirect\<close> to a URL that starts with a slash: the path is cleaned when the URL parses (no
  control byte before the fragment, every percent sign of the path and the fragment followed by two hex digits).
\<close>

fun escapes_ok :: "string \<Rightarrow> bool" where
  "escapes_ok [] = True"
| "escapes_ok (c # cs) =
    (if c = CHR ''%'' then
       (case cs of
          a # b # rest \<Rightarrow> list_all (\<lambda>x. x \<in> set ''0123456789abcdefABCDEF'') [a, b] \<and> escapes_ok cs
        | _ \<Rightarrow> False)
     else escapes_ok cs)"

definition url_parses :: "string \<Rightarrow> bool" where
  "url_parses u \<longleftrightarrow>
    (let rest = takeWhile (\<lambda>c. c \<noteq> CHR ''#'') u;
         fragment = drop (Suc (length rest)) u;
         path = takeWhile (\<lambda>c. c \<noteq> CHR ''?'') rest
     in list_all (\<lambda>c. (32::nat) \<le> of_char c \<and> of_char c \<noteq> (127::nat)) rest \<and> escapes_ok path \<and> escapes_ok fragment)"

definition clean_url :: "string \<Rightarrow> string" where
  "clean_url u =
    (let path = takeWhile (\<lambda>c. c \<noteq> CHR ''?'') u; query = drop (length path) u; cleaned = path_clean path
     in (if has_suffix ''/'' path \<and> \<not> has_suffix ''/'' cleaned then cleaned @ ''/'' else cleaned) @ query)"

definition hex_escape :: "string \<Rightarrow> string" where
  "hex_escape u = concat (map (\<lambda>c. if of_char c < (128::nat) then [c] else ''%'' @ hex_encode [byte_of c]) u)"

definition html_escape :: "string \<Rightarrow> string" where
  "html_escape s = concat (map (\<lambda>c. if c = CHR ''&'' then ''&amp;'' else if c = CHR ''<'' then ''&lt;''
     else if c = CHR ''>'' then ''&gt;'' else if c = CHR 0x22 then ''&#34;''
     else if c = CHR 0x27 then ''&#39;'' else [c]) s)"

definition SeeOther :: int where "SeeOther = 303"

definition redirect :: "request \<Rightarrow> string \<Rightarrow> writer \<Rightarrow> writer" where
  "redirect r url w =
    (let url = (if url_parses url then clean_url url else url);
         hadCT = gm_get (w_header w) ''Content-Type'' \<noteq> None;
         w = set_header ''Location'' (hex_escape url) w;
         w = (if \<not> hadCT \<and> (rq_method r = ''GET'' \<or> rq_method r = ''HEAD'')
              then set_header ''Content-Type'' ''text/html; charset=utf-8'' w else w);
         w = WriteHeader SeeOther w
     in if \<not> hadCT \<and> rq_method r = ''GET''
        then Write (''<a href='' @ [CHR 0x22] @ html_escape url @ [CHR 0x22] @ ''>See Other</a>.'' @ [CHR 0x0A, CHR 0x0A]) w
        else w)"

section \<open>Redaction\<close>

definition redactAuthHeader :: "string \<Rightarrow> string" where
  "redactAuthHeader v =
    (if v = [] then []
     else let scheme = (case index_byte CHR '' '' v of Some (Suc i) \<Rightarrow> take (Suc i) v | _ \<Rightarrow> v)
          in scheme @ '' [REDACTED]'')"

definition redact_part :: "string \<Rightarrow> string" where
  "redact_part part =
    (let kv = trim_left_char CHR '' '' part; leading = take (length part - length kv) part in
     case index_byte CHR ''='' kv of
       Some (Suc i) \<Rightarrow> if equal_fold (take (Suc i) kv) ''pm_session''
                       then leading @ take (Suc (Suc i)) kv @ ''[REDACTED]'' else part
     | _ \<Rightarrow> part)"

definition redactCookieHeader :: "string \<Rightarrow> string" where
  "redactCookieHeader v = (if v = [] then [] else join '';'' (map redact_part (split_on CHR '';'' v)))"

section \<open>Addresses\<close>

definition remoteAddr :: "request \<Rightarrow> string" where
  "remoteAddr r = (case split_host_port (rq_remote r) of None \<Rightarrow> rq_remote r | Some (host, _) \<Rightarrow> host)"

definition clean_hop :: "string \<Rightarrow> string" where
  "clean_hop part = trim_space (trim_char CHR 0x22 (trim_space part))"

definition firstXFFHop :: "string \<Rightarrow> string" where
  "firstXFFHop v =
    (if v = [] then []
     else case List.find (\<lambda>hop. hop \<noteq> []) (map clean_hop (split_on CHR '','' v)) of
       None \<Rightarrow> [] | Some hop \<Rightarrow> hop)"

definition remoteIP :: "request \<Rightarrow> bool \<Rightarrow> string" where
  "remoteIP r trustXFF =
    (if trustXFF then
       (let hop = firstXFFHop (header_get r ''X-Forwarded-For'') in if hop \<noteq> [] then hop else remoteAddr r)
     else remoteAddr r)"

section \<open>Checks of input\<close>

definition sanitiseNext :: "string \<Rightarrow> string" where
  "sanitiseNext v =
    (if v = [] then []
     else if \<not> has_prefix ''/'' v \<or> has_prefix ''//'' v then []
     else v)"

datatype label_error = LabelTooLong | LabelControl

definition validateLabel :: "string \<Rightarrow> label_error option" where
  "validateLabel label =
    (if label = [] then None
     else if MaxLabelLen < rune_count label then Some LabelTooLong
     else if list_ex is_control (runes label) then Some LabelControl
     else None)"

end
