(* ===== verification/Scanner.thy ===== *)
theory Scanner
  imports Config "HOL-Library.List_Lexorder" "HOL-Library.Char_ord"
begin

text \<open>
  \<^verbatim>\<open>internal/scanner\<close>: the listeners of the current user, from the output of \<^verbatim>\<open>lsof\<close>
  (\<^verbatim>\<open>lsof.go\<close>) or from the process tables of the kernel (\<^verbatim>\<open>libproc_darwin.go\<close>), and the
  choice between the two (\<^verbatim>\<open>scanner.go\<close>).

  The kernel and the run of \<^verbatim>\<open>lsof\<close> are arguments. The C helpers of the cgo preamble are
  modelled over the structures the kernel fills in.
\<close>

section \<open>Listeners and their aggregation\<close>

record listener =
  L_PID :: int
  L_Port :: int
  L_Protocol :: string
  L_Addrs :: "string list"
  L_Source :: string

text \<open>What \<open>sort.Slice\<close> compares at the end of both scans: the ports, then the processes.\<close>

datatype listener_key = ListenerKey (key_port: int) (key_pid: int)

definition listed_before :: "listener_key \<Rightarrow> listener_key \<Rightarrow> bool" where
  "listed_before j k =
    (if key_port j \<noteq> key_port k then key_port j < key_port k else key_pid j < key_pid k)"

instantiation listener_key :: linorder
begin

definition less_listener_key :: "listener_key \<Rightarrow> listener_key \<Rightarrow> bool" where
  "less_listener_key = listed_before"

definition less_eq_listener_key :: "listener_key \<Rightarrow> listener_key \<Rightarrow> bool" where
  "less_eq_listener_key j k \<longleftrightarrow> j < k \<or> j = k"

instance
  by standard
     (auto simp: less_eq_listener_key_def less_listener_key_def listed_before_def split: if_splits intro: listener_key.expand)

end

definition key_of :: "listener \<Rightarrow> listener_key" where
  "key_of l = ListenerKey (L_Port l) (L_PID l)"

type_synonym aggregate = "(int \<times> int, listener) gomap"

definition agg_add :: "string \<Rightarrow> int \<Rightarrow> int \<Rightarrow> string \<Rightarrow> aggregate \<Rightarrow> aggregate" where
  "agg_add source pid port addr agg =
    (let l = (case gm_get agg (pid, port) of
                None \<Rightarrow> \<lparr>L_PID = pid, L_Port = port, L_Protocol = ''tcp'', L_Addrs = [], L_Source = source\<rparr>
              | Some l \<Rightarrow> l)
     in gm_put (pid, port) (l\<lparr>L_Addrs := L_Addrs l @ [addr]\<rparr>) agg)"

text \<open>
  The end of both scans: the values in the order the runtime visits them, their addresses sorted,
  and the whole sorted by port and process (\<open>sort.Slice\<close>, whose result is unique because no two
  values share both).
\<close>

definition collect :: "(aggregate \<Rightarrow> aggregate) \<Rightarrow> aggregate \<Rightarrow> listener list" where
  "collect iter agg =
    sort_key key_of (map (\<lambda>(_, l). l\<lparr>L_Addrs := sort (L_Addrs l)\<rparr>) (range_order iter agg))"

section \<open>lsof\<close>

definition lsofName :: string where "lsofName = ''lsof''"

text \<open>The three shapes of an address; every slice the code takes is within bounds.\<close>

definition splitHostPort :: "string \<Rightarrow> (string \<times> int) option" where
  "splitHostPort node =
    (if has_prefix ''['' node then
       (case last_index_byte CHR '']'' node of
          None \<Rightarrow> None
        | Some e \<Rightarrow>
            if length node < e + 2 \<or> node ! (e + 1) \<noteq> CHR '':'' then None
            else (case atoi (drop (e + 2) node) of
                    None \<Rightarrow> None
                  | Some port \<Rightarrow> Some (drop 1 (take e node), port)))
     else
       (case last_index_byte CHR '':'' node of
          None \<Rightarrow> None
        | Some i \<Rightarrow>
            let host = (if take i node = ''*'' then ''0.0.0.0'' else take i node)
            in (case atoi (drop (i + 1) node) of None \<Rightarrow> None | Some port \<Rightarrow> Some (host, port))))"

record lsof_state =
  curPID :: int
  curProto :: string
  lsof_agg :: aggregate

definition lsof_line :: "int \<Rightarrow> int \<Rightarrow> int \<Rightarrow> string \<Rightarrow> lsof_state \<Rightarrow> lsof_state" where
  "lsof_line portMin portMax excludePID raw st =
    (case trim_right_char CHR 0x0D raw of
       [] \<Rightarrow> st
     | tag # body \<Rightarrow>
         if tag = CHR ''p'' then
           (case atoi body of
              None \<Rightarrow> st\<lparr>curPID := 0\<rparr>
            | Some pid \<Rightarrow> st\<lparr>curPID := pid, curProto := []\<rparr>)
         else if tag = CHR ''P'' then st\<lparr>curProto := body\<rparr>
         else if tag = CHR ''n'' then
           (if curPID st = 0 \<or> curPID st = excludePID then st
            else if \<not> equal_fold (curProto st) ''TCP'' then st
            else (case splitHostPort body of
                    None \<Rightarrow> st
                  | Some (host, port) \<Rightarrow>
                      if port < portMin \<or> portMax < port then st
                      else st\<lparr>lsof_agg := agg_add lsofName (curPID st) port
                             (join_host_port host (itoa port)) (lsof_agg st)\<rparr>))
         else st)"

definition parseLsofF :: "(aggregate \<Rightarrow> aggregate) \<Rightarrow> string \<Rightarrow> int \<Rightarrow> int \<Rightarrow> int \<Rightarrow> listener list" where
  "parseLsofF iter data portMin portMax excludePID =
    collect iter (lsof_agg (fold (lsof_line portMin portMax excludePID) (split_on CHR 0x0A data)
      \<lparr>curPID = 0, curProto = [], lsof_agg = []\<rparr>))"

text \<open>
  The run of the command: the context before and after, what it wrote, and the error of
  \<open>cmd.Output()\<close>, an \<open>*exec.ExitError\<close> with its code (\<open>-1\<close> when a signal ended the process) or another.
\<close>

datatype ctx_error = Canceled | DeadlineExceeded
datatype exec_error = ExitError int | StartError

record lsof_run =
  ctx_before :: "ctx_error option"
  ctx_after :: "ctx_error option"
  lsof_out :: string
  lsof_err :: "exec_error option"
  lsof_iter :: "aggregate \<Rightarrow> aggregate"

datatype scan_error =
    ErrCtx ctx_error | ErrLsofExit int | ErrLsof | ErrListPids int
  | ErrNilConfig | ErrUnknownScanner string | ErrNoLibproc

definition lsof_Scan :: "config \<Rightarrow> int \<Rightarrow> lsof_run \<Rightarrow> scan_error + listener list" where
  "lsof_Scan cfg self r =
    (case ctx_before r of
       Some e \<Rightarrow> Inl (ErrCtx e)
     | None \<Rightarrow>
         (case ctx_after r of
            Some e \<Rightarrow> Inl (ErrCtx e)
          | None \<Rightarrow>
              let listeners = parseLsofF (lsof_iter r) (lsof_out r) (PortMin cfg) (PortMax cfg) self
              in (case lsof_err r of
                    Some (ExitError code) \<Rightarrow>
                      if code \<le> 1 then Inr listeners
                      else if length listeners = 0 then Inl (ErrLsofExit code)
                      else Inr listeners
                  | Some StartError \<Rightarrow> Inl ErrLsof
                  | None \<Rightarrow> Inr listeners)))"

section \<open>libproc\<close>

definition libprocName :: string where "libprocName = ''libproc''"
definition proxFdTypeSocket :: "32 word" where "proxFdTypeSocket = 2"

text \<open>
  What \<open>proc_pidfdinfo\<close> fills in for a socket: kind and state, the local port in network order in
  the low half of an \<open>int\<close>, the version flags, and the two readings of the local address by
  \<open>inet_ntop\<close>.
\<close>

record socket_fdinfo =
  soi_tcp :: bool
  tcp_listen :: bool
  insi_lport :: "32 word"
  insi_vflag :: byte
  text_ipv4 :: string
  text_ipv6 :: string

text \<open>
  The kernel: each query with what it returns. The table fills return the count (of processes, of
  bytes) and the contents of the buffer, of the number of slots given.
\<close>

record kernel =
  pid_count :: int
  pid_fill :: "nat \<Rightarrow> int \<times> int list"
  bsd_uid :: "int \<Rightarrow> (32 word) option"
  fd_bytes :: "int \<Rightarrow> int"
  fdinfoSize :: nat
  fd_fill :: "int \<Rightarrow> nat \<Rightarrow> int \<times> (int \<times> 32 word) list"
  fd_socket :: "int \<Rightarrow> int \<Rightarrow> socket_fdinfo option"
  expired :: "nat \<Rightarrow> ctx_error option"
  k_iter :: "aggregate \<Rightarrow> aggregate"

record tcp_listener =
  pm_port :: "16 word"
  pm_laddr :: string

definition ntohs :: "16 word \<Rightarrow> 16 word" where
  "ntohs w = word_of_nat (unat w mod 256 * 256 + unat w div 256)"

definition INI_IPV4 :: byte where "INI_IPV4 = 1"
definition INI_IPV6 :: byte where "INI_IPV6 = 2"

definition pm_inspect_fd :: "kernel \<Rightarrow> int \<Rightarrow> int \<Rightarrow> tcp_listener option" where
  "pm_inspect_fd k pid fd =
    (case fd_socket k pid fd of
       None \<Rightarrow> None
     | Some si \<Rightarrow>
         if \<not> soi_tcp si then None
         else if \<not> tcp_listen si then None
         else Some \<lparr>pm_port = ntohs (ucast (insi_lport si)),
                    pm_laddr = (if and (insi_vflag si) INI_IPV6 \<noteq> 0 \<and> and (insi_vflag si) INI_IPV4 = 0
                                then text_ipv6 si else text_ipv4 si)\<rparr>)"

definition listAllPIDs :: "kernel \<Rightarrow> scan_error + int list" where
  "listAllPIDs k =
    (if pid_count k \<le> 0 then Inl (ErrListPids (pid_count k))
     else let slots = nat (pid_count k) + 128;
              (n, buf) = pid_fill k slots
          in if n \<le> 0 then Inl (ErrListPids n)
             else Inr (take (if int slots < n then slots else nat n) buf))"

definition libproc_fd :: "kernel \<Rightarrow> int \<Rightarrow> int \<Rightarrow> int \<Rightarrow> int \<times> 32 word \<Rightarrow> aggregate \<Rightarrow> aggregate" where
  "libproc_fd k portMin portMax pid = (\<lambda>(fd, fdtype) agg.
    if fdtype \<noteq> proxFdTypeSocket then agg
    else case pm_inspect_fd k pid fd of
      None \<Rightarrow> agg
    | Some info \<Rightarrow>
        let port = uint (pm_port info) in
        if port < portMin \<or> portMax < port then agg
        else let laddr = (if pm_laddr info = [] then ''0.0.0.0'' else pm_laddr info)
             in agg_add libprocName pid port (join_host_port laddr (itoa port)) agg)"

definition libproc_fds :: "kernel \<Rightarrow> int \<Rightarrow> (int \<times> 32 word) list" where
  "libproc_fds k pid =
    (let bufBytes = fd_bytes k pid in
     if bufBytes \<le> 0 then []
     else let slotCount = nat bufBytes div fdinfoSize k + 16;
              (n, fdBuf) = fd_fill k pid slotCount
          in if n \<le> 0 then []
             else let nfds = nat n div fdinfoSize k
                  in take (if slotCount < nfds then slotCount else nfds) fdBuf)"

fun libproc_pids :: "kernel \<Rightarrow> int \<Rightarrow> int \<Rightarrow> int \<Rightarrow> 32 word \<Rightarrow> nat \<Rightarrow> int list \<Rightarrow> aggregate
    \<Rightarrow> scan_error + aggregate" where
  "libproc_pids k portMin portMax ownPID ownUID i [] agg = Inr agg"
| "libproc_pids k portMin portMax ownPID ownUID i (pid # pids) agg =
    (case expired k i of
       Some e \<Rightarrow> Inl (ErrCtx e)
     | None \<Rightarrow>
         if pid \<le> 0 \<or> pid = ownPID then libproc_pids k portMin portMax ownPID ownUID (Suc i) pids agg
         else case bsd_uid k pid of
           None \<Rightarrow> libproc_pids k portMin portMax ownPID ownUID (Suc i) pids agg
         | Some uid \<Rightarrow>
             if uid \<noteq> ownUID then libproc_pids k portMin portMax ownPID ownUID (Suc i) pids agg
             else libproc_pids k portMin portMax ownPID ownUID (Suc i) pids
                    (fold (libproc_fd k portMin portMax pid) (libproc_fds k pid) agg))"

definition libproc_Scan :: "config \<Rightarrow> int \<Rightarrow> 32 word \<Rightarrow> ctx_error option \<Rightarrow> kernel \<Rightarrow> scan_error + listener list" where
  "libproc_Scan cfg self ownUID ctx k =
    (case ctx of
       Some e \<Rightarrow> Inl (ErrCtx e)
     | None \<Rightarrow>
         (case listAllPIDs k of
            Inl e \<Rightarrow> Inl e
          | Inr pids \<Rightarrow>
              (case libproc_pids k (PortMin cfg) (PortMax cfg) self ownUID 0 pids [] of
                 Inl e \<Rightarrow> Inl e
               | Inr agg \<Rightarrow> Inr (collect (k_iter k) agg))))"

section \<open>Selection\<close>

datatype scanner_kind = LibprocScanner | LsofScanner

definition defaultScannerName :: "bool \<Rightarrow> string" where
  "defaultScannerName darwin = (if darwin then ''libproc'' else ''lsof'')"

definition NewLsof :: "config option \<Rightarrow> scan_error + scanner_kind" where
  "NewLsof cfg = (if cfg = None then Inl ErrNilConfig else Inr LsofScanner)"

text \<open>\<open>NewLibproc\<close> of the darwin build, and the stub of every other one.\<close>

definition NewLibproc :: "config option \<Rightarrow> scan_error + scanner_kind" where
  "NewLibproc cfg = (if cfg = None then Inl ErrNilConfig else Inr LibprocScanner)"

definition NewLibproc_stub :: "config option \<Rightarrow> scan_error + scanner_kind" where
  "NewLibproc_stub cfg = Inl ErrNoLibproc"

fun Name :: "scanner_kind \<Rightarrow> string" where
  "Name LsofScanner = lsofName"
| "Name LibprocScanner = libprocName"

definition Auto :: "bool \<Rightarrow> config option \<Rightarrow> scan_error + scanner_kind" where
  "Auto darwin cfg =
    (case cfg of
       None \<Rightarrow> Inl ErrNilConfig
     | Some c \<Rightarrow>
         let name = (if ScannerName c = [] \<or> ScannerName c = ''auto'' then defaultScannerName darwin
                     else ScannerName c)
         in if name = ''libproc'' then (if darwin then NewLibproc cfg else NewLibproc_stub cfg)
            else if name = ''lsof'' then NewLsof cfg
            else Inl (ErrUnknownScanner name))"

end
