(* ===== verification/Process.thy ===== *)
theory Process
  imports Store Scanner Inspector
begin

text \<open>
  \<^verbatim>\<open>internal/process/process.go\<close>: Kill with its guards and its escalation, Restart and the
  detached spawn.

  The processes of the host are a table from pids to the process that holds the pid now; a process
  is told from a later holder of the same pid by its birth number. A signal is delivered to the
  holder at that moment. The goroutine that escalates is a value that waits for its turn, so that
  exits, new processes and other requests can come between any two of its actions.
\<close>

section \<open>The host\<close>

datatype signal = SIG0 | SIGTERM | SIGKILL

record proc =
  birth :: nat
  foreign :: bool

record signalled =
  sg_at :: gotime
  sg_signal :: signal
  sg_pid :: int
  sg_birth :: nat

text \<open>The escalation of one Kill: asleep until the end of the grace window, then between its probe and its signal.\<close>

datatype escalation = Sleeping gotime int | Probed gotime int

record world =
  w_now :: gotime
  w_table :: "int \<Rightarrow> proc option"
  w_births :: nat
  w_log :: "signalled list"
  w_pending :: "escalation list"

text \<open>\<open>kill(2)\<close>: no process, a process of another user, or delivery to the holder of the pid.\<close>

definition kill_syscall :: "signal \<Rightarrow> int \<Rightarrow> world \<Rightarrow> errno option \<times> world" where
  "kill_syscall sig pid w =
    (case w_table w pid of
       None \<Rightarrow> (Some ESRCH, w)
     | Some p \<Rightarrow>
         if foreign p then (Some EPERM, w)
         else if sig = SIG0 then (None, w)
         else (None, w\<lparr>w_log := w_log w @ [\<lparr>sg_at = w_now w, sg_signal = sig, sg_pid = pid, sg_birth = birth p\<rparr>]\<rparr>))"

text \<open>On Unix \<open>os.FindProcess\<close> always succeeds, whether or not the process exists.\<close>

definition FindProcess :: "int \<Rightarrow> int option" where "FindProcess pid = Some pid"

text \<open>What a scan sees of the host, for either scanner.\<close>

record host =
  h_darwin :: bool
  h_uid :: "32 word"
  h_ctx :: "ctx_error option"
  h_lsof :: lsof_run
  h_kernel :: kernel

section \<open>The manager\<close>

text \<open>A scanner factory: the error of the constructor, or the result of the scan.\<close>

type_synonym factory = "host \<Rightarrow> scan_error + (scan_error + listener list)"

record manager =
  m_grace :: duration
  m_killReturnBudget :: duration
  m_store :: bool
  m_newScanner :: factory
  m_selfPID :: int

datatype manager_option = WithStore bool | WithScannerFactory factory | WithKillReturnBudget duration

fun apply_option :: "manager_option \<Rightarrow> manager \<Rightarrow> manager" where
  "apply_option (WithStore s) m = m\<lparr>m_store := s\<rparr>"
| "apply_option (WithScannerFactory f) m = m\<lparr>m_newScanner := f\<rparr>"
| "apply_option (WithKillReturnBudget d) m = m\<lparr>m_killReturnBudget := d\<rparr>"

definition auto_factory :: "config \<Rightarrow> int \<Rightarrow> factory" where
  "auto_factory cfg self h =
    (case Auto (h_darwin h) (Some cfg) of
       Inl e \<Rightarrow> Inl e
     | Inr LsofScanner \<Rightarrow> Inr (lsof_Scan cfg self (h_lsof h))
     | Inr LibprocScanner \<Rightarrow> Inr (libproc_Scan cfg self (h_uid h) (h_ctx h) (h_kernel h)))"

text \<open>\<open>time.Duration(ms) * time.Millisecond\<close> is a 64-bit product.\<close>

definition grace_of :: "int \<Rightarrow> duration" where
  "grace_of ms =
    (let grace = sint (word_of_int ms * word_of_int Millisecond :: 64 word)
     in if grace \<le> 0 then 3 * Second else grace)"

definition New_manager :: "config option \<Rightarrow> int \<Rightarrow> manager_option list \<Rightarrow> manager option" where
  "New_manager cfg self opts =
    (case cfg of
       None \<Rightarrow> None
     | Some c \<Rightarrow>
         Some (fold apply_option opts
           \<lparr>m_grace = grace_of (KillGraceMS c), m_killReturnBudget = 50 * Millisecond, m_store = False,
            m_newScanner = auto_factory c self, m_selfPID = self\<rparr>))"

definition KillGrace :: "manager \<Rightarrow> duration" where
  "KillGrace m = m_grace m"

section \<open>Kill\<close>

datatype process_error =
    ErrSelfPID | ErrUnknownPID | ErrScannerInit scan_error | ErrScan scan_error | ErrFindProcess
  | ErrSignal errno | ErrEmptyCommand | ErrStoreRequired | ErrRememberedNotFound
  | ErrDevNull | ErrDevNullWrite | ErrStart errno

definition verifyLive :: "manager \<Rightarrow> host \<Rightarrow> int \<Rightarrow> process_error option" where
  "verifyLive m h pid =
    (case m_newScanner m h of
       Inl e \<Rightarrow> Some (ErrScannerInit e)
     | Inr (Inl e) \<Rightarrow> Some (ErrScan e)
     | Inr (Inr listeners) \<Rightarrow>
         (case List.find (\<lambda>l. L_PID l = pid) listeners of
            Some _ \<Rightarrow> if pid = m_selfPID m then Some ErrSelfPID else None
          | None \<Rightarrow> Some ErrUnknownPID))"

definition Kill :: "manager \<Rightarrow> host \<Rightarrow> int \<Rightarrow> world \<Rightarrow> process_error option \<times> world" where
  "Kill m h pid w =
    (if pid = m_selfPID m then (Some ErrSelfPID, w)
     else if pid \<le> 1 then (Some ErrUnknownPID, w)
     else case verifyLive m h pid of
       Some e \<Rightarrow> (Some e, w)
     | None \<Rightarrow>
         (case FindProcess pid of
            None \<Rightarrow> (Some ErrFindProcess, w)
          | Some p \<Rightarrow>
              (case kill_syscall SIGTERM p w of
                 (Some e, w') \<Rightarrow> (Some (ErrSignal e), w')
               | (None, w') \<Rightarrow> (None, w'\<lparr>w_pending := w_pending w' @ [Sleeping (w_now w' + m_grace m) pid]\<rparr>))))"

definition isAlive :: "int \<Rightarrow> world \<Rightarrow> bool" where
  "isAlive pid w \<longleftrightarrow>
    (if pid \<le> 0 then False
     else case FindProcess pid of None \<Rightarrow> False | Some p \<Rightarrow> fst (kill_syscall SIG0 p w) = None)"

text \<open>One action of the escalating goroutine: what is left of it, and the world after.\<close>

fun escalate :: "escalation \<Rightarrow> world \<Rightarrow> escalation option \<times> world" where
  "escalate (Sleeping wake pid) w =
    (if w_now w < wake then (Some (Sleeping wake pid), w)
     else if \<not> isAlive pid w then (None, w)
     else (Some (Probed wake pid), w))"
| "escalate (Probed wake pid) w =
    (case FindProcess pid of
       None \<Rightarrow> (None, w)
     | Some p \<Rightarrow> (None, snd (kill_syscall SIGKILL p w)))"

section \<open>Spawn and restart\<close>

record spec =
  s_Command :: "string list"
  s_Cwd :: string
  s_Env :: "string list option"

text \<open>
  The fields of \<open>exec.Cmd\<close>. With a nil \<open>Env\<close> (\<open>None\<close>) the child gets the environment of the
  dashboard; \<open>append\<close> of no elements to a nil slice is nil.
\<close>

record child =
  c_Argv :: "string list"
  c_Dir :: string
  c_Env :: "string list option"
  c_Setsid :: bool

datatype fd = DevNullR | DevNullW

datatype spawn_event = OpenFd fd | CloseFd fd | Start child | Wait

text \<open>The calls that may fail: the two opens of \<^verbatim>\<open>/dev/null\<close> and the start, which yields the pid.\<close>

record spawn_env =
  open_r :: bool
  open_w :: bool
  start :: "child \<Rightarrow> errno + int"

definition append_nil :: "string list \<Rightarrow> string list option" where
  "append_nil xs = (if xs = [] then None else Some xs)"

definition spawn :: "spawn_env \<Rightarrow> spec \<Rightarrow> spawn_event list \<times> (process_error + int)" where
  "spawn env s =
    (case s_Command s of
       [] \<Rightarrow> ([], Inl ErrEmptyCommand)
     | argv0 # args \<Rightarrow>
         let cmd = \<lparr>c_Argv = argv0 # args, c_Dir = s_Cwd s,
                    c_Env = (case s_Env s of None \<Rightarrow> None | Some e \<Rightarrow> append_nil e), c_Setsid = True\<rparr>
         in if \<not> open_r env then ([], Inl ErrDevNull)
            else if \<not> open_w env then ([OpenFd DevNullR, CloseFd DevNullR], Inl ErrDevNullWrite)
            else case start env cmd of
              Inl e \<Rightarrow> ([OpenFd DevNullR, OpenFd DevNullW, Start cmd, CloseFd DevNullR, CloseFd DevNullW], Inl (ErrStart e))
            | Inr pid \<Rightarrow> ([OpenFd DevNullR, OpenFd DevNullW, Start cmd], Inr pid))"

text \<open>The reaper goroutine of a started child.\<close>

definition reap :: "spawn_event list" where
  "reap = [Wait, CloseFd DevNullR, CloseFd DevNullW]"

definition SpawnDetached :: "spawn_env \<Rightarrow> spec \<Rightarrow> spawn_event list \<times> process_error option" where
  "SpawnDetached env s =
    (case spawn env s of (ev, Inl e) \<Rightarrow> (ev, Some e) | (ev, Inr _) \<Rightarrow> (ev, None))"

definition SpawnForTest :: "spawn_env \<Rightarrow> spec \<Rightarrow> spawn_event list \<times> (process_error + int)" where
  "SpawnForTest env s = spawn env s"

definition Restart :: "manager \<Rightarrow> spawn_env \<Rightarrow> store \<Rightarrow> string \<Rightarrow> spawn_event list \<times> process_error option" where
  "Restart m env st rid =
    (if \<not> m_store m then ([], Some ErrStoreRequired)
     else case FindRemembered st rid of
       None \<Rightarrow> ([], Some ErrRememberedNotFound)
     | Some r \<Rightarrow>
         SpawnDetached env \<lparr>s_Command = r_Command r, s_Cwd = r_Cwd r, s_Env = Some (r_Env r)\<rparr>)"

end
