(* ===== verification/GoTime.thy ===== *)
theory GoTime
  imports Prelude
begin

text \<open>
  \<open>time.Duration.Seconds()\<close> and the conversion of its result to an integer.

  \<open>Seconds\<close> adds a whole number of seconds and a fraction in \<open>float64\<close>. Both the quotient and the
  sum are rounded to 53 bits, ties to even; the conversion to an integer then truncates.
\<close>

fun bitlen :: "nat \<Rightarrow> nat" where
  "bitlen n = (if n = 0 then 0 else Suc (bitlen (n div 2)))"

declare bitlen.simps [simp del]

lemma less_bitlen: "n < 2 ^ bitlen n"
proof (induction n rule: bitlen.induct)
  case (1 n)
  then show ?case by (cases "n = 0") (simp_all add: bitlen.simps [of n])
qed

lemma bitlen_le: "n < 2 ^ b \<Longrightarrow> bitlen n \<le> b"
proof (induction n arbitrary: b rule: bitlen.induct)
  case (1 n)
  show ?case
  proof (cases "n = 0")
    case False
    then obtain c where b: "b = Suc c" using 1(2) by (cases b) auto
    then have "n div 2 < 2 ^ c" using 1(2) by simp
    then show ?thesis using 1(1) [OF False] b False by (simp add: bitlen.simps [of n])
  qed (simp add: bitlen.simps)
qed

text \<open>The integer nearest to \<open>p / q\<close>, the even one of two.\<close>

definition nearest :: "nat \<Rightarrow> nat \<Rightarrow> nat" where
  "nearest p q = (if 2 * (p mod q) < q \<or> 2 * (p mod q) = q \<and> even (p div q) then p div q else p div q + 1)"

lemma nearest_le: "0 < q \<Longrightarrow> 2 * (q * nearest p q) \<le> 2 * p + q"
proof -
  assume q: "0 < q"
  define a r where "a = p div q" and "r = p mod q"
  have p: "p = q * a + r" by (simp add: a_def r_def)
  have "r < q" using q by (simp add: r_def)
  moreover have "nearest p q = a \<or> nearest p q = a + 1 \<and> q \<le> 2 * r"
    by (auto simp: nearest_def a_def r_def)
  ultimately show ?thesis unfolding p by (auto simp: algebra_simps)
qed

lemma div_le_nearest: "p div q \<le> nearest p q"
  by (simp add: nearest_def)

text \<open>
  The fraction \<open>nsec / 10\<^sup>9\<close> is \<open>m / 2 ^ k\<close> after rounding, with \<open>k\<close> chosen so that \<open>m\<close> has 53 bits;
  the sum is rounded to a multiple of \<open>2 ^ - k'\<close>.
\<close>

definition int_seconds_nat :: "nat \<Rightarrow> nat" where
  "int_seconds_nat d =
    (let sec = d div 1000000000; nsec = d mod 1000000000 in
     if nsec = 0 then sec
     else
       let k = 52 + bitlen (999999999 div nsec);
           m = nearest (nsec * 2 ^ k) 1000000000
       in if sec = 0 then m div 2 ^ k
          else let k' = 53 - bitlen sec
               in nearest (sec * 2 ^ k + m) (2 ^ (k - k')) div 2 ^ k')"

definition int_seconds :: "duration \<Rightarrow> int" where
  "int_seconds d = (if 0 \<le> d then int (int_seconds_nat (nat d)) else - int (int_seconds_nat (nat (- d))))"

lemma div_eqI: "a * b \<le> (x::nat) \<Longrightarrow> x < (a + 1) * b \<Longrightarrow> x div b = a"
  by (metis Suc_eq_plus1 div_nat_eqI mult.commute)

lemma fraction_bound:
  assumes "nsec \<le> 999999999"
  shows "1000000000 * (2 * nearest (nsec * 2 ^ k) 1000000000) \<le> 1999999998 * 2 ^ k + 1000000000"
proof -
  have "nsec * 2 ^ k \<le> 999999999 * 2 ^ k" using assms by (rule mult_le_mono1)
  then show ?thesis using nearest_le [of 1000000000 "nsec * 2 ^ k"] by linarith
qed

text \<open>Up to \<open>2 ^ 24\<close> seconds (194 days) the roundings do not reach the next second.\<close>

lemma int_seconds_nat_exact:
  assumes "d div 1000000000 < 2 ^ 24"
  shows "int_seconds_nat d = d div 1000000000"
proof -
  define sec nsec where "sec = d div 1000000000" and "nsec = d mod 1000000000"
  show ?thesis
  proof (cases "nsec = 0")
    case True
    then show ?thesis by (simp add: int_seconds_nat_def Let_def nsec_def)
  next
    case False
    define k m where "k = 52 + bitlen (999999999 div nsec)" and "m = nearest (nsec * 2 ^ k) 1000000000"
    have "nsec < 1000000000" by (simp add: nsec_def)
    then have nsec: "nsec \<le> 999999999" by simp
    have bound: "1000000000 * (2 * m) \<le> 1999999998 * 2 ^ k + 1000000000"
      unfolding m_def by (rule fraction_bound [OF nsec])
    have "0 < 999999999 div nsec" using nsec False by (simp add: div_greater_zero_iff)
    then have "53 \<le> k" by (simp add: k_def bitlen.simps [of "999999999 div nsec"])
    then have big: "(2::nat) ^ 53 \<le> 2 ^ k" by (rule power_increasing) simp
    show ?thesis
    proof (cases "sec = 0")
      case True
      have "m < 2 ^ k" using bound big by simp
      then show ?thesis using True False
        by (simp add: int_seconds_nat_def Let_def m_def k_def nsec_def sec_def)
    next
      case sec: False
      define k' where "k' = 53 - bitlen sec"
      define q :: nat where "q = 2 ^ (k - k')"
      have "bitlen sec \<le> 24" using assms by (intro bitlen_le) (simp add: sec_def)
      then have k': "29 \<le> k'" "k' \<le> 53" by (simp_all add: k'_def)
      then have split: "q * 2 ^ k' = 2 ^ k" using \<open>53 \<le> k\<close> by (simp add: q_def flip: power_add)
      have "(2::nat) ^ 29 \<le> 2 ^ k'" using k'(1) by (rule power_increasing) simp
      then have "q * 2 ^ 29 \<le> 2 ^ k" using split by (metis mult_le_mono2)
      then have small: "2 * m + q < 2 * 2 ^ k" using bound big by simp
      let ?n = "nearest (sec * 2 ^ k + m) q"
      have "0 < q" by (simp add: q_def)
      have "sec * 2 ^ k' = (sec * 2 ^ k) div q"
        using \<open>0 < q\<close> by (simp flip: split)
      also have "\<dots> \<le> (sec * 2 ^ k + m) div q" by (rule div_le_mono) simp
      also have "\<dots> \<le> ?n" by (rule div_le_nearest)
      finally have low: "sec * 2 ^ k' \<le> ?n" .
      have "2 * (q * ?n) \<le> 2 * (sec * 2 ^ k + m) + q" by (rule nearest_le [OF \<open>0 < q\<close>])
      also have "\<dots> < 2 * (q * ((sec + 1) * 2 ^ k'))"
        using small by (simp add: split [symmetric] algebra_simps)
      finally have high: "?n < (sec + 1) * 2 ^ k'" by simp
      have "?n div 2 ^ k' = sec" by (rule div_eqI [OF low high])
      then show ?thesis using sec False
        by (simp add: int_seconds_nat_def Let_def q_def k'_def m_def k_def nsec_def sec_def)
    qed
  qed
qed

lemma int_seconds_exact:
  "0 \<le> d \<Longrightarrow> d < 2 ^ 24 * Second \<Longrightarrow> int_seconds d = d div Second"
proof -
  assume d: "0 \<le> d" "d < 2 ^ 24 * Second"
  then have "nat d div 1000000000 < 2 ^ 24" by (simp add: time_units less_mult_imp_div_less)
  from int_seconds_nat_exact [OF this] d(1) show ?thesis
    by (simp add: int_seconds_def time_units zdiv_int)
qed

end
