(* ===== verification/ScannerFacts.thy ===== *)
theory ScannerFacts
  imports Scanner
begin

text \<open>
  Properties of \<^verbatim>\<open>internal/scanner\<close>: the contract both scanners meet, what each of them reports,
  and the parsing of \<^verbatim>\<open>lsof\<close>'s records.
\<close>

section \<open>The contract of a scanner\<close>

definition scan_ok :: "int \<Rightarrow> int \<Rightarrow> int \<Rightarrow> listener list \<Rightarrow> bool" where
  "scan_ok lo hi self ls \<longleftrightarrow>
    sorted (map key_of ls) \<and> distinct (map key_of ls)
    \<and> list_all (\<lambda>l. lo \<le> L_Port l \<and> L_Port l \<le> hi \<and> L_PID l \<noteq> self \<and> L_Protocol l = ''tcp''
        \<and> L_Addrs l \<noteq> [] \<and> sorted (L_Addrs l)) ls"

locale listener_scan =
  fixes scan :: "'env \<Rightarrow> scan_error + listener list"
    and lo hi self :: int
  assumes scan_result: "scan env = Inr ls \<Longrightarrow> scan_ok lo hi self ls"
begin

lemma never_self: "scan env = Inr ls \<Longrightarrow> l \<in> set ls \<Longrightarrow> L_PID l \<noteq> self"
  using scan_result [of env ls] by (auto simp: scan_ok_def list_all_iff)

lemma in_range: "scan env = Inr ls \<Longrightarrow> l \<in> set ls \<Longrightarrow> lo \<le> L_Port l \<and> L_Port l \<le> hi"
  using scan_result [of env ls] by (auto simp: scan_ok_def list_all_iff)

lemma keys_determine:
  assumes "scan env = Inr ls" and "scan_ok lo hi self ls'" and "key_of ` set ls = key_of ` set ls'"
  shows "map key_of ls = map key_of ls'"
  using scan_result [OF assms(1)] assms(2,3) by (simp add: scan_ok_def sorted_distinct_set_unique)

lemma one_listener:
  "scan env = Inr ls \<Longrightarrow> l \<in> set ls \<Longrightarrow> l' \<in> set ls \<Longrightarrow> L_PID l = L_PID l' \<Longrightarrow> L_Port l = L_Port l' \<Longrightarrow> l = l'"
  using scan_result [of env ls] unfolding scan_ok_def distinct_map inj_on_def by (simp add: key_of_def)

end

section \<open>Aggregation\<close>

definition agg_ok :: "int \<Rightarrow> int \<Rightarrow> int \<Rightarrow> aggregate \<Rightarrow> bool" where
  "agg_ok lo hi self agg \<longleftrightarrow> gm_ok agg \<and>
    (\<forall>pid port l. gm_get agg (pid, port) = Some l \<longrightarrow> L_PID l = pid \<and> L_Port l = port
       \<and> lo \<le> port \<and> port \<le> hi \<and> pid \<noteq> self \<and> L_Protocol l = ''tcp'' \<and> L_Addrs l \<noteq> [])"

definition agg_has :: "aggregate \<Rightarrow> int \<Rightarrow> int \<Rightarrow> string \<Rightarrow> bool" where
  "agg_has agg pid port a \<longleftrightarrow> (case gm_get agg (pid, port) of None \<Rightarrow> False | Some l \<Rightarrow> a \<in> set (L_Addrs l))"

definition reported :: "listener list \<Rightarrow> int \<Rightarrow> int \<Rightarrow> string \<Rightarrow> bool" where
  "reported ls pid port a \<longleftrightarrow> list_ex (\<lambda>l. L_PID l = pid \<and> L_Port l = port \<and> a \<in> set (L_Addrs l)) ls"

lemma agg_ok_Nil [simp]: "agg_ok lo hi self []"
  by (simp add: agg_ok_def)

lemma agg_has_Nil [simp]: "\<not> agg_has [] pid port a"
  by (simp add: agg_has_def)

lemma agg_add_ok:
  "agg_ok lo hi self agg \<Longrightarrow> lo \<le> port \<Longrightarrow> port \<le> hi \<Longrightarrow> pid \<noteq> self \<Longrightarrow>
   agg_ok lo hi self (agg_add src pid port a agg)"
  by (auto simp: agg_ok_def agg_add_def Let_def update_conv' split: option.splits)

lemma agg_add_has:
  "agg_has (agg_add src pid port a agg) p q b \<longleftrightarrow> agg_has agg p q b \<or> p = pid \<and> q = port \<and> b = a"
  by (auto simp: agg_has_def agg_add_def Let_def update_conv' split: option.splits)

definition finished :: "listener \<Rightarrow> listener" where
  "finished l = l\<lparr>L_Addrs := sort (L_Addrs l)\<rparr>"

lemma collect_eq:
  "collect iter agg = sort_key key_of (map (finished \<circ> snd) (range_order iter agg))"
  by (simp add: collect_def finished_def comp_def case_prod_unfold)

lemma agg_values:
  assumes "agg_ok lo hi self agg" and "((pid, port), l) \<in> set agg"
  shows "L_PID l = pid \<and> L_Port l = port \<and> lo \<le> port \<and> port \<le> hi \<and> pid \<noteq> self \<and> L_Protocol l = ''tcp'' \<and> L_Addrs l \<noteq> []"
proof -
  have "gm_get agg (pid, port) = Some l" using assms by (simp add: agg_ok_def gm_get_in_set)
  with assms(1) show ?thesis unfolding agg_ok_def by blast
qed

lemma keys_distinct:
  assumes ok: "agg_ok lo hi self agg"
  shows "distinct (map key_of (map (finished \<circ> snd) agg))"
proof -
  have "map key_of (map (finished \<circ> snd) agg) = map (\<lambda>(pid, port). ListenerKey port pid) (map fst agg)"
    using agg_values [OF ok] by (auto simp: finished_def key_of_def)
  moreover have "distinct (map (\<lambda>(pid, port). ListenerKey port pid) (map fst agg))"
    unfolding distinct_map [of "\<lambda>(pid, port). ListenerKey port pid"]
    using ok by (auto simp: agg_ok_def gm_ok_def intro!: inj_onI)
  ultimately show ?thesis by (simp only:)
qed

lemma collect_order_irrelevant:
  assumes "agg_ok lo hi self agg"
  shows "collect iter agg = collect iter' agg"
proof -
  let ?k = key_of and ?vs = "\<lambda>m. map (finished \<circ> snd) m"
  have "mset (?vs (range_order iter agg)) = mset (?vs (range_order iter' agg))"
    by (simp only: mset_map mset_range_order)
  moreover have "set (?vs (range_order iter agg)) = set (?vs agg)" by simp
  moreover have "inj_on ?k (set (?vs agg))" using keys_distinct [OF assms] by (simp only: distinct_map)
  ultimately show ?thesis
    unfolding collect_eq
    by (intro sort_key_inj_key_eq [of _ _ ?k, THEN trans]) (simp_all add: sort_key_inj_key_eq)
qed

lemma collect_reported:
  assumes "agg_ok lo hi self agg"
  shows "reported (collect iter agg) pid port a \<longleftrightarrow> agg_has agg pid port a"
proof -
  have "reported (collect iter agg) pid port a
    \<longleftrightarrow> (\<exists>e \<in> set agg. L_PID (snd e) = pid \<and> L_Port (snd e) = port \<and> a \<in> set (L_Addrs (snd e)))"
    by (auto simp: reported_def list_ex_iff collect_eq finished_def)
  also have "\<dots> \<longleftrightarrow> (\<exists>l. ((pid, port), l) \<in> set agg \<and> a \<in> set (L_Addrs l))"
  proof
    assume "\<exists>e \<in> set agg. L_PID (snd e) = pid \<and> L_Port (snd e) = port \<and> a \<in> set (L_Addrs (snd e))"
    then obtain p q l where "((p, q), l) \<in> set agg" "L_PID l = pid" "L_Port l = port" "a \<in> set (L_Addrs l)"
      by auto
    with agg_values [OF assms] show "\<exists>l. ((pid, port), l) \<in> set agg \<and> a \<in> set (L_Addrs l)" by blast
  next
    assume "\<exists>l. ((pid, port), l) \<in> set agg \<and> a \<in> set (L_Addrs l)"
    then obtain l where "((pid, port), l) \<in> set agg" "a \<in> set (L_Addrs l)" by blast
    with agg_values [OF assms] show "\<exists>e \<in> set agg. L_PID (snd e) = pid \<and> L_Port (snd e) = port \<and> a \<in> set (L_Addrs (snd e))"
      by (intro bexI [of _ "((pid, port), l)"]) auto
  qed
  also have "\<dots> \<longleftrightarrow> agg_has agg pid port a"
    using assms by (auto simp: agg_has_def agg_ok_def gm_get_in_set [symmetric] split: option.split)
  finally show ?thesis .
qed

lemma collect_ok:
  assumes ok: "agg_ok lo hi self agg"
  shows "scan_ok lo hi self (collect iter agg)"
proof -
  let ?k = key_of and ?vs = "\<lambda>m. map (finished \<circ> snd) m"
  have "mset (map ?k (collect iter agg)) = mset (map ?k (?vs agg))"
    by (simp only: collect_eq mset_map mset_sort mset_range_order)
  then have "distinct (map ?k (collect iter agg))"
    using keys_distinct [OF ok] mset_eq_imp_distinct_iff by blast
  moreover have "list_all (\<lambda>l. lo \<le> L_Port l \<and> L_Port l \<le> hi \<and> L_PID l \<noteq> self \<and> L_Protocol l = ''tcp''
        \<and> L_Addrs l \<noteq> [] \<and> sorted (L_Addrs l)) (collect iter agg)"
    using agg_values [OF ok] by (auto simp: list_all_iff collect_eq finished_def sorted_sort) (metis length_0_conv length_sort)+
  moreover have "sorted (map ?k (collect iter agg))" by (simp add: collect_eq)
  ultimately show ?thesis by (simp add: scan_ok_def)
qed

section \<open>lsof\<close>

lemma lsof_line_ok:
  "agg_ok lo hi self (lsof_agg st) \<Longrightarrow> agg_ok lo hi self (lsof_agg (lsof_line lo hi self raw st))"
  by (auto simp: lsof_line_def Let_def agg_add_ok split: list.split option.split)

lemma lsof_fold_ok:
  "agg_ok lo hi self (lsof_agg st) \<Longrightarrow> agg_ok lo hi self (lsof_agg (fold (lsof_line lo hi self) lines st))"
  by (induction lines arbitrary: st) (auto simp: lsof_line_ok)

lemma parseLsofF_ok: "scan_ok lo hi self (parseLsofF iter data lo hi self)"
  unfolding parseLsofF_def by (rule collect_ok) (rule lsof_fold_ok, simp)

lemma lsof_Scan_ok:
  "lsof_Scan cfg self r = Inr ls \<Longrightarrow> scan_ok (PortMin cfg) (PortMax cfg) self ls"
  using parseLsofF_ok
  by (auto simp: lsof_Scan_def Let_def split: option.splits exec_error.splits if_splits)

theorem parse_order_irrelevant: "parseLsofF iter data lo hi self = parseLsofF iter' data lo hi self"
  unfolding parseLsofF_def by (rule collect_order_irrelevant) (rule lsof_fold_ok, simp)

interpretation lsof: listener_scan "lsof_Scan cfg self" "PortMin cfg" "PortMax cfg" self for cfg self
  by unfold_locales (rule lsof_Scan_ok)

section \<open>libproc\<close>

lemma libproc_fd_ok:
  "agg_ok lo hi self agg \<Longrightarrow> pid \<noteq> self \<Longrightarrow> agg_ok lo hi self (libproc_fd k lo hi pid fd agg)"
  by (cases fd) (auto simp: libproc_fd_def Let_def agg_add_ok split: option.split)

lemma libproc_fds_ok:
  "agg_ok lo hi self agg \<Longrightarrow> pid \<noteq> self \<Longrightarrow> agg_ok lo hi self (fold (libproc_fd k lo hi pid) fds agg)"
  by (induction fds arbitrary: agg) (auto simp: libproc_fd_ok)

lemma libproc_pids_ok:
  "libproc_pids k lo hi self uid i pids agg = Inr agg' \<Longrightarrow> agg_ok lo hi self agg \<Longrightarrow> agg_ok lo hi self agg'"
  by (induction pids arbitrary: i agg)
     (fastforce split: option.splits if_splits simp: libproc_fds_ok)+

lemma libproc_Scan_ok:
  "libproc_Scan cfg self uid ctx k = Inr ls \<Longrightarrow> scan_ok (PortMin cfg) (PortMax cfg) self ls"
  by (auto simp: libproc_Scan_def split: option.splits sum.splits dest!: libproc_pids_ok intro: collect_ok)

interpretation libproc: listener_scan "libproc_Scan cfg self uid ctx" "PortMin cfg" "PortMax cfg" self for cfg self uid ctx
  by unfold_locales (rule libproc_Scan_ok)

text \<open>What the kernel shows: a socket of a process of this user that listens on a port in range.\<close>

definition listens :: "kernel \<Rightarrow> int \<Rightarrow> int \<Rightarrow> 32 word \<Rightarrow> int \<Rightarrow> int \<Rightarrow> string \<Rightarrow> bool" where
  "listens k lo hi uid pid port a \<longleftrightarrow>
    bsd_uid k pid = Some uid
    \<and> list_ex (\<lambda>(fd, ty). ty = proxFdTypeSocket \<and> (case pm_inspect_fd k pid fd of
          None \<Rightarrow> False
        | Some info \<Rightarrow> uint (pm_port info) = port \<and> lo \<le> port \<and> port \<le> hi
            \<and> a = join_host_port (if pm_laddr info = [] then ''0.0.0.0'' else pm_laddr info) (itoa port)))
      (libproc_fds k pid)"

lemma libproc_fd_has:
  "agg_has (libproc_fd k lo hi pid (fd, ty) agg) p q b \<longleftrightarrow> agg_has agg p q b \<or> p = pid \<and> ty = proxFdTypeSocket
    \<and> (case pm_inspect_fd k pid fd of None \<Rightarrow> False
       | Some info \<Rightarrow> uint (pm_port info) = q \<and> lo \<le> q \<and> q \<le> hi
            \<and> b = join_host_port (if pm_laddr info = [] then ''0.0.0.0'' else pm_laddr info) (itoa q))"
  by (auto simp: libproc_fd_def Let_def agg_add_has split: option.split)

lemma libproc_fold_has:
  "agg_has (fold (libproc_fd k lo hi pid) fds agg) p q b \<longleftrightarrow> agg_has agg p q b \<or> p = pid
    \<and> list_ex (\<lambda>(fd, ty). ty = proxFdTypeSocket \<and> (case pm_inspect_fd k pid fd of
          None \<Rightarrow> False
        | Some info \<Rightarrow> uint (pm_port info) = q \<and> lo \<le> q \<and> q \<le> hi
            \<and> b = join_host_port (if pm_laddr info = [] then ''0.0.0.0'' else pm_laddr info) (itoa q))) fds"
proof (induction fds arbitrary: agg)
  case (Cons x fds)
  obtain fd ty where x: "x = (fd, ty)" by (cases x)
  show ?case
    using Cons.IH [of "libproc_fd k lo hi pid x agg"] by (simp add: x libproc_fd_has) blast
qed simp

lemma libproc_pids_has:
  "libproc_pids k lo hi self uid i pids agg = Inr agg' \<Longrightarrow>
   agg_has agg' p q b \<longleftrightarrow> agg_has agg p q b \<or> p \<in> set pids \<and> 0 < p \<and> p \<noteq> self \<and> listens k lo hi uid p q b"
proof (induction pids arbitrary: i agg)
  case (Cons pid pids)
  have run: "expired k i = None"
    using Cons.prems by (auto split: option.splits)
  define skip where "skip \<longleftrightarrow> pid \<le> 0 \<or> pid = self \<or> bsd_uid k pid \<noteq> Some uid"
  define agg1 where "agg1 = (if skip then agg else fold (libproc_fd k lo hi pid) (libproc_fds k pid) agg)"
  have "libproc_pids k lo hi self uid (Suc i) pids agg1 = Inr agg'"
    using Cons.prems run by (auto simp: agg1_def skip_def split: option.splits if_splits)
  note Cons.IH [OF this]
  moreover have "agg_has agg1 p q b \<longleftrightarrow> agg_has agg p q b \<or> p = pid \<and> 0 < p \<and> p \<noteq> self \<and> listens k lo hi uid p q b"
    by (auto simp: agg1_def skip_def listens_def libproc_fold_has)
  ultimately show ?case by auto
qed simp

lemma libproc_has:
  assumes "libproc_Scan cfg self uid ctx k = Inr ls" and "listAllPIDs k = Inr pids"
  shows "reported ls pid port a \<longleftrightarrow>
    pid \<in> set pids \<and> 0 < pid \<and> pid \<noteq> self \<and> listens k (PortMin cfg) (PortMax cfg) uid pid port a"
proof -
  obtain agg where agg: "libproc_pids k (PortMin cfg) (PortMax cfg) self uid 0 pids [] = Inr agg"
    and ls: "ls = collect (k_iter k) agg"
    using assms by (auto simp: libproc_Scan_def split: option.splits sum.splits)
  have "agg_ok (PortMin cfg) (PortMax cfg) self agg" using libproc_pids_ok [OF agg] by simp
  then show ?thesis using libproc_pids_has [OF agg] by (simp add: ls collect_reported)
qed


section \<open>The records of lsof\<close>

text \<open>The three forms in which \<^verbatim>\<open>lsof -n\<close> writes a local address, and the address reported for each.\<close>

datatype node = AnyNode | Plain string | Bracketed string

fun node_text :: "node \<Rightarrow> int \<Rightarrow> string" where
  "node_text AnyNode p = ''*:'' @ itoa p"
| "node_text (Plain h) p = h @ '':'' @ itoa p"
| "node_text (Bracketed h) p = ''['' @ h @ '']:'' @ itoa p"

fun node_addr :: "node \<Rightarrow> int \<Rightarrow> string" where
  "node_addr AnyNode p = ''0.0.0.0:'' @ itoa p"
| "node_addr (Plain h) p = h @ '':'' @ itoa p"
| "node_addr (Bracketed h) p = ''['' @ h @ '']:'' @ itoa p"

fun node_ok :: "node \<Rightarrow> bool" where
  "node_ok AnyNode \<longleftrightarrow> True"
| "node_ok (Plain h) \<longleftrightarrow> h \<noteq> ''*'' \<and> \<not> has_prefix ''['' h \<and> CHR '':'' \<notin> set h \<and> CHR 0x0A \<notin> set h"
| "node_ok (Bracketed h) \<longleftrightarrow> CHR '':'' \<in> set h \<and> CHR 0x0A \<notin> set h"

definition port_ok :: "int \<Rightarrow> bool" where "port_ok p \<longleftrightarrow> 0 \<le> p \<and> p < 2 ^ 63"

lemma itoa_digits: "0 \<le> p \<Longrightarrow> itoa p \<noteq> [] \<and> list_all is_digit (itoa p)"
  using decimal_digits [of "nat p"] by (simp add: itoa_def)

lemma itoa_not: "0 \<le> p \<Longrightarrow> \<not> is_digit c \<Longrightarrow> c \<notin> set (itoa p)"
  using itoa_digits [of p] by (auto simp: list_all_iff)

lemma not_digits:
  "\<not> is_digit CHR '':''" "\<not> is_digit CHR '']''" "\<not> is_digit CHR ''[''" "\<not> is_digit CHR 0x0A" "\<not> is_digit CHR 0x0D"
  by (simp_all add: is_digit_def less_eq_char_def)

lemma splitHostPort_plain:
  assumes "\<not> has_prefix ''['' (h @ '':'' @ itoa p)" and "port_ok p"
  shows "splitHostPort (h @ '':'' @ itoa p) = Some (if h = ''*'' then ''0.0.0.0'' else h, p)"
proof -
  have p: "CHR '':'' \<notin> set (itoa p)" "atoi (itoa p) = Some p"
    using assms(2) itoa_not [of p "CHR '':''"] not_digits by (auto simp: port_ok_def intro!: atoi_itoa)
  then have "last_index_byte CHR '':'' (h @ '':'' @ itoa p) = Some (length h)"
    using last_index_byte_append [of "CHR '':''" "itoa p" h] by simp
  with assms(1) p show ?thesis by (simp add: splitHostPort_def Let_def)
qed

lemma splitHostPort_bracketed:
  assumes "port_ok p"
  shows "splitHostPort (''['' @ h @ '']:'' @ itoa p) = Some (h, p)"
proof -
  have p: "CHR '']'' \<notin> set (itoa p)" "atoi (itoa p) = Some p"
    using assms itoa_not [of p "CHR '']''"] not_digits by (auto simp: port_ok_def intro!: atoi_itoa)
  have "last_index_byte CHR '']'' ((''['' @ h) @ CHR '']'' # ('':'' @ itoa p)) = Some (length (''['' @ h))"
    by (rule last_index_byte_append) (use p in simp)
  then have "last_index_byte CHR '']'' (''['' @ h @ '']:'' @ itoa p) = Some (Suc (length h))" by simp
  moreover have "(''['' @ h @ '']:'' @ itoa p) ! (Suc (length h) + 1) = CHR '':''" by (simp add: nth_append)
  moreover have "drop (Suc (length h) + 2) (''['' @ h @ '']:'' @ itoa p) = itoa p" by simp
  moreover have "drop 1 (take (Suc (length h)) (''['' @ h @ '']:'' @ itoa p)) = h" by simp
  moreover have "has_prefix ''['' (''['' @ h @ '']:'' @ itoa p)" by (simp add: has_prefix_def)
  moreover have "\<not> length (''['' @ h @ '']:'' @ itoa p) < Suc (length h) + 2" by simp
  ultimately show ?thesis using p(2) by (simp only: splitHostPort_def if_True if_False option.case not_True_eq_False simp_thms)
qed

lemma node_address:
  assumes "node_ok n" and "port_ok p"
  shows "\<exists>h. splitHostPort (node_text n p) = Some (h, p) \<and> join_host_port h (itoa p) = node_addr n p"
proof (cases n)
  case AnyNode
  then show ?thesis using splitHostPort_plain [of "''*''" p] assms(2)
    by (simp add: has_prefix_def join_host_port_def)
next
  case (Plain h)
  have "\<not> has_prefix ''['' (h @ '':'' @ itoa p)"
    using assms(1) Plain by (cases h) (auto simp: has_prefix_def)
  then show ?thesis using splitHostPort_plain [of h p] assms Plain by (simp add: join_host_port_def)
next
  case (Bracketed h)
  then show ?thesis using splitHostPort_bracketed [of p h] assms by (simp add: join_host_port_def)
qed

text \<open>A socket: descriptor, protocol, address and port; a process with its sockets; the output.\<close>

type_synonym lsof_socket = "string \<times> string \<times> node \<times> int"
type_synonym lsof_process = "int \<times> lsof_socket list"

fun socket_lines :: "lsof_socket \<Rightarrow> string list" where
  "socket_lines (fd, proto, n, p) = [CHR ''f'' # fd, CHR ''P'' # proto, CHR ''n'' # node_text n p]"

fun process_lines :: "lsof_process \<Rightarrow> string list" where
  "process_lines (pid, socks) = (CHR ''p'' # itoa pid) # concat (map socket_lines socks)"

definition lsof_output :: "lsof_process list \<Rightarrow> string" where
  "lsof_output procs = join [CHR 0x0A] (concat (map process_lines procs) @ [[]])"

definition word_ok :: "string \<Rightarrow> bool" where
  "word_ok s \<longleftrightarrow> CHR 0x0A \<notin> set s \<and> CHR 0x0D \<notin> set s"

fun socket_ok :: "lsof_socket \<Rightarrow> bool" where
  "socket_ok (fd, proto, n, p) \<longleftrightarrow> word_ok fd \<and> word_ok proto \<and> node_ok n \<and> port_ok p"

fun process_ok :: "lsof_process \<Rightarrow> bool" where
  "process_ok (pid, socks) \<longleftrightarrow> 0 < pid \<and> pid < 2 ^ 63 \<and> list_all socket_ok socks"

fun socket_at :: "int \<Rightarrow> int \<Rightarrow> int \<Rightarrow> string \<Rightarrow> lsof_socket \<Rightarrow> bool" where
  "socket_at lo hi port a (fd, proto, n, p) \<longleftrightarrow>
    equal_fold proto ''TCP'' \<and> p = port \<and> lo \<le> port \<and> port \<le> hi \<and> a = node_addr n p"

lemma trim_right_keep: "s = [] \<or> last s \<noteq> c \<Longrightarrow> trim_right_char c s = s"
  by (cases s rule: rev_cases) (auto simp: trim_right_char_def)

lemma node_text_last: "port_ok p \<Longrightarrow> node_text n p \<noteq> [] \<and> last (node_text n p) \<noteq> CHR 0x0D"
proof -
  assume "port_ok p"
  then have "itoa p \<noteq> []" "is_digit (last (itoa p))"
    using itoa_digits [of p] by (auto simp: port_ok_def list_all_iff)
  then show ?thesis using not_digits(5) by (cases n) auto
qed

lemma word_last: "word_ok s \<Longrightarrow> c \<noteq> CHR 0x0D \<Longrightarrow> last (c # s) \<noteq> CHR 0x0D"
  by (cases s rule: rev_cases) (auto simp: word_ok_def)

lemma trim_word: "word_ok s \<Longrightarrow> c \<noteq> CHR 0x0D \<Longrightarrow> trim_right_char CHR 0x0D (c # s) = c # s"
  by (rule trim_right_keep) (simp only: word_last simp_thms)

lemma itoa_last: "0 \<le> p \<Longrightarrow> is_digit (last (itoa p))"
  using itoa_digits [of p] by (auto simp: list_all_iff)

lemma socket_step:
  assumes "socket_ok s" and "curPID st \<noteq> 0"
  shows "curPID (fold (lsof_line lo hi self) (socket_lines s) st) = curPID st
    \<and> (agg_has (lsof_agg (fold (lsof_line lo hi self) (socket_lines s) st)) pid port a \<longleftrightarrow>
        agg_has (lsof_agg st) pid port a \<or> pid = curPID st \<and> pid \<noteq> self \<and> socket_at lo hi port a s)"
proof -
  obtain fd proto n p where s: "s = (fd, proto, n, p)" by (cases s)
  have f: "lsof_line lo hi self (CHR ''f'' # fd) st = st"
    using assms s by (simp add: lsof_line_def trim_word)
  have P: "lsof_line lo hi self (CHR ''P'' # proto) st = st\<lparr>curProto := proto\<rparr>"
    using assms s by (simp add: lsof_line_def trim_word)
  obtain h where h: "splitHostPort (node_text n p) = Some (h, p)" "join_host_port h (itoa p) = node_addr n p"
    using node_address assms s by auto
  have "trim_right_char CHR 0x0D (CHR ''n'' # node_text n p) = CHR ''n'' # node_text n p"
    using node_text_last [of p n] assms s by (intro trim_right_keep) simp
  then have "lsof_line lo hi self (CHR ''n'' # node_text n p) (st\<lparr>curProto := proto\<rparr>) =
    (if curPID st = self \<or> \<not> equal_fold proto ''TCP'' \<or> p < lo \<or> hi < p then st\<lparr>curProto := proto\<rparr>
     else st\<lparr>curProto := proto, lsof_agg := agg_add lsofName (curPID st) p (node_addr n p) (lsof_agg st)\<rparr>)"
    using assms(2) h by (auto simp: lsof_line_def)
  with f P s show ?thesis by (auto simp: agg_add_has)
qed

lemma sockets_fold:
  "list_all socket_ok socks \<Longrightarrow> curPID st \<noteq> 0 \<Longrightarrow>
   curPID (fold (lsof_line lo hi self) (concat (map socket_lines socks)) st) = curPID st
    \<and> (agg_has (lsof_agg (fold (lsof_line lo hi self) (concat (map socket_lines socks)) st)) pid port a \<longleftrightarrow>
        agg_has (lsof_agg st) pid port a \<or> pid = curPID st \<and> pid \<noteq> self \<and> list_ex (socket_at lo hi port a) socks)"
proof (induction socks arbitrary: st)
  case (Cons s socks)
  let ?st = "fold (lsof_line lo hi self) (socket_lines s) st"
  note step = socket_step [of s st lo hi self pid port a]
  then have "curPID ?st \<noteq> 0" using Cons.prems by simp
  with Cons.IH [of ?st] step show ?case using Cons.prems by (simp del: socket_lines.simps) blast
qed simp

lemma process_fold:
  "list_all process_ok procs \<Longrightarrow>
   agg_has (lsof_agg (fold (lsof_line lo hi self) (concat (map process_lines procs)) st)) pid port a \<longleftrightarrow>
     agg_has (lsof_agg st) pid port a
     \<or> pid \<noteq> self \<and> list_ex (\<lambda>(i, socks). i = pid \<and> list_ex (socket_at lo hi port a) socks) procs"
proof (induction procs arbitrary: st)
  case (Cons x procs)
  obtain i socks where x: "x = (i, socks)" by (cases x)
  have i: "0 < i" "i < 2 ^ 63" "list_all socket_ok socks" using Cons.prems x by auto
  let ?st = "st\<lparr>curPID := i, curProto := []\<rparr>"
  have "last (CHR ''p'' # itoa i) \<noteq> CHR 0x0D"
    using itoa_digits [of i] itoa_last [of i] i not_digits(5) by auto
  then have head: "lsof_line lo hi self (CHR ''p'' # itoa i) st = ?st"
    using atoi_itoa [of i] i by (simp add: lsof_line_def trim_right_keep)
  show ?case
    using Cons.IH Cons.prems sockets_fold [of socks ?st lo hi self pid port a] i
    by (simp add: x head) blast
qed simp

lemma itoa_no_newline: "0 \<le> p \<Longrightarrow> CHR 0x0A \<notin> set (itoa p)"
  using itoa_not not_digits(4) by blast

lemma process_lines_no_newline:
  "process_ok x \<Longrightarrow> l \<in> set (process_lines x) \<Longrightarrow> CHR 0x0A \<notin> set l"
proof -
  have "CHR 0x0A \<notin> set m" if "socket_ok s" "m \<in> set (socket_lines s)" for s m
  proof -
    obtain fd proto n p where s: "s = (fd, proto, n, p)" by (cases s)
    have "CHR 0x0A \<notin> set (node_text n p)"
      using that(1) itoa_no_newline [of p] by (cases n) (auto simp: s port_ok_def)
    then show ?thesis using that by (auto simp: s word_ok_def)
  qed
  moreover assume "process_ok x" "l \<in> set (process_lines x)"
  ultimately show ?thesis
    using itoa_no_newline by (cases x) (auto simp: list_all_iff simp del: socket_lines.simps socket_ok.simps)
qed

lemma lsof_reports:
  assumes "list_all process_ok procs"
  shows "reported (parseLsofF iter (lsof_output procs) lo hi self) pid port a \<longleftrightarrow>
    pid \<noteq> self \<and> list_ex (\<lambda>(i, socks). i = pid \<and> list_ex (socket_at lo hi port a) socks) procs"
proof -
  let ?lines = "concat (map process_lines procs) @ [[]]"
  let ?st = "\<lparr>curPID = 0, curProto = [], lsof_agg = []\<rparr>"
  have "split_on CHR 0x0A (lsof_output procs) = ?lines"
    unfolding lsof_output_def
    using assms process_lines_no_newline by (intro split_on_join) (auto simp: list_all_iff)
  moreover have "fold (lsof_line lo hi self) ?lines ?st = fold (lsof_line lo hi self) (concat (map process_lines procs)) ?st"
    by (simp add: lsof_line_def trim_right_char_def)
  ultimately have "parseLsofF iter (lsof_output procs) lo hi self
    = collect iter (lsof_agg (fold (lsof_line lo hi self) (concat (map process_lines procs)) ?st))"
    by (simp only: parseLsofF_def)
  moreover have "agg_ok lo hi self (lsof_agg (fold (lsof_line lo hi self) (concat (map process_lines procs)) ?st))"
    by (rule lsof_fold_ok) simp
  ultimately show ?thesis using process_fold [OF assms] by (simp add: collect_reported)
qed

text \<open>
  C32. From the output of lsof for any list of processes and sockets, parseLsofF reports an
  address of a process and port exactly when a TCP socket with that address and a port in range
  belongs to that process and it is not the dashboard itself.
\<close>

theorem parse_lsof_output:
  assumes "list_all process_ok procs"
  shows "reported (parseLsofF iter (lsof_output procs) lo hi self) pid port a \<longleftrightarrow>
    pid \<noteq> self \<and> list_ex (\<lambda>(i, socks). i = pid \<and> list_ex (socket_at lo hi port a) socks) procs"
  using assms by (rule lsof_reports)

section \<open>The two scanners\<close>

text \<open>The sockets each scanner looks at, without their addresses.\<close>

definition lsof_shows :: "lsof_process list \<Rightarrow> int \<Rightarrow> int \<Rightarrow> bool" where
  "lsof_shows procs pid port \<longleftrightarrow>
    list_ex (\<lambda>(i, socks). i = pid \<and> list_ex (\<lambda>(fd, proto, n, p). equal_fold proto ''TCP'' \<and> p = port) socks) procs"

definition kernel_shows :: "kernel \<Rightarrow> int list \<Rightarrow> 32 word \<Rightarrow> int \<Rightarrow> int \<Rightarrow> bool" where
  "kernel_shows k pids uid pid port \<longleftrightarrow> pid \<in> set pids \<and> 0 < pid \<and> bsd_uid k pid = Some uid
    \<and> list_ex (\<lambda>(fd, ty). ty = proxFdTypeSocket \<and>
        (case pm_inspect_fd k pid fd of None \<Rightarrow> False | Some info \<Rightarrow> uint (pm_port info) = port)) (libproc_fds k pid)"

lemma key_reported:
  assumes "scan_ok lo hi self ls"
  shows "ListenerKey port pid \<in> key_of ` set ls \<longleftrightarrow> (\<exists>a. reported ls pid port a)"
proof
  assume "ListenerKey port pid \<in> key_of ` set ls"
  then obtain l where "l \<in> set ls" "L_Port l = port" "L_PID l = pid" by (auto simp: key_of_def)
  moreover from this(1) have "L_Addrs l \<noteq> []" using assms by (simp add: scan_ok_def list_all_iff)
  then obtain a where "a \<in> set (L_Addrs l)" by (cases "L_Addrs l") auto
  ultimately show "\<exists>a. reported ls pid port a" by (auto simp: reported_def list_ex_iff)
next
  assume "\<exists>a. reported ls pid port a"
  then obtain l where "l \<in> set ls" "key_of l = ListenerKey port pid" by (auto simp: reported_def list_ex_iff key_of_def)
  then show "ListenerKey port pid \<in> key_of ` set ls" by (metis imageI)
qed

lemma some_socket: "(\<exists>a. socket_at lo hi port a s) \<longleftrightarrow>
    (case s of (fd, proto, n, p) \<Rightarrow> equal_fold proto ''TCP'' \<and> p = port) \<and> lo \<le> port \<and> port \<le> hi"
  by (cases s) auto

lemma lsof_keys:
  assumes "list_all process_ok procs"
  shows "ListenerKey port pid \<in> key_of ` set (parseLsofF iter (lsof_output procs) lo hi self) \<longleftrightarrow>
    pid \<noteq> self \<and> lo \<le> port \<and> port \<le> hi \<and> lsof_shows procs pid port"
  unfolding key_reported [OF parseLsofF_ok] lsof_reports [OF assms] lsof_shows_def list_ex_iff
  using some_socket by fastforce

lemma ex_address:
  "(\<exists>a. list_ex (\<lambda>x. P x \<and> (case f x of None \<Rightarrow> False | Some i \<Rightarrow> g i = port \<and> lo \<le> port \<and> port \<le> hi \<and> a = h i)) xs)
    \<longleftrightarrow> lo \<le> port \<and> port \<le> hi \<and> list_ex (\<lambda>x. P x \<and> (case f x of None \<Rightarrow> False | Some i \<Rightarrow> g i = port)) xs"
  for lo port hi :: int
proof (induction xs)
  case (Cons x xs)
  then show ?case by (cases "f x") (auto simp: ex_disj_distrib)
qed simp

lemma listens_somewhere: "(\<exists>a. listens k lo hi uid pid port a) \<longleftrightarrow> lo \<le> port \<and> port \<le> hi \<and> bsd_uid k pid = Some uid
    \<and> list_ex (\<lambda>(fd, ty). ty = proxFdTypeSocket \<and>
        (case pm_inspect_fd k pid fd of None \<Rightarrow> False | Some info \<Rightarrow> uint (pm_port info) = port)) (libproc_fds k pid)"
  by (simp only: listens_def case_prod_unfold ex_simps ex_address) blast

lemma libproc_keys:
  assumes "libproc_Scan cfg self uid ctx k = Inr ls" and "listAllPIDs k = Inr pids"
  shows "ListenerKey port pid \<in> key_of ` set ls \<longleftrightarrow>
    pid \<noteq> self \<and> PortMin cfg \<le> port \<and> port \<le> PortMax cfg \<and> kernel_shows k pids uid pid port"
  unfolding key_reported [OF libproc_Scan_ok [OF assms(1)]] libproc_has [OF assms] kernel_shows_def
  by (auto simp: listens_somewhere)

lemma lsof_result: "lsof_Scan cfg self r = Inr ls \<Longrightarrow> ls = parseLsofF (lsof_iter r) (lsof_out r) (PortMin cfg) (PortMax cfg) self"
  by (auto simp: lsof_Scan_def Let_def split: option.splits exec_error.splits if_splits)

lemma find_pid: "map_option L_PID (List.find (\<lambda>l. L_Port l = port) ls) =
    map_option key_pid (List.find (\<lambda>k. key_port k = port) (map key_of ls))"
  by (induction ls) (simp_all add: key_of_def)


section \<open>Errors and selection\<close>

theorem scanner_contract:
  "(lsof_Scan cfg self r = Inr ls \<longrightarrow> scan_ok (PortMin cfg) (PortMax cfg) self ls)
   \<and> (libproc_Scan cfg self uid ctx k = Inr ls \<longrightarrow> scan_ok (PortMin cfg) (PortMax cfg) self ls)"
  using lsof.scan_result libproc.scan_result by blast

text \<open>An \<^verbatim>\<open>lsof\<close> ended by a signal has exit code -1 and counts as a success.\<close>

theorem lsof_exit_codes:
  assumes "ctx_before r = None" and "ctx_after r = None" and "lsof_err r = Some (ExitError code)"
  shows "lsof_Scan cfg self r =
    (let ls = parseLsofF (lsof_iter r) (lsof_out r) (PortMin cfg) (PortMax cfg) self
     in if 1 < code \<and> ls = [] then Inl (ErrLsofExit code) else Inr ls)"
  using assms by (simp add: lsof_Scan_def Let_def)

theorem lsof_signal_is_success:
  assumes "ctx_before r = None" and "ctx_after r = None" and "lsof_err r = Some (ExitError (- 1))"
  shows "\<exists>ls. lsof_Scan cfg self r = Inr ls"
  using lsof_exit_codes [OF assms] by (simp add: Let_def)

theorem validated_scanner:
  assumes "validate cfg = None"
  shows "Auto True (Some cfg) = Inr (if ScannerName cfg = ''lsof'' then LsofScanner else LibprocScanner)
    \<and> Auto False (Some cfg) = (if ScannerName cfg = ''libproc'' then Inl ErrNoLibproc else Inr LsofScanner)"
  using assms by (auto simp: validate_None Auto_def NewLsof_def NewLibproc_def NewLibproc_stub_def defaultScannerName_def Let_def)

section \<open>Concrete runs\<close>

definition sample_config :: config where
  "sample_config = \<lparr>AuthToken = ''0123456789abcdef'', SessionSecret = ''fedcba9876543210'', PublicHost = ''h'',
     Port = 40000, PortMin = 40000, PortMax = 40500, KillGraceMS = 3000, ScannerName = ''auto'',
     StateDir = ''/home/u/.port-manager'', TrustXFF = False\<rparr>"

lemma sample_config_valid: "validate sample_config = None"
  by (simp add: validate_None sample_config_def)

lemma validated_scanner_witness:
  "Auto True (Some sample_config) = Inr (if ScannerName sample_config = ''lsof'' then LsofScanner else LibprocScanner)
    \<and> Auto False (Some sample_config) = (if ScannerName sample_config = ''libproc'' then Inl ErrNoLibproc else Inr LsofScanner)"
  by (rule validated_scanner [OF sample_config_valid])

definition sample_procs :: "lsof_process list" where
  "sample_procs = [(12, [(''3'', ''TCP'', AnyNode, 40123), (''4'', ''TCP'', Bracketed ''::1'', 40123)]), (99, [])]"

lemma parse_lsof_output_witness:
  "reported (parseLsofF rev (lsof_output sample_procs) 40000 40500 7) 12 40123 ''[::1]:40123'' \<longleftrightarrow>
    (12::int) \<noteq> 7 \<and> list_ex (\<lambda>(i, socks). i = 12 \<and> list_ex (socket_at 40000 40500 40123 ''[::1]:40123'') socks) sample_procs"
  by (rule parse_lsof_output) (simp add: sample_procs_def word_ok_def port_ok_def)

lemma sample_reported:
  "list_ex (\<lambda>(i, socks). i = 12 \<and> list_ex (socket_at 40000 40500 40123 ''[::1]:40123'') socks) sample_procs"
  by code_simp

definition sample_run :: lsof_run where
  "sample_run = \<lparr>ctx_before = None, ctx_after = None, lsof_out = lsof_output sample_procs,
     lsof_err = Some (ExitError (- 1)), lsof_iter = rev\<rparr>"

lemma lsof_signal_is_success_witness: "\<exists>ls. lsof_Scan sample_config 7 sample_run = Inr ls"
  by (rule lsof_signal_is_success) (simp_all add: sample_run_def)

lemma lsof_exit_codes_witness:
  "lsof_Scan sample_config 7 sample_run =
    (let ls = parseLsofF (lsof_iter sample_run) (lsof_out sample_run) (PortMin sample_config) (PortMax sample_config) 7
     in if 1 < (- 1 :: int) \<and> ls = [] then Inl (ErrLsofExit (- 1)) else Inr ls)"
  by (rule lsof_exit_codes) (simp_all add: sample_run_def)

definition sample_kernel :: kernel where
  "sample_kernel = \<lparr>pid_count = 2, pid_fill = \<lambda>n. (2, take n [12, 99]), bsd_uid = \<lambda>p. if p = 12 then Some 501 else None,
     fd_bytes = \<lambda>_. 8, fdinfoSize = 8, fd_fill = \<lambda>_ n. (8, take n [(3, 2)]),
     fd_socket = \<lambda>_ _. Some \<lparr>soi_tcp = True, tcp_listen = True, insi_lport = 0xBB9C, insi_vflag = 1,
       text_ipv4 = ''127.0.0.1'', text_ipv6 = []\<rparr>,
     expired = \<lambda>_. None, k_iter = rev\<rparr>"

lemma sample_pids: "listAllPIDs sample_kernel = Inr [12, 99]"
  by (simp add: listAllPIDs_def sample_kernel_def)

lemma sample_libproc: "\<exists>ls. libproc_Scan sample_config 7 501 None sample_kernel = Inr ls"
  by (simp add: libproc_Scan_def sample_pids) (simp add: sample_kernel_def)


lemma scanner_contract_witness:
  "\<exists>ls ls'. lsof_Scan sample_config 7 sample_run = Inr ls \<and> libproc_Scan sample_config 7 501 None sample_kernel = Inr ls'
   \<and> scan_ok (PortMin sample_config) (PortMax sample_config) 7 ls
   \<and> scan_ok (PortMin sample_config) (PortMax sample_config) 7 ls'"
proof -
  obtain ls where ls: "lsof_Scan sample_config 7 sample_run = Inr ls"
    by (simp add: lsof_Scan_def sample_run_def Let_def)
  obtain ls' where ls': "libproc_Scan sample_config 7 501 None sample_kernel = Inr ls'"
    using sample_libproc by blast
  show ?thesis using ls ls' scanner_contract [of sample_config 7] by blast
qed

lemma sample_lsof_shows: "lsof_shows sample_procs pid port \<longleftrightarrow> pid = 12 \<and> port = 40123"
proof -
  have "equal_fold ''TCP'' ''TCP''" by (simp add: equal_fold_def)
  then show ?thesis by (auto simp: lsof_shows_def sample_procs_def)
qed

lemma sample_kernel_shows: "kernel_shows sample_kernel [12, 99] 501 pid port \<longleftrightarrow> pid = 12 \<and> port = 40123"
proof -
  have "uint (ntohs (ucast (0xBB9C :: 32 word))) = 40123" by (simp add: ntohs_def)
  then show ?thesis
    by (auto simp: kernel_shows_def libproc_fds_def sample_kernel_def pm_inspect_fd_def proxFdTypeSocket_def)
qed


end
