(* ===== verification/InspectorFacts.thy ===== *)
theory InspectorFacts
  imports Inspector "HOL-Library.Sublist"
begin

text \<open>
  Properties of \<^verbatim>\<open>internal/inspector\<close>: the search and split loops against reference definitions,
  the walk over the \<open>KERN_PROCARGS2\<close> buffer as the inverse of its layout, and what a snapshot
  guarantees.
\<close>

section \<open>Searching\<close>

lemma index_from_spec:
  "case index_from s sub i of
     Some k \<Rightarrow> i \<le> k \<and> k + length sub \<le> length s \<and> take (length sub) (drop k s) = sub
   | None \<Rightarrow> \<forall>k \<ge> i. k + length sub \<le> length s \<longrightarrow> take (length sub) (drop k s) \<noteq> sub"
proof (induction s sub i rule: index_from.induct)
  case (1 s sub i)
  show ?case
  proof (cases "i + length sub \<le> length s \<and> take (length sub) (drop i s) \<noteq> sub")
    case True
    then have step: "index_from s sub i = index_from s sub (i + 1)" by (simp add: index_from.simps [of s sub i])
    note 1 [OF conjunct1 [OF True] conjunct2 [OF True]]
    moreover have "k = i \<or> i + 1 \<le> k" if "i \<le> k" for k using that by linarith
    ultimately show ?thesis unfolding step using True by (fastforce split: option.splits)
  next
    case False
    then show ?thesis by (auto simp: index_from.simps [of s sub i])
  qed
qed

lemma indexOf_sublist: "indexOf s sub \<noteq> None \<longleftrightarrow> sublist sub s"
proof -
  have occ: "sublist sub s \<longleftrightarrow> (\<exists>k. k + length sub \<le> length s \<and> take (length sub) (drop k s) = sub)"
  proof
    assume "sublist sub s"
    then obtain ps ss where "s = ps @ sub @ ss" by (auto simp: sublist_def)
    then show "\<exists>k. k + length sub \<le> length s \<and> take (length sub) (drop k s) = sub"
      by (intro exI [of _ "length ps"]) simp
  next
    assume "\<exists>k. k + length sub \<le> length s \<and> take (length sub) (drop k s) = sub"
    then obtain k where "take (length sub) (drop k s) = sub" by blast
    then have "s = take k s @ sub @ drop (length sub) (drop k s)"
      by (metis append_take_drop_id)
    then show "sublist sub s" unfolding sublist_def by blast
  qed
  consider (empty) "sub = []" | (long) "length s < length sub" | (search) "sub \<noteq> []" "length sub \<le> length s"
    by linarith
  then show ?thesis
  proof cases
    case long
    then show ?thesis by (auto simp: indexOf_def dest: sublist_length_le)
  next
    case search
    then have "indexOf s sub = index_from s sub 0" by (simp add: indexOf_def)
    then show ?thesis using index_from_spec [where s = s and sub = sub and i = 0] occ by (auto split: option.splits)
  qed (simp add: indexOf_def)
qed

theorem containsAny_sublist: "containsAny s subs \<longleftrightarrow> list_ex (\<lambda>sub. sublist sub s) subs"
  by (simp add: containsAny_def indexOf_sublist del: not_None_eq)

theorem classify_spec:
  "classify err =
    (if oe_not_running err \<or> \<not> oe_not_permitted err \<and>
          (oe_errno err = Some ESRCH \<or> oe_errno err \<notin> {Some EPERM, Some EACCES}
             \<and> (sublist ''no such process'' (oe_msg err) \<or> sublist ''process does not exist'' (oe_msg err)))
     then ErrNotFound
     else if oe_not_permitted err \<or> oe_errno err \<in> {Some EPERM, Some EACCES}
          \<or> sublist ''operation not permitted'' (oe_msg err) \<or> sublist ''permission denied'' (oe_msg err)
     then ErrPermission
     else ErrInspect err)"
  by (auto simp: classify_def containsAny_sublist)

section \<open>Splitting the command line\<close>

function words :: "string \<Rightarrow> string list" where
  "words s =
    (case dropWhile blank s of
       [] \<Rightarrow> []
     | c # cs \<Rightarrow> (c # takeWhile (\<lambda>c. \<not> blank c) cs) # words (dropWhile (\<lambda>c. \<not> blank c) cs))"
  by pat_completeness auto
termination
proof (relation "measure length")
  fix s c cs
  assume "dropWhile blank s = c # cs"
  then have "length (c # cs) \<le> length s" by (metis length_dropWhile_le)
  moreover have "length (dropWhile (\<lambda>c. \<not> blank c) cs) \<le> length cs" by (rule length_dropWhile_le)
  ultimately show "(dropWhile (\<lambda>c. \<not> blank c) cs, s) \<in> measure length" by simp
qed simp

declare words.simps [simp del]

lemma words_Nil [simp]: "words [] = []"
  by (simp add: words.simps)

lemma words_blank [simp]: "blank c \<Longrightarrow> words (c # s) = words s"
  by (simp add: words.simps [of "c # s"] words.simps [of s])

lemma words_word:
  "\<not> blank c \<Longrightarrow> words (c # s) = (c # takeWhile (\<lambda>c. \<not> blank c) s) # words (dropWhile (\<lambda>c. \<not> blank c) s)"
  by (simp add: words.simps [of "c # s"])

lemma split_from_words:
  "i \<le> length s \<Longrightarrow> (\<forall>b. start = Some b \<longrightarrow> b \<le> i) \<Longrightarrow>
   split_from s i start out = out @
     (case start of
        None \<Rightarrow> words (drop i s)
      | Some b \<Rightarrow> (take (i - b) (drop b s) @ takeWhile (\<lambda>c. \<not> blank c) (drop i s))
                  # words (dropWhile (\<lambda>c. \<not> blank c) (drop i s)))"
proof (induction s i start out rule: split_from.induct)
  case (1 s i start out)
  show ?case
  proof (cases "i < length s")
    case False
    with "1.prems" show ?thesis by (subst split_from.simps) (auto split: option.split)
  next
    case True
    then have d: "drop i s = s ! i # drop (Suc i) s" by (rule Cons_nth_drop_Suc [symmetric])
    show ?thesis
    proof (cases "blank (s ! i)")
      case blank: True
      then show ?thesis
        using "1.IH"(1,2) "1.prems" True d
        by (cases start) (simp_all add: split_from.simps [of s i])
    next
      case word: False
      show ?thesis
      proof (cases start)
        case None
        then show ?thesis
          using "1.IH"(3) "1.prems" True word d
          by (simp add: split_from.simps [of s i] words_word take_Suc_conv_app_nth)
      next
        case (Some b)
        then have "b \<le> i" using "1.prems" by simp
        then have "take (Suc i - b) (drop b s) = take (i - b) (drop b s) @ [s ! i]"
          using True by (simp add: Suc_diff_le take_Suc_conv_app_nth)
        then show ?thesis
          using "1.IH"(3) "1.prems" True word d Some
          by (simp add: split_from.simps [of s i])
      qed
    qed
  qed
qed

theorem splitCmdline_words: "splitCmdline s = words s"
  using split_from_words [of 0 s None "[]"] by (simp add: splitCmdline_def)

lemma words_join:
  "\<forall>w \<in> set ws. w \<noteq> [] \<and> (\<forall>c \<in> set w. \<not> blank c) \<Longrightarrow> words (join '' '' ws) = ws"
proof (induction "'' ''" ws rule: join.induct)
  case (2 w)
  then obtain c cs where w: "w = c # cs" "\<not> blank c" "\<forall>x \<in> set cs. \<not> blank x" by (cases w) auto
  from w(3) have cs: "takeWhile (\<lambda>c. \<not> blank c) cs = cs" "dropWhile (\<lambda>c. \<not> blank c) cs = []" by simp_all
  show ?case by (simp only: w(1) words_word [OF w(2)] cs words_Nil join.simps)
next
  case (3 w v ws)
  have sp: "blank CHR '' ''" by (simp add: blank_def)
  obtain c cs where w: "w = c # cs" using 3 by (cases w) auto
  have cs: "\<forall>x \<in> set cs. \<not> blank x" "\<not> blank c" using 3 w by auto
  have "takeWhile (\<lambda>c. \<not> blank c) (cs @ '' '' @ join '' '' (v # ws)) = cs"
    and "dropWhile (\<lambda>c. \<not> blank c) (cs @ '' '' @ join '' '' (v # ws)) = '' '' @ join '' '' (v # ws)"
    using cs sp by (simp_all add: takeWhile_append dropWhile_append)
  with 3 w cs sp show ?case by (simp add: words_word)
qed simp

theorem split_joined_words:
  assumes "list_all (\<lambda>w. w \<noteq> [] \<and> list_all (\<lambda>c. \<not> blank c) w) ws"
  shows "splitCmdline (join '' '' ws) = ws"
  using assms by (simp add: splitCmdline_words words_join list_all_iff)

section \<open>The environment block\<close>

lemma skip_while_eq: "pos \<le> length buf \<Longrightarrow> skip_while P buf pos = pos + length (takeWhile P (drop pos buf))"
proof (induction P buf pos rule: skip_while.induct)
  case (1 P buf pos)
  show ?case
  proof (cases "pos < length buf")
    case True
    with 1 show ?thesis by (subst skip_while.simps) (simp add: Cons_nth_drop_Suc [symmetric])
  next
    case False
    with 1 show ?thesis by (subst skip_while.simps) simp
  qed
qed

text \<open>The strings of a block, each with its terminator.\<close>

definition block :: "string list \<Rightarrow> string" where
  "block ss = concat (map (\<lambda>s. s @ [NUL]) ss)"

lemma block_simps [simp]: "block [] = []" "block (s # ss) = s @ NUL # block ss"
  by (simp_all add: block_def)

lemma take_to_nul: "NUL \<notin> set s \<Longrightarrow> takeWhile (\<lambda>c. c \<noteq> NUL) (s @ NUL # t) = s"
  by (induction s) auto

lemma skip_string:
  "NUL \<notin> set s \<Longrightarrow> skip_while (\<lambda>c. c \<noteq> NUL) (pre @ s @ NUL # t) (length pre) = length pre + length s"
  by (subst skip_while_eq) (simp_all add: take_to_nul)

lemma skip_argv_block:
  "\<forall>a \<in> set argv. NUL \<notin> set a \<Longrightarrow>
   skip_argv (length argv) (pre @ block argv @ rest) (length pre) = Some (length pre + length (block argv))"
proof (induction argv arbitrary: pre)
  case (Cons a argv)
  let ?buf = "pre @ a @ NUL # block argv @ rest"
  have skip: "skip_while (\<lambda>c. c \<noteq> NUL) ?buf (length pre) = length pre + length a"
    using Cons.prems by (intro skip_string) simp
  have "?buf = (pre @ a @ [NUL]) @ block argv @ rest" by simp
  then have "skip_argv (length argv) ?buf (length pre + length a + 1) = Some (length (pre @ a @ [NUL]) + length (block argv))"
    using Cons.IH [of "pre @ a @ [NUL]"] Cons.prems by simp
  then show ?case using skip by simp
qed simp

lemma collect_env_block:
  "\<forall>e \<in> set es. e \<noteq> [] \<and> NUL \<notin> set e \<Longrightarrow> rest = [] \<or> hd rest = NUL \<Longrightarrow>
   collect_env (pre @ block es @ rest) (length pre) env = env @ es"
proof (induction es arbitrary: pre env)
  case Nil
  have "skip_while (\<lambda>c. c \<noteq> NUL) (pre @ rest) (length pre) = length pre"
    using Nil by (cases rest) (simp_all add: skip_while_eq)
  then show ?case by (simp add: collect_env.simps [of "pre @ rest"])
next
  case (Cons e es)
  let ?buf = "pre @ e @ NUL # block es @ rest"
  have e: "e \<noteq> []" "NUL \<notin> set e" using Cons.prems by simp_all
  have skip: "skip_while (\<lambda>c. c \<noteq> NUL) ?buf (length pre) = length pre + length e"
    by (rule skip_string [OF e(2)])
  have "?buf = (pre @ e @ [NUL]) @ block es @ rest" by simp
  then have "collect_env ?buf (length pre + length e + 1) (env @ [e]) = (env @ [e]) @ es"
    using Cons.IH [of "pre @ e @ [NUL]" "env @ [e]"] Cons.prems by simp
  then show ?case
    using skip e(1) by (simp add: collect_env.simps [of ?buf "length pre" env])
qed

definition argc_bytes :: "nat \<Rightarrow> string" where
  "argc_bytes n = [char_of (n mod 256), char_of (n div 256), NUL, NUL]"

text \<open>The layout the kernel gives the buffer: count, path, padding, arguments, environment.\<close>

definition procargs :: "nat \<Rightarrow> string \<Rightarrow> nat \<Rightarrow> string list \<Rightarrow> string list \<Rightarrow> string \<Rightarrow> string" where
  "procargs argc exec pad argv env tail =
    argc_bytes argc @ exec @ replicate (Suc pad) NUL @ block argv @ block env @ tail"

lemma sint_word_small: "n < 2147483648 \<Longrightarrow> sint (word_of_nat n :: 32 word) = int n"
proof -
  assume "n < 2147483648"
  then have "sint (word_of_int (int n) :: 32 word) = int n"
    by (simp only: sint_sbintrunc') (simp add: signed_take_bit_int_eq_self)
  then show ?thesis by simp
qed

lemma argc_decoded: "n \<le> 10000 \<Longrightarrow> sint (le_uint32 (bytes_of (argc_bytes n))) = int n"
proof -
  assume n: "n \<le> 10000"
  then have "n div 256 < 256" by simp
  then have "unat (byte_of (char_of (n mod 256))) + 256 * unat (byte_of (char_of (n div 256))) = n"
    by (simp add: byte_of_def unat_of_nat of_char_mod_256)
  then have "le_uint32 (bytes_of (argc_bytes n)) = word_of_nat n"
    by (simp add: le_uint32_def argc_bytes_def bytes_of_def byte_of_def [of NUL])
  moreover have "sint (word_of_nat n :: 32 word) = int n"
    using n by (simp add: sint_word_small)
  ultimately show ?thesis by simp
qed

lemma argc_bytes_length [simp]: "length (argc_bytes n) = 4" by (simp add: argc_bytes_def)

lemma skip_padding:
  "rest \<noteq> [] \<Longrightarrow> hd rest \<noteq> NUL \<Longrightarrow>
   skip_while (\<lambda>c. c = NUL) (pre @ replicate n NUL @ rest) (length pre) = length pre + n"
proof -
  assume "rest \<noteq> []" "hd rest \<noteq> NUL"
  then have "takeWhile (\<lambda>c. c = NUL) (replicate n NUL @ rest) = replicate n NUL"
    by (cases rest) (simp_all add: takeWhile_append)
  then show ?thesis by (simp add: skip_while_eq)
qed

lemma parse_procargs:
  assumes argv: "argv = a0 # as" "a0 \<noteq> []" "list_all (\<lambda>a. NUL \<notin> set a) argv" "length argv \<le> 10000"
    and env: "list_all (\<lambda>e. e \<noteq> [] \<and> NUL \<notin> set e) env"
    and exec: "NUL \<notin> set exec"
    and tail: "tail = [] \<or> hd tail = NUL"
  shows "parseProcargs (procargs (length argv) exec pad argv env tail) = Inr env"
proof -
  let ?n = "length argv" and ?args = "block argv" and ?env = "block env @ tail"
  let ?hdr = "argc_bytes ?n @ exec"
  let ?buf = "procargs ?n exec pad argv env tail"
  have path: "skip_while (\<lambda>c. c \<noteq> NUL) ?buf 4 = length ?hdr"
    using skip_string [OF exec, of "argc_bytes ?n" "replicate pad NUL @ ?args @ ?env"]
    by (simp add: procargs_def)
  obtain c cs where c: "a0 = c # cs" using argv(2) by (cases a0) auto
  then have "hd (?args @ ?env) \<noteq> NUL" "?args @ ?env \<noteq> []"
    using argv(1,3) by auto
  then have padding: "skip_while (\<lambda>c. c = NUL) ?buf (length ?hdr) = length (?hdr @ replicate (Suc pad) NUL)"
    using skip_padding [of "?args @ ?env" ?hdr "Suc pad"] by (simp add: procargs_def)
  have args: "skip_argv ?n ?buf (length (?hdr @ replicate (Suc pad) NUL)) =
      Some (length (?hdr @ replicate (Suc pad) NUL @ ?args))"
    using skip_argv_block [of argv "?hdr @ replicate (Suc pad) NUL" ?env] argv
    by (simp add: procargs_def list_all_iff)
  have "collect_env ?buf (length (?hdr @ replicate (Suc pad) NUL @ ?args)) [] = env"
    using collect_env_block [of env tail "?hdr @ replicate (Suc pad) NUL @ ?args" "[]"] env tail
    by (simp add: procargs_def list_all_iff)
  moreover have "take 4 ?buf = argc_bytes ?n" "\<not> length ?buf < 4" by (simp_all add: procargs_def)
  ultimately show ?thesis
    using argc_decoded [OF argv(4)] argv(4) path padding args
    by (simp add: parseProcargs_def Let_def)
qed



theorem empty_argv0_loses_variable:
  assumes "a \<noteq> []" "list_all (\<lambda>a. NUL \<notin> set a) (a # as)" "Suc (length (a # as)) \<le> 10000"
    and "list_all (\<lambda>e. e \<noteq> [] \<and> NUL \<notin> set e) (e # env)" "NUL \<notin> set exec" "tail = [] \<or> hd tail = NUL"
  shows "parseProcargs (procargs (Suc (length (a # as))) exec pad ([] # a # as) (e # env) tail) = Inr env"
proof -
  have "block ((a # as) @ [e]) = block (a # as) @ e @ [NUL]" by (simp add: block_def)
  then have same: "procargs (Suc (length (a # as))) exec pad ([] # a # as) (e # env) tail =
      procargs (length (a # as @ [e])) exec (Suc pad) (a # as @ [e]) env tail"
    by (simp add: procargs_def replicate_app_Cons_same)
  show ?thesis
    unfolding same by (rule parse_procargs [OF refl assms(1)]) (use assms in simp_all)
qed

lemma empty_argv0_loses_variable_witness:
  "parseProcargs (procargs 2 ''/bin/app'' 0 [[], ''app''] [''A=1'', ''B=2''] [NUL]) = Inr [''B=2'']"
  using empty_argv0_loses_variable [of "''app''" "[]" "''A=1''" "[''B=2'']" "''/bin/app''" "[NUL]" 0]
  by (simp add: numeral_2_eq_2)

section \<open>Snapshots\<close>

text \<open>The readings of gopsutil that end a snapshot when they fail; the working directory alone may be withheld.\<close>

definition readings_hold :: "process_reads \<Rightarrow> procinfo \<Rightarrow> bool" where
  "readings_hold p info \<longleftrightarrow>
     pr_new p = None
   \<and> resolveArgv (pr_slice p) (pr_cmdline p) = Inr (PI_Command info)
   \<and> (case pr_cwd p of Inr d \<Rightarrow> PI_Cwd info = d | Inl e \<Rightarrow> PI_Cwd info = [] \<and> classify e \<noteq> ErrNotFound)
   \<and> (case pr_create p of Inr ms \<Rightarrow> PI_StartTime info = ms * Millisecond | Inl _ \<Rightarrow> False)
   \<and> (case pr_uids p of Inr (uid # _) \<Rightarrow> PI_UID info = uid | _ \<Rightarrow> False)"

theorem Inspect_snapshot:
  "Inspect darwin ctx_done gops sysctl pid = Inr info \<longleftrightarrow>
     0 < pid \<and> \<not> ctx_done \<and> PI_PID info = pid \<and> readings_hold (gops (int32 pid)) info
   \<and> (if darwin then readEnv (sysctl (int32 pid)) = Inr (PI_Env info)
        \<or> readEnv (sysctl (int32 pid)) = Inl EnvPermission \<and> PI_Env info = []
      else PI_Env info = [])"
  by (cases info)
     (auto simp: Inspect_def Let_def readings_hold_def readEnv_stub_def
           split: option.splits sum.splits list.splits if_splits)

lemma int32_id: "- (2 ^ 31) \<le> pid \<Longrightarrow> pid < 2 ^ 31 \<Longrightarrow> int32 pid = pid"
  unfolding int32_def by (simp only: sint_sbintrunc') (simp add: signed_take_bit_int_eq_self)

end
