(* ===== verification/ViewModel.thy ===== *)
theory ViewModel
  imports GoTime ScannerFacts InspectorFacts
begin

text \<open>
  \<^verbatim>\<open>internal/model/viewmodel.go\<close>: the rows of the dashboard, from the listeners of a scan, the
  snapshots of their processes and the labels.

  The inspector and the label lookup are arguments (each may be missing, as in the code). The
  goroutines that build the rows write distinct slots; the order in which they finish is an
  argument, and so is the arrangement that the unstable \<open>sort.Slice\<close> starts from.
\<close>

section \<open>Rows\<close>

record portvm =
  vm_Port :: int
  vm_Label :: string
  vm_Cmd :: string
  vm_Cwd :: string
  vm_UptimeS :: int
  vm_Source :: string
  vm_PID :: int
  vm_ListenAddrs :: "string list"
  vm_Alive :: bool
  vm_Remembered :: bool
  vm_RememberedID :: string
  vm_Uptime :: string
  vm_Self :: bool
  vm_Disabled :: bool

definition zero_vm :: portvm where
  "zero_vm = \<lparr>vm_Port = 0, vm_Label = [], vm_Cmd = [], vm_Cwd = [], vm_UptimeS = 0, vm_Source = [], vm_PID = 0,
     vm_ListenAddrs = [], vm_Alive = False, vm_Remembered = False, vm_RememberedID = [], vm_Uptime = [],
     vm_Self = False, vm_Disabled = False\<rparr>"

definition two_digits :: "int \<Rightarrow> string" where
  "two_digits n = (if 0 \<le> n \<and> n < 10 then ''0'' @ itoa n else itoa n)"

text \<open>Go's integer division truncates; the operands here are not negative.\<close>

definition FormatUptime :: "duration \<Rightarrow> string" where
  "FormatUptime d =
    (if d \<le> 0 then ''0s''
     else let s = int_seconds d in
       if s < 60 then itoa s @ ''s''
       else let m = s div 60 in
         if m < 60 then itoa m @ ''m''
         else let h = m div 60 in
           if h < 24 then itoa h @ ''h '' @ two_digits (m mod 60) @ ''m''
           else let days = h div 24 in itoa days @ ''d '' @ itoa (h mod 24) @ ''h'')"

type_synonym inspector = "int \<Rightarrow> inspect_error + procinfo"
type_synonym label_lookup = "string \<Rightarrow> string list \<Rightarrow> string option"

definition buildOne :: "inspector option \<Rightarrow> label_lookup option \<Rightarrow> gotime \<Rightarrow> listener \<Rightarrow> portvm" where
  "buildOne insp st now l =
    (let vm = zero_vm\<lparr>vm_Port := L_Port l, vm_PID := L_PID l, vm_ListenAddrs := L_Addrs l,
                vm_Alive := True, vm_Source := ''external''\<rparr>
     in case insp of
          None \<Rightarrow> vm
        | Some inspect \<Rightarrow>
            (case inspect (L_PID l) of
               Inl _ \<Rightarrow> vm
             | Inr info \<Rightarrow>
                 let vm = vm\<lparr>vm_Cmd := join '' '' (PI_Command info), vm_Cwd := PI_Cwd info\<rparr>;
                     vm = (if is_zero (PI_StartTime info) then vm
                           else let dur = time_sub now (PI_StartTime info);
                                    dur = (if dur < 0 then 0 else dur)
                                in vm\<lparr>vm_UptimeS := int_seconds dur, vm_Uptime := FormatUptime dur\<rparr>)
                 in case st of
                      None \<Rightarrow> vm
                    | Some label \<Rightarrow>
                        (case label (PI_Cwd info) (PI_Command info) of
                           None \<Rightarrow> vm
                         | Some lb \<Rightarrow> vm\<lparr>vm_Label := lb\<rparr>)))"

section \<open>The table\<close>

text \<open>A reordering of a list, when it is one.\<close>

definition rearranged :: "('a list \<Rightarrow> 'a list) \<Rightarrow> 'a list \<Rightarrow> 'a list" where
  "rearranged arr xs = (if mset (arr xs) = mset xs then arr xs else xs)"

lemma mset_rearranged [simp]: "mset (rearranged arr xs) = mset xs"
  by (simp add: rearranged_def)

lemma rearranged_set [simp]: "set (rearranged arr xs) = set xs"
  by (metis mset_rearranged set_mset_mset)

record schedule =
  finish :: "nat list \<Rightarrow> nat list"
  arrange :: "portvm list \<Rightarrow> portvm list"

definition BuildViewModels :: "schedule \<Rightarrow> gotime \<Rightarrow> listener list \<Rightarrow> inspector option
    \<Rightarrow> label_lookup option \<Rightarrow> int \<Rightarrow> portvm list" where
  "BuildViewModels sch now listeners insp st self =
    (if listeners = [] then []
     else
       let jobs = filter (\<lambda>i. L_PID (listeners ! i) \<noteq> self) [0..<length listeners];
           results = fold (\<lambda>i rs. rs[i := buildOne insp st now (listeners ! i)]) (rearranged (finish sch) jobs)
             (replicate (length listeners) zero_vm);
           out = filter (\<lambda>vm. \<not> (vm_Port vm = 0 \<and> vm_PID vm = 0)) results
       in sort_key vm_Port (rearranged (arrange sch) out))"

section \<open>Properties\<close>

text \<open>The slots are filled alike whatever goroutine ends first.\<close>

lemma fold_slots_length [simp]: "length (fold (\<lambda>i rs. rs[i := f i]) is rs) = length rs"
  by (induction "is" arbitrary: rs) simp_all

lemma fold_slots:
  "k < length rs \<Longrightarrow> fold (\<lambda>i rs. rs[i := f i]) is rs ! k = (if k \<in> set is then f k else rs ! k)"
  by (induction "is" arbitrary: rs) (auto simp: nth_list_update)

lemma slots_filled:
  assumes "mset is = mset (filter P [0..<n])"
  shows "fold (\<lambda>i rs. rs[i := f i]) is (replicate n z) = map (\<lambda>i. if P i then f i else z) [0..<n]"
proof (rule nth_equalityI)
  have "set is = {i. i < n \<and> P i}" using mset_eq_setD [OF assms] by auto
  then show "fold (\<lambda>i rs. rs[i := f i]) is (replicate n z) ! k = map (\<lambda>i. if P i then f i else z) [0..<n] ! k"
    if "k < length (fold (\<lambda>i rs. rs[i := f i]) is (replicate n z))" for k
    using that by (simp add: fold_slots)
qed simp

definition row_shown :: "int \<Rightarrow> listener \<Rightarrow> bool" where
  "row_shown self l \<longleftrightarrow> L_PID l \<noteq> self \<and> \<not> (L_Port l = 0 \<and> L_PID l = 0)"

lemma buildOne_keeps [simp]:
  "vm_Port (buildOne insp st now l) = L_Port l" "vm_PID (buildOne insp st now l) = L_PID l"
  "vm_ListenAddrs (buildOne insp st now l) = L_Addrs l" "vm_Alive (buildOne insp st now l)"
  "vm_Source (buildOne insp st now l) = ''external''"
  by (auto simp: buildOne_def Let_def split: option.split sum.split)

text \<open>The label of a row is what the lookup says of its process, and a new label changes no other row.\<close>

context label_lookup
begin

lemma row_label:
  "inspect (L_PID l) = Inr info \<Longrightarrow>
   vm_Label (buildOne (Some inspect) (Some (\<lambda>cwd command. Some (look s cwd command))) now l)
     = look s (PI_Cwd info) (PI_Command info)"
  by (simp add: buildOne_def Let_def)

lemma relabelled_row:
  assumes "ok s" and "inspect (L_PID l) = Inr info" and "same_key (PI_Cwd info) (PI_Command info) cwd command"
  shows "vm_Label (buildOne (Some inspect)
     (Some (\<lambda>c a. Some (look (relabel cwd command label s) c a))) now l) = label"
  by (rule trans [OF row_label [where inspect = inspect and l = l, OF assms(2)]]) (simp add: look_relabel assms)

lemma other_row:
  assumes "ok s" and "inspect (L_PID l) = Inr info" and "\<not> same_key (PI_Cwd info) (PI_Command info) cwd command"
  shows "buildOne (Some inspect) (Some (\<lambda>c a. Some (look (relabel cwd command label s) c a))) now l
    = buildOne (Some inspect) (Some (\<lambda>c a. Some (look s c a))) now l"
  using assms by (simp add: buildOne_def Let_def look_relabel)

end

lemma map_nth_range: "map (\<lambda>i. f (xs ! i)) [0..<length xs] = map f xs"
  by (rule nth_equalityI) simp_all

lemma slots_of_listeners:
  "fold (\<lambda>i rs. rs[i := buildOne insp st now (ls ! i)])
     (rearranged fin (filter (\<lambda>i. L_PID (ls ! i) \<noteq> self) [0..<length ls])) (replicate (length ls) zero_vm)
   = map (\<lambda>l. if L_PID l \<noteq> self then buildOne insp st now l else zero_vm) ls"
  by (subst slots_filled [of _ "\<lambda>i. L_PID (ls ! i) \<noteq> self"])
     (simp, rule map_nth_range [of "\<lambda>l. if L_PID l \<noteq> self then buildOne insp st now l else zero_vm"])

lemma BuildViewModels_eq:
  "BuildViewModels sch now ls insp st self =
    (if ls = [] then []
     else sort_key vm_Port (rearranged (arrange sch) (map (buildOne insp st now) (filter (row_shown self) ls))))"
proof -
  have "filter (\<lambda>vm. \<not> (vm_Port vm = 0 \<and> vm_PID vm = 0))
      (map (\<lambda>l. if L_PID l \<noteq> self then buildOne insp st now l else zero_vm) ls)
    = map (buildOne insp st now) (filter (row_shown self) ls)"
    by (induction ls) (auto simp: zero_vm_def row_shown_def)
  then show ?thesis by (simp only: BuildViewModels_def Let_def slots_of_listeners)
qed

theorem dashboard_rows:
  "mset (BuildViewModels sch now ls insp st self) = mset (map (buildOne insp st now) (filter (row_shown self) ls))
   \<and> sorted (map vm_Port (BuildViewModels sch now ls insp st self))"
  by (simp add: BuildViewModels_eq)

text \<open>With one listener per port nothing depends on the schedule.\<close>

text \<open>
  C37. With one listener per port the rows do not depend on the order in which the goroutines
  finish nor on where the unstable sort starts.
\<close>

theorem schedule_irrelevant:
  assumes "distinct (map L_Port ls)"
  shows "BuildViewModels sch now ls insp st self = BuildViewModels sch' now ls insp st self"
proof -
  have "inj_on vm_Port (set (rearranged (arrange sch) (map (buildOne insp st now) (filter (row_shown self) ls))))"
    using assms by (simp add: rearranged_set) (auto simp: distinct_map inj_on_def)
  then show ?thesis by (simp add: BuildViewModels_eq sort_key_eq_sort_key)
qed

text \<open>The rows of a scan: one for each listener, with the contract of the scanners.\<close>

theorem rows_of_scan:
  assumes "scan_ok lo hi self ls" and "0 < lo"
  shows "length (BuildViewModels sch now ls insp st self) = length ls
    \<and> list_all (\<lambda>vm. lo \<le> vm_Port vm \<and> vm_Port vm \<le> hi \<and> vm_PID vm \<noteq> self \<and> vm_ListenAddrs vm \<noteq> [] \<and> vm_Alive vm)
        (BuildViewModels sch now ls insp st self)"
proof -
  have "filter (row_shown self) ls = ls"
    using assms by (auto simp: filter_id_conv row_shown_def scan_ok_def list_all_iff)
  then have rows: "mset (BuildViewModels sch now ls insp st self) = mset (map (buildOne insp st now) ls)"
    by (simp add: BuildViewModels_eq)
  from mset_eq_length [OF rows] mset_eq_setD [OF rows] assms(1)
  show ?thesis by (auto simp: scan_ok_def list_all_iff)
qed

text \<open>When the process is gone by the time of the snapshot the row keeps its port, its pid and its addresses.\<close>

lemma row_without_snapshot:
  "insp = None \<or> (\<exists>f e. insp = Some f \<and> f (L_PID l) = Inl e) \<Longrightarrow>
   buildOne insp st now l = zero_vm\<lparr>vm_Port := L_Port l, vm_PID := L_PID l, vm_ListenAddrs := L_Addrs l,
     vm_Alive := True, vm_Source := ''external''\<rparr>"
  by (auto simp: buildOne_def)

section \<open>Uptime\<close>

text \<open>The branches of \<open>FormatUptime\<close>, told apart by the digits of the mixed radix instead of by the totals.\<close>

lemma uptime_branches:
  fixes s m h :: int
  assumes "0 \<le> s" and m: "m = s div 60" and h: "h = m div 60"
  shows "(if s < 60 then secs s else if m < 60 then mins m else if h < 24 then hours h (m mod 60) else days (h div 24) (h mod 24)) =
    (if 0 < h div 24 then days (h div 24) (h mod 24)
     else if 0 < h mod 24 then hours (h mod 24) (m mod 60)
     else if 0 < m mod 60 then mins (m mod 60) else secs (s mod 60))"
proof -
  have pos: "0 \<le> m" "0 \<le> h" using assms by (simp_all add: pos_imp_zdiv_nonneg_iff)
  have small: "s < 60 \<longleftrightarrow> m = 0" "m < 60 \<longleftrightarrow> h = 0" "h < 24 \<longleftrightarrow> h div 24 = 0"
    using \<open>0 \<le> s\<close> pos by (auto simp: m h)
  consider (days) "24 \<le> h" | (hours) "h < 24" "0 < h" | (minutes) "h = 0" "0 < m" | (seconds) "m = 0" "h = 0"
    using pos small by fastforce
  then show ?thesis
  proof cases
    case days
    then have "0 < h div 24" "\<not> s < 60" "\<not> m < 60" using small pos by (auto simp: pos_imp_zdiv_pos_iff)
    then show ?thesis using days by simp
  next
    case hours
    then have "\<not> s < 60" "\<not> m < 60" using small by (auto simp: h)
    then show ?thesis using hours by simp
  next
    case minutes
    then have "\<not> s < 60" "m < 60" using small by auto
    then show ?thesis using minutes pos by simp
  next
    case seconds
    then show ?thesis using small \<open>0 \<le> s\<close> by simp
  qed
qed

theorem FormatUptime_reads:
  assumes "0 < d" and "d < 2 ^ 24 * Second"
  shows "\<exists>days h m s. d div Second = ((days * 24 + h) * 60 + m) * 60 + s
    \<and> 0 \<le> days \<and> 0 \<le> h \<and> h < 24 \<and> 0 \<le> m \<and> m < 60 \<and> 0 \<le> s \<and> s < 60
    \<and> FormatUptime d =
        (if 0 < days then itoa days @ ''d '' @ itoa h @ ''h''
         else if 0 < h then itoa h @ ''h '' @ two_digits m @ ''m''
         else if 0 < m then itoa m @ ''m''
         else itoa s @ ''s'')"
proof -
  define s where "s = d div Second"
  define m where "m = s div 60"
  define h where "h = m div 60"
  have int: "int_seconds d = s" using assms by (simp add: int_seconds_exact s_def)
  have s: "0 \<le> s" using assms by (simp add: s_def time_units pos_imp_zdiv_nonneg_iff)
  have F: "FormatUptime d = (if s < 60 then itoa s @ ''s'' else if m < 60 then itoa m @ ''m''
      else if h < 24 then itoa h @ ''h '' @ two_digits (m mod 60) @ ''m''
      else itoa (h div 24) @ ''d '' @ itoa (h mod 24) @ ''h'')"
    using assms(1) int by (simp add: FormatUptime_def Let_def h_def m_def)
  note digits = F [THEN trans, OF uptime_branches [OF s m_def h_def, where days = "\<lambda>d h. itoa d @ ''d '' @ itoa h @ ''h''"
      and hours = "\<lambda>h m. itoa h @ ''h '' @ two_digits m @ ''m''" and mins = "\<lambda>m. itoa m @ ''m''"
      and secs = "\<lambda>s. itoa s @ ''s''"]]
  have total: "d div Second = ((h div 24 * 24 + h mod 24) * 60 + m mod 60) * 60 + s mod 60"
    by (simp add: h_def m_def s_def)
  have days: "0 \<le> h div 24" using s by (simp add: h_def m_def pos_imp_zdiv_nonneg_iff)
  show ?thesis
    by (rule exI [of _ "h div 24"], rule exI [of _ "h mod 24"], rule exI [of _ "m mod 60"], rule exI [of _ "s mod 60"],
        intro conjI total days digits) simp_all
qed

lemma FormatUptime_reads_witness:
  "\<exists>days h m s. (8288 * Second) div Second = ((days * 24 + h) * 60 + m) * 60 + s
    \<and> 0 \<le> days \<and> 0 \<le> h \<and> h < 24 \<and> 0 \<le> m \<and> m < 60 \<and> 0 \<le> s \<and> s < 60
    \<and> FormatUptime (8288 * Second) =
        (if 0 < days then itoa days @ ''d '' @ itoa h @ ''h''
         else if 0 < h then itoa h @ ''h '' @ two_digits m @ ''m''
         else if 0 < m then itoa m @ ''m''
         else itoa s @ ''s'')"
  by (rule FormatUptime_reads) (simp_all add: time_units)

definition sample_schedule :: schedule where
  "sample_schedule = \<lparr>finish = rev, arrange = rev\<rparr>"

definition sample_listeners :: "listener list" where
  "sample_listeners = [\<lparr>L_PID = 12, L_Port = 40001, L_Protocol = ''tcp'', L_Addrs = [''0.0.0.0:40001''], L_Source = ''lsof''\<rparr>,
     \<lparr>L_PID = 9, L_Port = 40123, L_Protocol = ''tcp'', L_Addrs = [''0.0.0.0:40123''], L_Source = ''lsof''\<rparr>]"

lemma schedule_irrelevant_witness:
  "BuildViewModels sample_schedule 0 sample_listeners None None 7 =
   BuildViewModels (sample_schedule\<lparr>finish := id\<rparr>) 0 sample_listeners None None 7"
  by (rule schedule_irrelevant) (simp add: sample_listeners_def)

lemma rows_of_scan_witness:
  "length (BuildViewModels sample_schedule 0 sample_listeners None None 7) = 2
    \<and> list_all (\<lambda>vm. 40000 \<le> vm_Port vm \<and> vm_Port vm \<le> 40500 \<and> vm_PID vm \<noteq> 7 \<and> vm_ListenAddrs vm \<noteq> [] \<and> vm_Alive vm)
        (BuildViewModels sample_schedule 0 sample_listeners None None 7)"
  using rows_of_scan [of 40000 40500 7 sample_listeners sample_schedule 0 None None]
  by (simp add: sample_listeners_def scan_ok_def key_of_def less_eq_listener_key_def less_listener_key_def listed_before_def)

end
