(* ===== verification/Server.thy ===== *)
theory Server
  imports Http Process ViewModel
begin

text \<open>
  \<^verbatim>\<open>internal/server\<close>: the handlers, the middleware and the routes.

  A request is one step from a site (limiter, store, file system, snapshot, processes, log) to the
  next, with the response it wrote. What it reads from outside is its environment: the clock at
  each use, the host at each scan, the inspector, the templates, the JSON encoder, the faults of
  the file system. The components a server may lack are optional, as in \<open>server.New\<close>.
\<close>

section \<open>State\<close>

datatype view =
    LoginView string string string
  | DashboardView string int int string
  | PortsView "portvm list"

text \<open>One line of the request log.\<close>

record log_line =
  lg_request_id :: string
  lg_method :: string
  lg_path :: string
  lg_remote :: string
  lg_status :: int
  lg_bytes :: nat
  lg_ua :: string
  lg_auth_header :: string
  lg_cookie :: string

record server =
  sv_cfg :: "config option"
  sv_scanner :: "(host \<Rightarrow> scan_error + listener list) option"
  sv_inspector :: bool
  sv_process :: "manager option"
  sv_user :: string
  sv_selfPID :: int

record site =
  si_auth :: "auth option"
  si_store :: "store option"
  si_fs :: fs
  si_snapshot :: "portvm list \<times> gotime"
  si_world :: world
  si_spawned :: "spawn_event list"
  si_log :: "log_line list"

record request_env =
  q_verify_now :: gotime
  q_check_now :: gotime
  q_fail_now :: gotime
  q_issue_now :: gotime
  q_expire_now :: gotime
  q_rows_now :: gotime
  q_snap_now :: gotime
  q_sweep :: "failure_map \<Rightarrow> failure_map"
  q_host_resolve :: host
  q_host_verify :: host
  q_host_rows :: host
  q_inspect :: inspector
  q_inspect_rows :: inspector
  q_schedule :: schedule
  q_ctx_rows :: "ctx_error option"
  q_store_env :: store_env
  q_spawn_env :: spawn_env
  q_render :: "view \<Rightarrow> string option"
  q_json :: "portvm list \<Rightarrow> string"
  q_scan_text :: "scan_error \<Rightarrow> string"
  q_process_text :: "process_error \<Rightarrow> string"
  q_store_text :: "store_error \<Rightarrow> string"
  q_static :: "request \<Rightarrow> writer \<Rightarrow> writer"

type_synonym exchange = "writer \<times> site"
type_synonym handler = "request \<Rightarrow> exchange \<Rightarrow> exchange"

definition on_writer :: "(writer \<Rightarrow> writer) \<Rightarrow> exchange \<Rightarrow> exchange" where
  "on_writer f = (\<lambda>(w, st). (f w, st))"

definition html_page :: "string \<Rightarrow> writer \<Rightarrow> writer" where
  "html_page body w = Write body (set_header ''Content-Type'' ''text/html; charset=utf-8'' w)"

section \<open>Configuration as the handlers see it\<close>

definition trustXFF :: "server \<Rightarrow> bool" where
  "trustXFF s = (case sv_cfg s of None \<Rightarrow> False | Some c \<Rightarrow> TrustXFF c)"

definition publicHost :: "server \<Rightarrow> string" where
  "publicHost s = (case sv_cfg s of None \<Rightarrow> [] | Some c \<Rightarrow> PublicHost c)"

definition portMin :: "server \<Rightarrow> int" where
  "portMin s = (case sv_cfg s of None \<Rightarrow> 0 | Some c \<Rightarrow> PortMin c)"

definition portMax :: "server \<Rightarrow> int" where
  "portMax s = (case sv_cfg s of None \<Rightarrow> 0 | Some c \<Rightarrow> PortMax c)"

definition portInRange :: "server \<Rightarrow> int \<Rightarrow> bool" where
  "portInRange s p = (case sv_cfg s of None \<Rightarrow> False | Some c \<Rightarrow> PortMin c \<le> p \<and> p \<le> PortMax c)"

section \<open>Authentication\<close>

definition AuthKindNone :: string where "AuthKindNone = []"
definition AuthKindBearer :: string where "AuthKindBearer = ''bearer''"
definition AuthKindCookie :: string where "AuthKindCookie = ''cookie''"

definition authenticate :: "request_env \<Rightarrow> site \<Rightarrow> request \<Rightarrow> string option" where
  "authenticate q st r =
    (case si_auth st of
       None \<Rightarrow> None
     | Some a \<Rightarrow>
         let authz = header_get r ''Authorization'' in
         if has_prefix ''Bearer '' authz then
           (if CheckBearer a (trim_space (drop 7 authz)) then Some AuthKindBearer else None)
         else case request_cookie r ''pm_session'' of
           None \<Rightarrow> None
         | Some v \<Rightarrow> if v \<noteq> [] \<and> VerifyCookie a (q_verify_now q) v then Some AuthKindCookie else None)"

definition requireAuth :: "request_env \<Rightarrow> handler \<Rightarrow> handler" where
  "requireAuth q next r = (\<lambda>(w, st).
    case authenticate q st r of
      Some kind \<Rightarrow> next (r\<lparr>rq_authKind := kind\<rparr>) (w, st)
    | None \<Rightarrow> (http_error ''unauthorized'' 401 w, st))"

definition requireAuthOrRedirect :: "request_env \<Rightarrow> handler \<Rightarrow> handler" where
  "requireAuthOrRedirect q next r = (\<lambda>(w, st).
    case authenticate q st r of
      Some kind \<Rightarrow> next (r\<lparr>rq_authKind := kind\<rparr>) (w, st)
    | None \<Rightarrow> (redirect r ''/login'' w, st))"

definition withRateLimit :: "server \<Rightarrow> request_env \<Rightarrow> handler \<Rightarrow> handler" where
  "withRateLimit s q next r = (\<lambda>(w, st).
    case si_auth st of
      None \<Rightarrow> next r (w, st)
    | Some a \<Rightarrow>
        let ip = remoteIP r (trustXFF s);
            ((allowed, retry), a') = RateLimitCheck ip (q_check_now q) a;
            st = st\<lparr>si_auth := Some a'\<rparr>
        in if \<not> allowed then
             let seconds = int_seconds retry;
                 seconds = (if seconds < 1 then 1 else seconds)
             in (http_error ''too many login attempts; try again later'' 429
                   (set_header ''Retry-After'' (itoa seconds) w), st)
           else next r (w, st))"

definition withCSRF :: "handler \<Rightarrow> handler" where
  "withCSRF next r = (\<lambda>(w, st).
    if rq_authKind r = AuthKindBearer then next r (w, st)
    else if header_get r ''X-Requested-With'' \<noteq> ''XMLHttpRequest''
    then (http_error ''csrf: missing X-Requested-With'' 403 w, st)
    else next r (w, st))"

section \<open>Public handlers\<close>

definition handleHealthz :: handler where
  "handleHealthz r = on_writer (\<lambda>w. Write ''ok'' (set_header ''Content-Type'' ''text/plain; charset=utf-8'' w))"

definition cookieAuthed :: "request_env \<Rightarrow> site \<Rightarrow> request \<Rightarrow> bool" where
  "cookieAuthed q st r =
    (case si_auth st of
       None \<Rightarrow> False
     | Some a \<Rightarrow>
         (case request_cookie r ''pm_session'' of
            None \<Rightarrow> False
          | Some v \<Rightarrow> if v = [] then False else VerifyCookie a (q_verify_now q) v))"

definition handleLoginGet :: "server \<Rightarrow> request_env \<Rightarrow> handler" where
  "handleLoginGet s q r = (\<lambda>(w, st).
    if cookieAuthed q st r then (redirect r ''/'' w, st)
    else case q_render q (LoginView (publicHost s) (sanitiseNext (first_value (rq_query r ''next''))) []) of
      None \<Rightarrow> (http_error ''internal error'' 500 w, st)
    | Some body \<Rightarrow> (html_page body w, st))"

definition handleLoginPost :: "server \<Rightarrow> request_env \<Rightarrow> handler" where
  "handleLoginPost s q r = (\<lambda>(w, st).
    case si_auth st of
      None \<Rightarrow> (http_error ''auth not configured'' 503 w, st)
    | Some a \<Rightarrow>
      (case rq_form r of
         None \<Rightarrow> (http_error ''bad form'' 400 w, st)
       | Some form \<Rightarrow>
         let token = first_value (form ''token'');
             next = sanitiseNext (first_value (form ''next''));
             ip = remoteIP r (trustXFF s)
         in if \<not> CheckBearer a token then
              let st = st\<lparr>si_auth := Some (RateLimitRecordFailure (q_sweep q) ip (q_fail_now q) a)\<rparr>;
                  body = (case q_render q (LoginView (publicHost s) next ''invalid token'') of None \<Rightarrow> [] | Some b \<Rightarrow> b);
                  w = set_header ''Content-Type'' ''text/html; charset=utf-8'' w
              in (Write body (WriteHeader 401 w), st)
            else
              let a = RateLimitRecordSuccess ip a;
                  st = st\<lparr>si_auth := Some a\<rparr>;
                  w = add_cookie \<lparr>ck_value = IssueCookie a (q_issue_now q), ck_path = ''/'', ck_http_only = True,
                        ck_same_site_lax = True, ck_expires = Some (q_expire_now q + 24 * Hour), ck_max_age = 0\<rparr> w;
                  dest = (if next = [] then ''/'' else next)
              in (redirect r dest w, st)))"

definition handleLogout :: handler where
  "handleLogout r = on_writer (\<lambda>w.
    let w = add_cookie \<lparr>ck_value = [], ck_path = ''/'', ck_http_only = True, ck_same_site_lax = True,
              ck_expires = None, ck_max_age = - 1\<rparr> w;
        w = (if header_get r ''X-Requested-With'' = ''XMLHttpRequest'' then set_header ''HX-Redirect'' ''/login'' w else w)
    in redirect r ''/login'' w)"

definition handleStatic :: "request_env \<Rightarrow> handler" where
  "handleStatic q r = on_writer (\<lambda>w.
    if has_suffix ''/'' (rq_path r) then http_error ''404 page not found'' 404 w else q_static q r w)"

definition handleDashboard :: "server \<Rightarrow> request_env \<Rightarrow> handler" where
  "handleDashboard s q r = on_writer (\<lambda>w.
    case q_render q (DashboardView (publicHost s) (portMin s) (portMax s) (sv_user s)) of
      None \<Rightarrow> http_error ''internal error'' 500 w
    | Some body \<Rightarrow> html_page body w)"

section \<open>The table of ports\<close>

definition is_deadline :: "scan_error \<Rightarrow> bool" where
  "is_deadline e \<longleftrightarrow> e = ErrCtx DeadlineExceeded"

definition buildSnapshot :: "server \<Rightarrow> request_env \<Rightarrow> site \<Rightarrow> portvm list \<times> scan_error option" where
  "buildSnapshot s q st =
    (case sv_scanner s of
       None \<Rightarrow> ([], None)
     | Some scan \<Rightarrow>
         (case scan (q_host_rows q) of
            Inl e \<Rightarrow> ([], Some e)
          | Inr listeners \<Rightarrow>
              let lookup = map_option (\<lambda>sto cwd command. Some (Label sto cwd command)) (si_store st);
                  insp = (if sv_inspector s then Some (q_inspect_rows q) else None);
                  rows = BuildViewModels (q_schedule q) (q_rows_now q) listeners insp lookup (sv_selfPID s)
              in (rows, map_option ErrCtx (q_ctx_rows q))))"

text \<open>The cache of the last good rows; its lock makes each access one step.\<close>

definition snapshot_Get :: "site \<Rightarrow> portvm list \<times> gotime" where
  "snapshot_Get st = si_snapshot st"

definition snapshot_Set :: "portvm list \<Rightarrow> gotime \<Rightarrow> site \<Rightarrow> site" where
  "snapshot_Set rows now st = st\<lparr>si_snapshot := (rows, now)\<rparr>"

text \<open>
  The rows to show and the fallback: what \<open>handlePortsHTML\<close>, \<open>handlePortsJSON\<close> and
  \<open>writePortsFragment\<close> do alike before they write.
\<close>

definition rows_or_cached :: "server \<Rightarrow> request_env \<Rightarrow> exchange \<Rightarrow> portvm list \<times> exchange" where
  "rows_or_cached s q = (\<lambda>(w, st).
    case buildSnapshot s q st of
      (rows, Some e) \<Rightarrow>
        (fst (snapshot_Get st), (set_header ''X-Scan-Error'' (if is_deadline e then ''timeout'' else ''error'') w, st))
    | (rows, None) \<Rightarrow> (rows, (w, snapshot_Set rows (q_snap_now q) st)))"

definition write_rows :: "request_env \<Rightarrow> portvm list \<Rightarrow> writer \<Rightarrow> writer" where
  "write_rows q rows w =
    (case q_render q (PortsView rows) of
       None \<Rightarrow> http_error ''internal error'' 500 w
     | Some body \<Rightarrow> html_page body w)"

definition handlePortsHTML :: "server \<Rightarrow> request_env \<Rightarrow> handler" where
  "handlePortsHTML s q r x =
    (let (rows, (w, st)) = rows_or_cached s q x in (write_rows q rows w, st))"

definition handlePortsJSON :: "server \<Rightarrow> request_env \<Rightarrow> handler" where
  "handlePortsJSON s q r x =
    (let (rows, (w, st)) = rows_or_cached s q x
     in (Write (q_json q rows) (set_header ''Content-Type'' ''application/json; charset=utf-8'' w), st))"

definition writePortsFragment :: "server \<Rightarrow> request_env \<Rightarrow> exchange \<Rightarrow> exchange" where
  "writePortsFragment s q x =
    (let (rows, (w, st)) = rows_or_cached s q x in (write_rows q rows w, st))"

definition remembered_row :: "remembered \<Rightarrow> portvm" where
  "remembered_row e = zero_vm\<lparr>vm_Port := r_Port e, vm_Cmd := join '' '' (r_Command e), vm_Cwd := r_Cwd e,
     vm_Source := ''remembered'', vm_Remembered := True, vm_RememberedID := r_ID e, vm_Alive := False\<rparr>"

definition handleRememberedList :: "request_env \<Rightarrow> handler" where
  "handleRememberedList q r = (\<lambda>(w, st).
    case si_store st of
      None \<Rightarrow> (http_error ''store not wired'' 503 w, st)
    | Some sto \<Rightarrow> (write_rows q (map remembered_row (AllRemembered sto)) w, st))"

section \<open>Mutations\<close>

definition resolvePIDForPort :: "(host \<Rightarrow> scan_error + listener list) \<Rightarrow> host \<Rightarrow> int \<Rightarrow> scan_error + int option" where
  "resolvePIDForPort scan h port =
    (case scan h of
       Inl e \<Rightarrow> Inl e
     | Inr listeners \<Rightarrow> Inr (map_option L_PID (List.find (\<lambda>l. L_Port l = port) listeners)))"

definition pending_entry :: "int \<Rightarrow> procinfo \<Rightarrow> remembered" where
  "pending_entry port info = \<lparr>r_ID = [], r_Port = port, r_Command = PI_Command info, r_Cwd = PI_Cwd info,
     r_Env = PI_Env info, r_KilledAt = zero_time, r_LabelKey = []\<rparr>"

definition snapshot_of :: "server \<Rightarrow> request_env \<Rightarrow> int \<Rightarrow> procinfo option" where
  "snapshot_of s q pid =
    (if sv_inspector s then (case q_inspect q pid of Inl _ \<Rightarrow> None | Inr info \<Rightarrow> Some info) else None)"

text \<open>\<open>_ = s.store.Remember(pending)\<close>: the error is dropped.\<close>

definition remember_pending :: "request_env \<Rightarrow> remembered option \<Rightarrow> site \<Rightarrow> site" where
  "remember_pending q pending st =
    (case (pending, si_store st) of
       (Some r, Some sto) \<Rightarrow>
         (let ((sto', f'), _) = Remember (q_store_env q) r (sto, si_fs st)
          in st\<lparr>si_store := Some sto', si_fs := f'\<rparr>)
     | _ \<Rightarrow> st)"

definition handleKillMutation :: "server \<Rightarrow> request_env \<Rightarrow> string \<Rightarrow> handler" where
  "handleKillMutation s q pathPort r = (\<lambda>(w, st).
    case atoi pathPort of None \<Rightarrow> (http_error ''bad port'' 400 w, st) | Some port \<Rightarrow>
    if \<not> portInRange s port then (http_error ''port out of range'' 400 w, st) else
    case sv_process s of None \<Rightarrow> (http_error ''process manager not wired'' 503 w, st) | Some m \<Rightarrow>
    case sv_scanner s of None \<Rightarrow> (http_error ''scanner not wired'' 503 w, st) | Some scan \<Rightarrow>
    case resolvePIDForPort scan (q_host_resolve q) port of
      Inl e \<Rightarrow> (http_error (''scan failed: '' @ q_scan_text q e) 502 w, st)
    | Inr None \<Rightarrow> (http_error ''no listener on port'' 404 w, st)
    | Inr (Some pid) \<Rightarrow>
        if pid = sv_selfPID s then (http_error ''refusing to kill self'' 403 w, st)
        else
          let pending = map_option (pending_entry port) (snapshot_of s q pid);
              (err, world) = Kill m (q_host_verify q) pid (si_world st);
              st = st\<lparr>si_world := world\<rparr>
          in case err of
               Some ErrSelfPID \<Rightarrow> (http_error ''refusing to kill self'' 403 w, st)
             | Some e \<Rightarrow> (http_error (''kill failed: '' @ q_process_text q e) 500 w, st)
             | None \<Rightarrow> writePortsFragment s q (w, remember_pending q pending st))"

definition handleKill :: "server \<Rightarrow> request_env \<Rightarrow> string \<Rightarrow> handler" where
  "handleKill s q pathPort r = (\<lambda>(w, st).
    case atoi pathPort of
      None \<Rightarrow> (http_error ''bad port'' 400 w, st)
    | Some port \<Rightarrow>
        if \<not> portInRange s port then (http_error ''port out of range'' 400 w, st)
        else handleKillMutation s q pathPort r (w, st))"

definition handleRestart :: "server \<Rightarrow> request_env \<Rightarrow> string \<Rightarrow> handler" where
  "handleRestart s q pathId r = (\<lambda>(w, st).
    let rid = trim_space pathId in
    if rid = [] then (http_error ''missing remembered id'' 400 w, st)
    else case sv_process s of
      None \<Rightarrow> (http_error ''process manager not wired'' 503 w, st)
    | Some m \<Rightarrow>
        (case si_store st of
           None \<Rightarrow> (http_error ''store not wired'' 503 w, st)
         | Some sto \<Rightarrow>
             let (events, err) = Restart m (q_spawn_env q) sto rid;
                 st = st\<lparr>si_spawned := si_spawned st @ events\<rparr>
             in case err of
                  Some ErrRememberedNotFound \<Rightarrow> (http_error ''remembered entry not found'' 404 w, st)
                | Some e \<Rightarrow> (http_error (''restart failed: '' @ q_process_text q e) 500 w, st)
                | None \<Rightarrow> (Write ''restart dispatched'' (WriteHeader 202 w), st)))"

definition handleRenameMutation :: "server \<Rightarrow> request_env \<Rightarrow> string \<Rightarrow> handler" where
  "handleRenameMutation s q pathPort r = (\<lambda>(w, st).
    case atoi pathPort of None \<Rightarrow> (http_error ''bad port'' 400 w, st) | Some port \<Rightarrow>
    if \<not> portInRange s port then (http_error ''port out of range'' 400 w, st) else
    case sv_scanner s of None \<Rightarrow> (http_error ''scanner not wired'' 503 w, st) | Some scan \<Rightarrow>
    if \<not> sv_inspector s then (http_error ''inspector not wired'' 503 w, st) else
    case si_store st of None \<Rightarrow> (http_error ''store not wired'' 503 w, st) | Some sto \<Rightarrow>
    case rq_form r of None \<Rightarrow> (http_error ''bad form'' 400 w, st) | Some form \<Rightarrow>
    let label = first_value (form ''label'') in
    case validateLabel label of
      Some LabelTooLong \<Rightarrow> (http_error ''label exceeds 64 characters'' 400 w, st)
    | Some LabelControl \<Rightarrow> (http_error ''label contains a control character'' 400 w, st)
    | None \<Rightarrow>
        (case resolvePIDForPort scan (q_host_resolve q) port of
           Inl e \<Rightarrow> (http_error (''scan failed: '' @ q_scan_text q e) 502 w, st)
         | Inr None \<Rightarrow> (http_error ''no listener on port'' 404 w, st)
         | Inr (Some pid) \<Rightarrow>
             (case q_inspect q pid of
                Inl _ \<Rightarrow> (http_error ''inspect failed'' 502 w, st)
              | Inr info \<Rightarrow>
                  let ((sto', f'), err) = SetLabel (q_store_env q) (PI_Cwd info) (PI_Command info) label (sto, si_fs st);
                      st = st\<lparr>si_store := Some sto', si_fs := f'\<rparr>
                  in case err of
                       Some ErrLabelTooLong \<Rightarrow> (http_error ''label too long'' 400 w, st)
                     | Some e \<Rightarrow> (http_error (''persist label: '' @ q_store_text q e) 500 w, st)
                     | None \<Rightarrow> writePortsFragment s q (w, st))))"

definition handleRename :: "server \<Rightarrow> request_env \<Rightarrow> string \<Rightarrow> handler" where
  "handleRename s q pathPort r = (\<lambda>(w, st).
    case atoi pathPort of
      None \<Rightarrow> (http_error ''bad port'' 400 w, st)
    | Some port \<Rightarrow>
        if \<not> portInRange s port then (http_error ''port out of range'' 400 w, st)
        else handleRenameMutation s q pathPort r (w, st))"

section \<open>Routes\<close>

text \<open>
  The patterns of \<open>buildHandler\<close> as \<open>http.ServeMux\<close> matches them: a pattern for GET serves HEAD
  too, a wildcard takes one non-empty segment, \<open>{$}\<close> the root alone. A path that matches only under
  another method is refused with 405. The path is given by its decoded segments; \<open>ServeMux\<close>
  redirects unclean paths before it matches.
\<close>

datatype route =
    RHealthz | RLoginGet | RLoginPost | RStatic | RStaticRoot | RLogout | RDashboard | RKill string | RRestart string
  | RRename string | RPorts | RPortsJSON | RRemembered | RWrongMethod | RNotFound

definition route_of :: "string \<Rightarrow> string list \<Rightarrow> route" where
  "route_of m segs =
    (let get = (\<lambda>x. if m = ''GET'' \<or> m = ''HEAD'' then x else RWrongMethod);
         post = (\<lambda>x. if m = ''POST'' then x else RWrongMethod)
     in case segs of
          [a] \<Rightarrow>
            (if a = [] then get RDashboard
             else if a = ''healthz'' then get RHealthz
             else if a = ''login'' then (if m = ''POST'' then RLoginPost else get RLoginGet)
             else if a = ''static'' then get RStaticRoot
             else if a = ''logout'' then post RLogout
             else if a = ''ports'' then get RPorts
             else if a = ''ports.json'' then get RPortsJSON
             else if a = ''remembered'' then get RRemembered
             else RNotFound)
        | a # b # bs \<Rightarrow>
            (if a = ''static'' then get RStatic
             else if bs \<noteq> [] \<or> b = [] then RNotFound
             else if a = ''kill'' then post (RKill b)
             else if a = ''restart'' then post (RRestart b)
             else if a = ''rename'' then post (RRename b)
             else RNotFound)
        | [] \<Rightarrow> RNotFound)"

definition dispatch :: "server \<Rightarrow> request_env \<Rightarrow> route \<Rightarrow> handler" where
  "dispatch s q rt =
    (case rt of
       RHealthz \<Rightarrow> handleHealthz
     | RLoginGet \<Rightarrow> handleLoginGet s q
     | RLoginPost \<Rightarrow> withRateLimit s q (handleLoginPost s q)
     | RStatic \<Rightarrow> handleStatic q
     | RStaticRoot \<Rightarrow> (\<lambda>r. on_writer (\<lambda>w. WriteHeader 301 (set_header ''Location'' ''/static/'' w)))
     | RLogout \<Rightarrow> requireAuth q (withCSRF handleLogout)
     | RDashboard \<Rightarrow> requireAuthOrRedirect q (handleDashboard s q)
     | RKill port \<Rightarrow> requireAuth q (withCSRF (handleKill s q port))
     | RRestart rid \<Rightarrow> requireAuth q (withCSRF (handleRestart s q rid))
     | RRename port \<Rightarrow> requireAuth q (withCSRF (handleRename s q port))
     | RPorts \<Rightarrow> requireAuth q (handlePortsHTML s q)
     | RPortsJSON \<Rightarrow> requireAuth q (handlePortsJSON s q)
     | RRemembered \<Rightarrow> requireAuth q (handleRememberedList q)
     | RWrongMethod \<Rightarrow> (\<lambda>r. on_writer (http_error ''Method Not Allowed'' 405))
     | RNotFound \<Rightarrow> (\<lambda>r. on_writer (http_error ''404 page not found'' 404)))"

section \<open>The pipeline\<close>

text \<open>A handler that may panic: the value of the panic, if any, with what was written by then.\<close>

type_synonym panicking = "request \<Rightarrow> exchange \<Rightarrow> string option \<times> exchange"

definition recoverMiddleware :: "panicking \<Rightarrow> handler" where
  "recoverMiddleware next r x =
    (case next r x of
       (None, x') \<Rightarrow> x'
     | (Some _, (w, st)) \<Rightarrow> (http_error ''internal server error'' 500 w, st))"

definition log_line_of :: "request \<Rightarrow> writer \<Rightarrow> log_line" where
  "log_line_of r w =
    \<lparr>lg_request_id = rq_id r, lg_method = rq_method r, lg_path = rq_path r, lg_remote = remoteAddr r,
     lg_status = rec_status w, lg_bytes = length (w_body w), lg_ua = header_get r ''User-Agent'',
     lg_auth_header = redactAuthHeader (header_get r ''Authorization''),
     lg_cookie = redactCookieHeader (header_get r ''Cookie'')\<rparr>"

definition loggerMiddleware :: "handler \<Rightarrow> handler" where
  "loggerMiddleware next r x =
    (let (w, st) = next r x in (w, st\<lparr>si_log := si_log st @ [log_line_of r w]\<rparr>))"

text \<open>The trace id: 8 random bytes in hexadecimal, the clock when there are none.\<close>

definition newRequestID :: "byte list option \<Rightarrow> string \<Rightarrow> string" where
  "newRequestID random nanos = (case random of None \<Rightarrow> nanos | Some bs \<Rightarrow> hex_encode bs)"

definition requestIDMiddleware :: "string \<Rightarrow> handler \<Rightarrow> handler" where
  "requestIDMiddleware i next r = (\<lambda>(w, st). next (r\<lparr>rq_id := i\<rparr>) (set_header ''X-Request-Id'' i w, st))"

definition serve :: "server \<Rightarrow> request_env \<Rightarrow> string \<Rightarrow> string list \<Rightarrow> request \<Rightarrow> site \<Rightarrow> exchange" where
  "serve s q i segs r st =
    requestIDMiddleware i (loggerMiddleware (recoverMiddleware
      (\<lambda>r x. (None, dispatch s q (route_of (rq_method r) segs) r x)))) r (new_writer, st)"

end
