(* ===== verification/HttpFacts.thy ===== *)
theory HttpFacts
  imports Http
begin

text \<open>
  Properties of the helpers of \<^verbatim>\<open>internal/server\<close>: what the log shows of credentials, where a
  redirect after a login can lead, which cookie a request carries, and which address it comes from.
\<close>

section \<open>Redaction\<close>

text \<open>A session cookie among the segments of a header, after some blanks.\<close>

definition session_header :: "string list \<Rightarrow> nat \<Rightarrow> string \<Rightarrow> string \<Rightarrow> string list \<Rightarrow> string" where
  "session_header pre n name v post = join '';'' (pre @ [replicate n CHR '' '' @ name @ CHR ''='' # v] @ post)"

definition session_name :: "string \<Rightarrow> bool" where
  "session_name name \<longleftrightarrow> CHR ''='' \<notin> set name \<and> CHR '';'' \<notin> set name \<and> name \<noteq> [] \<and> hd name \<noteq> CHR '' ''
     \<and> equal_fold name ''pm_session''"

lemma redact_part_value:
  assumes "session_name name"
  shows "redact_part (replicate n CHR '' '' @ name @ CHR ''='' # v) = replicate n CHR '' '' @ name @ ''=[REDACTED]''"
proof -
  obtain c cs where name: "name = c # cs" using assms by (cases name) (auto simp: session_name_def)
  have trim: "trim_left_char CHR '' '' (replicate n CHR '' '' @ name @ CHR ''='' # v) = name @ CHR ''='' # v"
    using assms by (induction n) (simp_all add: trim_left_char_def name session_name_def)
  have eq: "index_byte CHR ''='' (name @ CHR ''='' # v) = Some (Suc (length cs))"
    using index_byte_append [of "CHR ''=''" name v] assms by (simp add: name session_name_def)
  show ?thesis
    unfolding redact_part_def trim Let_def eq using assms by (simp add: name session_name_def)
qed

lemma redact_cookie_value:
  assumes "session_name name" and "CHR '';'' \<notin> set v" and "\<forall>p \<in> set pre \<union> set post. CHR '';'' \<notin> set p"
  shows "redactCookieHeader (session_header pre n name v post) =
    join '';'' (map redact_part pre @ [replicate n CHR '' '' @ name @ ''=[REDACTED]''] @ map redact_part post)"
proof -
  let ?segs = "pre @ [replicate n CHR '' '' @ name @ CHR ''='' # v] @ post"
  have "split_on CHR '';'' (session_header pre n name v post) = ?segs"
    unfolding session_header_def using assms by (intro split_on_join) (auto simp: session_name_def)
  moreover have "session_header pre n name v post \<noteq> []"
  proof
    assume "session_header pre n name v post = []"
    then have "?segs = [[]]" using calculation by simp
    then show False by (cases pre) auto
  qed
  ultimately show ?thesis by (simp add: redactCookieHeader_def redact_part_value [OF assms(1)])
qed

lemma redact_auth_value:
  "scheme \<noteq> [] \<Longrightarrow> CHR '' '' \<notin> set scheme \<Longrightarrow> redactAuthHeader (scheme @ '' '' @ v) = scheme @ '' [REDACTED]''"
  using index_byte_append [of "CHR '' ''" scheme v]
  by (cases scheme) (auto simp: redactAuthHeader_def)

text \<open>A header without a blank is logged in full.\<close>

theorem redact_auth_bare:
  assumes "CHR '' '' \<notin> set v" and "v \<noteq> []"
  shows "redactAuthHeader v = v @ '' [REDACTED]''"
  using assms index_byte_None [of "CHR '' ''" v] by (simp add: redactAuthHeader_def)

lemma redact_auth_bare_witness: "redactAuthHeader ''0123456789abcdef'' = ''0123456789abcdef [REDACTED]''"
  using redact_auth_bare [of "''0123456789abcdef''"] by simp

section \<open>The session cookie of a request\<close>

definition cookie_text :: "string \<Rightarrow> bool" where
  "cookie_text v \<longleftrightarrow> list_all valid_cookie_byte v \<and> v \<noteq> [] \<and> last v \<noteq> CHR '' ''"

lemma valid_cookie_byte_facts:
  "valid_cookie_byte c \<Longrightarrow> c \<noteq> CHR '';'' \<and> c \<noteq> CHR 0x22 \<and> c \<noteq> CHR 0x09 \<and> c \<noteq> CHR 0x0A \<and> c \<noteq> CHR 0x0D"
  by (auto simp: valid_cookie_byte_def Let_def)

lemma trim_string_ident:
  "s \<noteq> [] \<Longrightarrow> hd s \<notin> set [CHR '' '', CHR 0x09, CHR 0x0A, CHR 0x0D] \<Longrightarrow>
   last s \<notin> set [CHR '' '', CHR 0x09, CHR 0x0A, CHR 0x0D] \<Longrightarrow> trim_string s = s"
  by (simp add: trim_string_def Let_def dropWhile_eq_self_iff [THEN iffD2] hd_rev)

lemma cookie_text_last:
  "cookie_text v \<Longrightarrow> last v \<notin> set [CHR '' '', CHR 0x09, CHR 0x0A, CHR 0x0D]"
  using valid_cookie_byte_facts [of "last v"] by (auto simp: cookie_text_def list_all_iff)

lemma cookie_value_text: "cookie_text v \<Longrightarrow> cookie_value v = Some v"
  using valid_cookie_byte_facts [of "hd v"]
  by (cases v) (auto simp: cookie_text_def cookie_value_def)

lemma cookie_text_no_sep: "cookie_text v \<Longrightarrow> CHR '';'' \<notin> set v"
  using valid_cookie_byte_facts by (auto simp: cookie_text_def list_all_iff)

text \<open>Blanks between the name and the equals sign do not matter.\<close>

lemma request_cookie_text:
  assumes "cookie_text v" and "rq_header r ''Cookie'' = [''pm_session'' @ replicate n CHR '' '' @ ''='' @ v]"
  shows "request_cookie r ''pm_session'' = Some v"
proof -
  let ?s = "''pm_session'' @ replicate n CHR '' '' @ ''='' @ v"
  have trim: "trim_string ?s = ?s"
    using cookie_text_last [OF assms(1)] assms(1) by (intro trim_string_ident) (auto simp: cookie_text_def)
  have split: "split_on CHR '';'' ?s = [?s]"
    using cookie_text_no_sep [OF assms(1)] by (intro split_on_no_sep) auto
  define p where "p = ''pm_session'' @ replicate n CHR '' ''"
  have s: "?s = p @ CHR ''='' # v" by (simp add: p_def)
  have eq: "index_byte CHR ''='' ?s = Some (length p)"
    unfolding s by (rule index_byte_append) (simp add: p_def)
  have name: "trim_string (take (length p) ?s) = ''pm_session''"
    unfolding s by (simp add: p_def trim_string_def Let_def dropWhile_append)
  have rest: "drop (Suc (length p)) ?s = v" unfolding s by simp
  have "?s \<noteq> []" by simp
  then have "cookie_segment ''pm_session'' ?s = Some v"
    unfolding cookie_segment_def Let_def trim eq option.case name rest
    using cookie_value_text [OF assms(1)] by simp
  then show ?thesis
    by (simp only: request_cookie_def assms(2) list.map concat.simps trim split append_Nil2)
       (simp add: List.map_filter_def)
qed

text \<open>A session cookie with a blank before the equals sign authenticates and is logged in full.\<close>

theorem spaced_cookie_logged:
  assumes "cookie_text v" and "rq_header r ''Cookie'' = [''pm_session ='' @ v]"
  shows "request_cookie r ''pm_session'' = Some v
    \<and> redactCookieHeader (header_get r ''Cookie'') = ''pm_session ='' @ v"
proof
  show "request_cookie r ''pm_session'' = Some v"
    using request_cookie_text [OF assms(1), of r 1] assms(2) by simp
  define s where "s = ''pm_session ='' @ v"
  have split: "split_on CHR '';'' s = [s]"
    using cookie_text_no_sep [OF assms(1)] by (intro split_on_no_sep) (auto simp: s_def)
  have trim: "trim_left_char CHR '' '' s = s" by (simp add: trim_left_char_def s_def)
  have eq: "index_byte CHR ''='' s = Some (Suc 10)"
    using index_byte_append [of "CHR ''=''" "''pm_session ''" v] by (simp add: s_def)
  have "take (Suc 10) s = ''pm_session ''" by (simp add: s_def)
  moreover have "\<not> equal_fold ''pm_session '' ''pm_session''"
    by (simp add: equal_fold_def runes_ascii ascii_def)
  ultimately have "redact_part s = s" unfolding redact_part_def trim Let_def eq by simp
  moreover have "header_get r ''Cookie'' = s" using assms(2) by (simp add: header_get_def first_value_def s_def)
  moreover have "s \<noteq> []" by (simp add: s_def)
  ultimately show "redactCookieHeader (header_get r ''Cookie'') = ''pm_session ='' @ v"
    by (simp only: redactCookieHeader_def split list.map join.simps if_False s_def [symmetric])
qed

section \<open>Redirects\<close>

lemma clean_elems_set: "set (clean_elems rooted acc es) \<subseteq> set acc \<union> {e \<in> set es. e \<noteq> []}"
  by (induction rooted acc es rule: clean_elems.induct) (auto split: list.splits if_splits)

text \<open>A path of this host: it starts with one slash.\<close>

definition one_slash :: "string \<Rightarrow> bool" where
  "one_slash u \<longleftrightarrow> (case u of c # cs \<Rightarrow> c = CHR ''/'' \<and> (cs = [] \<or> hd cs \<noteq> CHR ''/'') | [] \<Rightarrow> False)"

lemma one_slash_clean: "p \<noteq> [] \<Longrightarrow> hd p = CHR ''/'' \<Longrightarrow> one_slash (path_clean p)"
proof -
  assume p: "p \<noteq> []" "hd p = CHR ''/''"
  define es where "es = clean_elems True [] (split_on CHR ''/'' p)"
  have "e \<noteq> [] \<and> hd e \<noteq> CHR ''/''" if "e \<in> set es" for e
  proof -
    have "e \<noteq> []" "e \<in> set (split_on CHR ''/'' p)" using that clean_elems_set [of True "[]" "split_on CHR ''/'' p"] by (auto simp: es_def)
    then show ?thesis using split_on_pieces [of e "CHR ''/''" p] by (cases e) auto
  qed
  then have "join ''/'' es = [] \<or> hd (join ''/'' es) \<noteq> CHR ''/''"
    by (cases es; cases "tl es") (auto simp: hd_append)
  then show ?thesis using p by (simp add: path_clean_def Let_def one_slash_def es_def)
qed

lemma one_slash_append: "one_slash u \<Longrightarrow> v = [] \<or> hd v \<noteq> CHR ''/'' \<Longrightarrow> one_slash (u @ v)"
  by (cases u) (auto simp: one_slash_def hd_append)

lemma one_slash_clean_url: "u \<noteq> [] \<Longrightarrow> hd u = CHR ''/'' \<Longrightarrow> one_slash (clean_url u)"
proof -
  assume u: "u \<noteq> []" "hd u = CHR ''/''"
  let ?path = "takeWhile (\<lambda>c. c \<noteq> CHR ''?'') u"
  let ?query = "drop (length ?path) u"
  have "?path \<noteq> []" "hd ?path = CHR ''/''" using u by (cases u; auto)+
  then have clean: "one_slash (path_clean ?path)" by (rule one_slash_clean)
  have "?query = dropWhile (\<lambda>c. c \<noteq> CHR ''?'') u" by (rule dropWhile_eq_drop [symmetric])
  then have query: "?query = [] \<or> hd ?query \<noteq> CHR ''/''"
    using hd_dropWhile [of "\<lambda>c. c \<noteq> CHR ''?''" u] by (cases "?query = []") auto
  have "one_slash (path_clean ?path @ ''/'' @ ?query)" if "\<not> has_suffix ''/'' (path_clean ?path)"
  proof -
    have "path_clean ?path \<noteq> ''/''" using that by (auto simp: has_suffix_def)
    then show ?thesis using clean by (cases "path_clean ?path") (auto simp: one_slash_def hd_append split: list.splits)
  qed
  with clean query show ?thesis by (simp add: clean_url_def Let_def one_slash_append)
qed

lemma one_slash_hex_escape: "one_slash u \<Longrightarrow> one_slash (hex_escape u)"
  by (cases u; cases "tl u") (auto simp: one_slash_def hex_escape_def)

text \<open>Where a login redirects to.\<close>

definition login_location :: "string \<Rightarrow> string" where
  "login_location next =
    (let dest = (if sanitiseNext next = [] then ''/'' else sanitiseNext next)
     in hex_escape (if url_parses dest then clean_url dest else dest))"

lemma sanitiseNext_one_slash: "sanitiseNext next \<noteq> [] \<Longrightarrow> one_slash (sanitiseNext next)"
  by (cases "next"; cases "tl next")
     (auto simp: sanitiseNext_def has_prefix_def one_slash_def split: if_splits)

theorem login_redirect_local: "one_slash (login_location next)"
proof -
  define dest where "dest = (if sanitiseNext next = [] then ''/'' else sanitiseNext next)"
  have "one_slash dest" using sanitiseNext_one_slash [of "next"] by (simp add: dest_def one_slash_def)
  moreover from this have "one_slash (clean_url dest)"
    by (intro one_slash_clean_url) (auto simp: one_slash_def split: list.splits)
  ultimately show ?thesis by (simp add: login_location_def Let_def one_slash_hex_escape flip: dest_def)
qed

text \<open>A backslash in second place is kept; browsers read it as a slash.\<close>

theorem login_redirect_backslash:
  "login_location (''/'' @ [CHR 0x5C] @ ''evil.example'') = ''/'' @ [CHR 0x5C] @ ''evil.example''"
  by code_simp

section \<open>Addresses\<close>

lemma split_join_host_port:
  assumes "CHR ''['' \<notin> set host" and "CHR '']'' \<notin> set host" and "host \<noteq> []"
    and "list_all is_digit port"
  shows "split_host_port (join_host_port host port) = Some (host, port)"
proof -
  have port: "CHR '':'' \<notin> set port" "CHR ''['' \<notin> set port" "CHR '']'' \<notin> set port"
    using assms(4) by (auto simp: list_all_iff is_digit_def)
  show ?thesis
  proof (cases "CHR '':'' \<in> set host")
    case True
    let ?s = "''['' @ host @ '']:'' @ port"
    have "last_index_byte CHR '':'' ?s = Some (length host + 2)"
      using last_index_byte_append [OF port(1), of "''['' @ host @ '']''"] by simp
    moreover have "index_byte CHR '']'' ?s = Some (Suc (length host))"
      using index_byte_append [of "CHR '']''" "''['' @ host" "'':'' @ port"] assms by simp
    ultimately show ?thesis
      using True assms port by (simp add: split_host_port_def join_host_port_def)
  next
    case False
    obtain c cs where host: "host = c # cs" using assms(3) by (cases host) auto
    have "last_index_byte CHR '':'' (host @ '':'' @ port) = Some (length host)"
      using last_index_byte_append [OF port(1), of host] by simp
    moreover have "hd (host @ '':'' @ port) \<noteq> CHR ''[''" using assms(1) by (auto simp: host)
    ultimately show ?thesis
      using False assms port by (simp add: split_host_port_def join_host_port_def)
  qed
qed

theorem remoteAddr_of_peer:
  assumes "rq_remote r = join_host_port host (decimal port)"
    and "CHR ''['' \<notin> set host" and "CHR '']'' \<notin> set host" and "host \<noteq> []"
  shows "remoteAddr r = host \<and> remoteIP r False = host"
  using split_join_host_port [OF assms(2-4)] decimal_digits [of port] assms(1)
  by (simp add: remoteAddr_def remoteIP_def)

section \<open>Concrete requests\<close>

definition sample_request :: request where
  "sample_request = \<lparr>rq_method = ''GET'', rq_path = ''/'', rq_header = (\<lambda>_. []), rq_query = (\<lambda>_. []), rq_form = None,
     rq_remote = ''[::1]:80'', rq_id = [], rq_authKind = []\<rparr>"

lemma remoteAddr_of_peer_witness:
  "remoteAddr sample_request = ''::1'' \<and> remoteIP sample_request False = ''::1''"
proof (rule remoteAddr_of_peer)
  have "decimal 80 = ''80''" by code_simp
  then show "rq_remote sample_request = join_host_port ''::1'' (decimal 80)"
    by (simp add: sample_request_def join_host_port_def)
qed simp_all

definition spaced_request :: request where
  "spaced_request = sample_request\<lparr>rq_header := (\<lambda>_. [''pm_session ='' @ ''AAAA''])\<rparr>"

lemma spaced_cookie_logged_witness:
  "request_cookie spaced_request ''pm_session'' = Some ''AAAA''
    \<and> redactCookieHeader (header_get spaced_request ''Cookie'') = ''pm_session ='' @ ''AAAA''"
proof (rule spaced_cookie_logged)
  show "cookie_text ''AAAA''" by (simp add: cookie_text_def valid_cookie_byte_def)
  show "rq_header spaced_request ''Cookie'' = [''pm_session ='' @ ''AAAA'']" by (simp add: spaced_request_def)
qed

end
