(* ===== verification/StoreFacts.thy ===== *)
theory StoreFacts
  imports Store Config
begin

text \<open>
  Properties of the store of \<^verbatim>\<open>internal/store/store.go\<close>: the writer of the state file, what
  shrinking the state removes, the retention limits, and what each operation leaves in memory
  and on disk.
\<close>

section \<open>The writer\<close>

lemma writeAtomic_no_dir:
  "writeAtomic p d fl = atomicWriteFile p d (fl\<lparr>dir_open_fails := True\<rparr>)"
  by (simp add: writeAtomic_def atomicWriteFile_def Let_def cong: option.case_cong)

lemma writeAtomic_shape: "atomic_shape p d (writeAtomic p d fl)"
  by (simp only: writeAtomic_no_dir atomicWriteFile_shape)

interpretation state_writer: atomic_writer writeAtomic
  by (rule atomic_writerI [OF writeAtomic_shape]) (simp add: writeAtomic_def no_faults_def Let_def)

lemma env_write_ops:
  assumes "snd (atomicWriteFile p d fl) = None" and "\<not> dir_open_fails fl" and "\<not> dir_sync_fails fl"
  shows "fst (atomicWriteFile p d fl) = [OpenTrunc (p @ tmpSuffix), WriteFile (p @ tmpSuffix) d,
    SyncFile (p @ tmpSuffix), CloseFile (p @ tmpSuffix), RenameFile (p @ tmpSuffix) p, SyncDirOf p]"
  using assms by (simp add: atomicWriteFile_def Let_def split: if_splits option.splits)

theorem env_write_durable:
  assumes "snd (atomicWriteFile p d fl) = None" and "\<not> dir_open_fails fl" and "\<not> dir_sync_fails fl"
  shows "after_power_loss (apply_ops (fst (atomicWriteFile p d fl)) s) p = {Some d}
    \<and> cache (apply_ops (fst (atomicWriteFile p d fl)) s) p = Some d"
proof -
  let ?t = "p @ tmpSuffix"
  let ?s = "apply_ops [OpenTrunc ?t, WriteFile ?t d, SyncFile ?t, CloseFile ?t] s"
  have "apply_ops (fst (atomicWriteFile p d fl)) s = apply_ops [RenameFile ?t p, SyncDirOf p] ?s"
    by (simp add: env_write_ops [OF assms] del: apply_op.simps)
  with tmp_complete [of ?t d s] show ?thesis
    by (simp add: after_power_loss_def del: apply_ops_simps(2))  (simp add: apply_ops_def)
qed

text \<open>
  C15. Wherever a series of writes of the state file is cut off, by the end of the process or a
  loss of power, the file holds its original content or one of the contents written in full.
\<close>

theorem state_writes_crash_safe:
  assumes "f = fold (\<lambda>(d, fl). apply_ops (fst (writeAtomic p d fl))) ws f0"
    and "f' = apply_ops (take n (fst (writeAtomic p d fl))) f"
  shows "after_power_loss f' p \<subseteq> after_power_loss f0 p \<union> insert (Some d) (set (map (Some \<circ> fst) ws))
    \<and> cache f' p \<in> insert (cache f0 p) (insert (Some d) (set (map (Some \<circ> fst) ws)))"
proof -
  have series: "after_power_loss f p \<subseteq> after_power_loss f0 p \<union> set (map (Some \<circ> fst) ws)"
    "cache f p \<in> insert (cache f0 p) (set (map (Some \<circ> fst) ws))"
    using state_writer.series_power_loss [of p ws f0]
    by (simp_all only: state_writer.write_series_def assms(1) [symmetric])
  have "cache f' p \<in> {cache f p, Some d}" "after_power_loss f' p \<subseteq> insert (Some d) (after_power_loss f p)"
    using state_writer.every_prefix [OF assms(2)] by simp_all
  then show ?thesis using grown_union [OF series(1)] grown_choice [OF series(2)] by simp
qed

section \<open>Shrinking\<close>

text \<open>One turn of the loop of \<open>persistLocked\<close>: the data is too big and something is dropped.\<close>

inductive drops :: "(persisted \<Rightarrow> content option) \<Rightarrow> persisted \<Rightarrow> persisted \<Rightarrow> bool"
  for mar :: "persisted \<Rightarrow> content option" where
  drop_remembered:
    "mar d = Some b \<Longrightarrow> MaxStateBytes < length b \<Longrightarrow> Remembered d = r # rs \<Longrightarrow>
     drops mar d (d\<lparr>Remembered := rs\<rparr>)"
| drop_label:
    "mar d = Some b \<Longrightarrow> MaxStateBytes < length b \<Longrightarrow> Remembered d = [] \<Longrightarrow> (k, e) \<in> set (Labels d) \<Longrightarrow>
     \<forall>(j, f) \<in> set (Labels d). l_UpdatedAt e \<le> l_UpdatedAt f \<Longrightarrow>
     drops mar d (d\<lparr>Labels := gm_del k (Labels d)\<rparr>)"

inductive_cases dropsE: "drops mar d d'"

lemma shrink_fits: "mar d = Some b \<Longrightarrow> length b \<le> MaxStateBytes \<Longrightarrow> shrink mar iter d = (d, Inr b)"
  by (simp add: shrink.simps [of mar iter d])

lemma shrink_steps:
  "shrink mar iter d = (d', r) \<Longrightarrow>
   (drops mar)\<^sup>*\<^sup>* d d'
   \<and> (case r of Inr b \<Rightarrow> mar d' = Some b \<and> length b \<le> MaxStateBytes
      | Inl e \<Rightarrow> e = ErrMarshal \<and> mar d' = None
          \<or> e = ErrStateSizeExceeded \<and> Remembered d' = [] \<and> Labels d' = []
            \<and> (\<exists>b. mar d' = Some b \<and> MaxStateBytes < length b))"
proof (induction mar iter d arbitrary: d' r rule: shrink.induct)
  case (1 mar iter d)
  show ?case
  proof (cases "mar d")
    case None
    then show ?thesis using "1.prems" by (auto simp: shrink.simps [of mar iter d])
  next
    case (Some b)
    consider (fits) "length b \<le> MaxStateBytes"
      | (rem) x rs where "MaxStateBytes < length b" "Remembered d = x # rs"
      | (lab) "MaxStateBytes < length b" "Remembered d = []" "Labels d \<noteq> []"
      | (full) "MaxStateBytes < length b" "Remembered d = []" "Labels d = []"
      by (cases "Remembered d"; cases "length b \<le> MaxStateBytes") auto
    then show ?thesis
    proof cases
      case fits
      then show ?thesis using "1.prems" Some by (auto simp: shrink_fits)
    next
      case rem
      then have "shrink mar iter (d\<lparr>Remembered := rs\<rparr>) = (d', r)"
        using "1.prems" Some by (simp add: shrink.simps [of mar iter d])
      from "1.IH"(2) [OF Some _ rem(2) this] rem show ?thesis
        using drop_remembered [of mar d b x rs] Some by (auto intro: converse_rtranclp_into_rtranclp)
    next
      case lab
      obtain k e where k: "(k, e) \<in> set (Labels d)" "\<forall>(j, f) \<in> set (Labels d). l_UpdatedAt e \<le> l_UpdatedAt f"
        "evictOldestLabelLocked iter (Labels d) = (True, gm_del k (Labels d))"
        using evict_label_spec [OF lab(3), of iter] by blast
      have "shrink mar iter (d\<lparr>Labels := gm_del k (Labels d)\<rparr>) = (d', r)"
        using "1.prems" Some lab k by (simp add: shrink.simps [of mar iter d])
      from "1.IH"(1) [OF Some _ lab(2) k(3) [symmetric] refl this] lab show ?thesis
        using drop_label [of mar d b k e] Some k by (auto intro: converse_rtranclp_into_rtranclp)
    next
      case full
      then show ?thesis using "1.prems" Some
        by (auto simp: shrink.simps [of mar iter d] evictOldestLabelLocked_def)
    qed
  qed
qed

text \<open>The labels that went are no younger than the ones that stay.\<close>

definition older_dropped :: "(string \<times> labelEntry) set \<Rightarrow> (string \<times> labelEntry) set \<Rightarrow> bool" where
  "older_dropped all left \<longleftrightarrow> 
    (\<forall>k e j f. (k, e) \<in> all \<longrightarrow> (k, e) \<notin> left \<longrightarrow> (j, f) \<in> left \<longrightarrow> l_UpdatedAt e \<le> l_UpdatedAt f)"

lemma older_dropped_step:
  assumes "older_dropped all left" and "\<forall>(j, f) \<in> left. l_UpdatedAt e \<le> l_UpdatedAt f"
    and "left' = left - {(k, e)}"
  shows "older_dropped all left'"
  unfolding older_dropped_def
proof (intro allI impI)
  fix j g i f
  assume all: "(j, g) \<in> all" and "(j, g) \<notin> left'" "(i, f) \<in> left'"
  then have left: "(i, f) \<in> left" "(j, g) \<notin> left \<or> g = e" using assms(3) by auto
  from left(2) show "l_UpdatedAt g \<le> l_UpdatedAt f"
  proof
    assume "(j, g) \<notin> left"
    with assms(1) all left(1) show ?thesis unfolding older_dropped_def by blast
  next
    assume "g = e"
    with assms(2) left(1) show ?thesis by auto
  qed
qed

lemma drops_order:
  assumes "(drops mar)\<^sup>*\<^sup>* d d'" and "gm_ok (Labels d)"
  shows "(\<exists>n. Remembered d' = drop n (Remembered d)) \<and> Version d' = Version d
    \<and> gm_ok (Labels d') \<and> set (Labels d') \<subseteq> set (Labels d)
    \<and> (Labels d' = Labels d \<or> Remembered d' = [])
    \<and> older_dropped (set (Labels d)) (set (Labels d'))"
  using assms(1)
proof induction
  case base
  then show ?case using assms(2) by (auto simp: older_dropped_def intro: exI [of _ 0])
next
  case (step d1 d2)
  from step.hyps(2) show ?case
  proof (cases rule: drops.cases)
    case 1: (drop_remembered b r rs)
    obtain n where "Remembered d1 = drop n (Remembered d)" using step.IH by blast
    then have "rs = drop (Suc n) (Remembered d)" using 1 by (metis drop_Suc list.sel(3) tl_drop)
    then show ?thesis using step.IH 1 by auto
  next
    case 2: (drop_label b k e)
    have set: "set (Labels d2) = set (Labels d1) - {(k, e)}"
    proof -
      have "gm_ok (Labels d1)" using step.IH by blast
      then show ?thesis using 2
        by (auto simp: AList.delete_eq gm_ok_def) (meson eq_key_imp_eq_value)
    qed
    have ih: "older_dropped (set (Labels d)) (set (Labels d1))" "set (Labels d1) \<subseteq> set (Labels d)"
      "Version d1 = Version d" "gm_ok (Labels d1)"
      using step.IH by simp_all
    have "older_dropped (set (Labels d)) (set (Labels d2))"
      by (rule older_dropped_step [OF ih(1) 2(6) set])
    moreover have empty: "Remembered d2 = []" using 2 by simp
    moreover have "\<exists>n. [] = drop n (Remembered d)" by (rule exI [of _ "length (Remembered d)"]) simp
    moreover have "Version d2 = Version d" "gm_ok (Labels d2)" using ih 2 by simp_all
    moreover have "set (Labels d2) \<subseteq> set (Labels d)" using ih set by blast
    ultimately show ?thesis by simp
  qed
qed

theorem eviction_order:
  assumes "shrink mar iter d = (d', r)" and "gm_ok (Labels d)"
  shows "(\<exists>n. Remembered d' = drop n (Remembered d)) \<and> Version d' = Version d
    \<and> gm_ok (Labels d') \<and> set (Labels d') \<subseteq> set (Labels d)
    \<and> (Labels d' = Labels d \<or> Remembered d' = [])
    \<and> older_dropped (set (Labels d)) (set (Labels d'))
    \<and> (d' = d \<or> (\<exists>b. mar d = Some b \<and> MaxStateBytes < length b))"
proof -
  have steps: "(drops mar)\<^sup>*\<^sup>* d d'" using shrink_steps [OF assms(1)] by blast
  from steps have "d' = d \<or> (\<exists>b. mar d = Some b \<and> MaxStateBytes < length b)"
    by (cases rule: converse_rtranclpE) (auto elim: dropsE)
  then show ?thesis using drops_order [OF steps assms(2)] by blast
qed

text \<open>Each turn drops an entry, so that the loop ends after as many turns as there are entries at most.\<close>

definition entries :: "persisted \<Rightarrow> nat" where
  "entries d = length (Remembered d) + length (Labels d)"

lemma drops_entries: "drops mar d d' \<Longrightarrow> entries d' < entries d"
  by (induction rule: drops.induct) (simp_all add: entries_def delete_shorter)

lemma drops_pow_entries: "(drops mar ^^ n) d d' \<Longrightarrow> entries d' + n \<le> entries d"
proof (induction n arbitrary: d')
  case (Suc n)
  then obtain d1 where "(drops mar ^^ n) d d1" "drops mar d1 d'" by auto
  with Suc.IH [of d1] drops_entries [of mar d1 d'] show ?case by simp
qed simp

text \<open>
  C28. The loop of persistLocked drops one entry per turn, ends after at most as many turns as
  there are entries, and ends where nothing more is to be dropped.
\<close>

theorem eviction_terminates:
  "(\<exists>n. n \<le> length (Remembered d) + length (Labels d) \<and> (drops mar ^^ n) d (fst (shrink mar iter d)))
   \<and> \<not> Domainp (drops mar) (fst (shrink mar iter d))"
proof -
  obtain d' r where s: "shrink mar iter d = (d', r)" by fastforce
  from shrink_steps [OF this] obtain n where n: "(drops mar ^^ n) d d'" by (auto dest: rtranclp_imp_relpowp)
  then have "n \<le> length (Remembered d) + length (Labels d)"
    using drops_pow_entries [OF n] by (simp add: entries_def)
  moreover have "\<not> drops mar d' d''" for d''
  proof
    assume "drops mar d' d''"
    then show False using conjunct2 [OF shrink_steps [OF s]] by cases (auto split: sum.splits)
  qed
  ultimately show ?thesis using n s by auto
qed

section \<open>Retention\<close>

text \<open>The first \<open>n\<close> elements that match are dropped.\<close>

fun drop_matching :: "('a \<Rightarrow> bool) \<Rightarrow> nat \<Rightarrow> 'a list \<Rightarrow> 'a list" where
  "drop_matching P n [] = []"
| "drop_matching P n (x # xs) =
    (if P x \<and> 0 < n then drop_matching P (n - 1) xs else x # drop_matching P n xs)"

lemma drop_matching_0 [simp]: "drop_matching P 0 xs = xs"
  by (induction xs) auto

lemma filter_drop_matching: "filter P (drop_matching P n xs) = drop n (filter P xs)"
  by (induction xs arbitrary: n) (auto simp: drop_Cons' )

lemma filter_not_drop_matching: "\<forall>x. Q x \<longrightarrow> \<not> P x \<Longrightarrow> filter Q (drop_matching P n xs) = filter Q xs"
  by (induction xs arbitrary: n) auto

lemma drop_matching_snoc:
  "n \<le> length (filter P xs) \<Longrightarrow> drop_matching P n (xs @ [x]) = drop_matching P n xs @ [x]"
  by (induction xs arbitrary: n) auto

lemma set_drop_matching: "set (drop_matching P n xs) \<subseteq> set xs"
  by (induction xs arbitrary: n) auto

lemma length_drop_matching: "length (drop_matching P n xs) \<le> length xs"
  by (induction xs arbitrary: n) (auto intro: le_SucI)

lemma evictPerKeyLocked_eq:
  "evictPerKeyLocked key rs =
    drop_matching (\<lambda>r. r_LabelKey r = key)
      (length (filter (\<lambda>r. r_LabelKey r = key) rs) - PerKeyRememberedCap) rs"
proof -
  let ?f = "\<lambda>r (toDrop, kept). if r_LabelKey r = key \<and> 0 < toDrop then (toDrop - 1, kept) else (toDrop, kept @ [r])"
  have "snd (fold ?f rs (n, kept)) = kept @ drop_matching (\<lambda>r. r_LabelKey r = key) n rs" for n :: nat and kept
    by (induction rs arbitrary: n kept) auto
  then show ?thesis by (simp add: evictPerKeyLocked_def Let_def)
qed

lemma evictGlobalLocked_eq: "evictGlobalLocked rs = drop (length rs - GlobalRememberedCap) rs"
  by (simp add: evictGlobalLocked_def)

definition of_key :: "string \<Rightarrow> remembered list \<Rightarrow> remembered list" where
  "of_key key rs = filter (\<lambda>r. r_LabelKey r = key) rs"

definition retained :: "persisted \<Rightarrow> bool" where
  "retained d \<longleftrightarrow> gm_ok (Labels d) \<and> length (Remembered d) \<le> GlobalRememberedCap
    \<and> (\<forall>key. length (of_key key (Remembered d)) \<le> PerKeyRememberedCap)"

lemma of_key_drop: "length (of_key key (drop n rs)) \<le> length (of_key key rs)"
  by (metis append_take_drop_id filter_append le_add2 length_append of_key_def)

lemma of_key_filter: "length (of_key key (filter P rs)) \<le> length (of_key key rs)"
  unfolding of_key_def by (induction rs) auto

lemma evicted_bounds:
  assumes "\<forall>k. k \<noteq> key \<longrightarrow> length (of_key k rs) \<le> PerKeyRememberedCap"
  shows "length (evictGlobalLocked (evictPerKeyLocked key rs)) \<le> GlobalRememberedCap
    \<and> (\<forall>k. length (of_key k (evictGlobalLocked (evictPerKeyLocked key rs))) \<le> PerKeyRememberedCap)"
proof -
  have "length (of_key k (evictPerKeyLocked key rs)) \<le> PerKeyRememberedCap" for k
  proof (cases "k = key")
    case False
    then have "of_key k (evictPerKeyLocked key rs) = of_key k rs"
      unfolding of_key_def evictPerKeyLocked_eq by (intro filter_not_drop_matching) auto
    then show ?thesis using assms False by simp
  qed (simp add: of_key_def evictPerKeyLocked_eq filter_drop_matching)
  then have "length (of_key k (drop n (evictPerKeyLocked key rs))) \<le> PerKeyRememberedCap" for k n
    by (rule order_trans [OF of_key_drop])
  then show ?thesis by (simp add: evictGlobalLocked_eq)
qed

lemma drops_retained:
  assumes "(drops mar)\<^sup>*\<^sup>* d d'" and "retained d"
  shows "retained d'"
proof -
  have "gm_ok (Labels d)" using assms(2) by (simp add: retained_def)
  with drops_order [OF assms(1)] obtain n where n: "Remembered d' = drop n (Remembered d)" "gm_ok (Labels d')"
    by blast
  have "length (of_key key (drop n (Remembered d))) \<le> PerKeyRememberedCap" for key
    using assms(2) by (intro order_trans [OF of_key_drop]) (simp add: retained_def)
  with n assms(2) show ?thesis by (auto simp: retained_def)
qed

section \<open>What an operation leaves behind\<close>

definition on_disk :: "json \<Rightarrow> store \<times> fs \<Rightarrow> bool" where
  "on_disk js = (\<lambda>(s, f). \<exists>b. marshal js (st_data s) = Some b \<and> cache f (st_path s) = Some b
     \<and> length b \<le> MaxStateBytes)"

lemma persist_spec:
  assumes "persistLocked env (s, f) = ((s', f'), err)"
  shows "(drops (marshal (e_json env)))\<^sup>*\<^sup>* (st_data s) (st_data s') \<and> st_path s' = st_path s
    \<and> (err = None \<longrightarrow> on_disk (e_json env) (s', f'))
    \<and> (err \<noteq> None \<longrightarrow> cache f' (st_path s) = cache f (st_path s))"
proof -
  obtain d r where sh: "shrink (marshal (e_json env)) (e_iter env) (st_data s) = (d, r)" by fastforce
  note steps = shrink_steps [OF sh]
  show ?thesis
  proof (cases r)
    case (Inl e)
    then show ?thesis using assms steps sh by (auto simp: persistLocked_def)
  next
    case (Inr b)
    let ?w = "writeAtomic (st_path s) b (e_faults env)"
    have run: "s' = s\<lparr>st_data := d\<rparr>" "f' = apply_ops (fst ?w) f" "err = map_option ErrWriteState (snd ?w)"
      using assms sh Inr by (auto simp: persistLocked_def Let_def split: prod.splits)
    show ?thesis
    proof (cases "snd ?w")
      case None
      then show ?thesis
        using run steps Inr state_writer.success_writes [OF None, of f] by (simp add: on_disk_def)
    next
      case (Some e)
      then show ?thesis using run steps Inr state_writer.failure_keeps [OF Some, of f] by simp
    qed
  qed
qed

lemma persist_run:
  assumes "shrink (marshal (e_json env)) (e_iter env) (st_data s) = (st_data s, Inr b)"
    and "snd (writeAtomic (st_path s) b (e_faults env)) = Some e"
  shows "persistLocked env (s, f)
    = ((s, apply_ops (fst (writeAtomic (st_path s) b (e_faults env))) f), Some (ErrWriteState e))"
  using assms by (cases "writeAtomic (st_path s) b (e_faults env)") (simp add: persistLocked_def)

lemma persist_fits:
  assumes "persistLocked env (s, f) = ((s', f'), err)"
    and "marshal (e_json env) (st_data s) = Some b" and "length b \<le> MaxStateBytes"
  shows "s' = s"
  using assms(1) by (auto simp: persistLocked_def shrink_fits [where mar = "marshal (e_json env)", OF assms(2,3)] Let_def split: prod.splits)

lemma persist_keeps_retained:
  "persistLocked env (s, f) = ((s', f'), err) \<Longrightarrow> retained (st_data s) \<Longrightarrow> retained (st_data s')"
  using persist_spec drops_retained by blast

section \<open>Labels\<close>

definition labelled :: "store_env \<Rightarrow> string \<Rightarrow> string list \<Rightarrow> string \<Rightarrow> store \<Rightarrow> store" where
  "labelled env cwd command label s = s\<lparr>st_data := (st_data s)\<lparr>Labels :=
     (if label = [] then gm_del (LabelKey cwd command) (Labels (st_data s))
      else gm_put (LabelKey cwd command)
        \<lparr>l_Cwd = cwd, l_Command = command, l_Label = label, l_UpdatedAt = e_now env\<rparr> (Labels (st_data s)))\<rparr>\<rparr>"

lemma SetLabel_run:
  "SetLabel env cwd command label (s, f) =
    (if 64 < rune_count label then ((s, f), Some ErrLabelTooLong)
     else persistLocked env (labelled env cwd command label s, f))"
  by (simp add: SetLabel_def labelled_def Let_def MaxLabelLen_def)

lemma Label_labelled:
  assumes "gm_ok (Labels (st_data s))"
  shows "Label (labelled env cwd command label s) cwd' command' =
    (if LabelKey cwd' command' = LabelKey cwd command then label else Label s cwd' command')"
  by (auto simp: Label_def labelled_def update_conv' delete_conv')

interpretation labels: label_lookup Label "labelled env"
    "\<lambda>cwd command cwd' command'. LabelKey cwd command = LabelKey cwd' command'"
    "\<lambda>s. gm_ok (Labels (st_data s))" for env
  by unfold_locales (simp_all only: Label_labelled, auto simp: labelled_def)

lemma SetLabel_does:
  assumes run: "SetLabel env cwd command label (s, f) = ((s', f'), None)"
    and ok: "retained (st_data s)"
    and fits: "marshal (e_json env) (st_data (labelled env cwd command label s)) = Some b" "length b \<le> 262144"
  shows "rune_count label \<le> 64
    \<and> Label s' cwd' command' = (if LabelKey cwd' command' = LabelKey cwd command then label else Label s cwd' command')
    \<and> Remembered (st_data s') = Remembered (st_data s)
    \<and> cache f' (st_path s) = Some b"
proof -
  have len: "\<not> 64 < rune_count label"
    and p: "persistLocked env (labelled env cwd command label s, f) = ((s', f'), None)"
    using run by (auto simp: SetLabel_run split: if_splits)
  have s': "s' = labelled env cwd command label s"
    using persist_fits [OF p fits(1)] fits(2) by (simp add: MaxStateBytes_def)
  moreover have "on_disk (e_json env) (s', f')" using persist_spec [OF p] by blast
  ultimately show ?thesis
    using len fits(1) ok Label_labelled [of s] by (auto simp: on_disk_def labelled_def retained_def)
qed

theorem SetLabel_effect:
  assumes run: "SetLabel env cwd command label (s, f) = ((s', f'), None)"
    and ok: "retained (st_data s)"
    and fits: "marshal (e_json env) (st_data (labelled env cwd command label s)) = Some b" "length b \<le> 262144"
  shows "rune_count label \<le> 64
    \<and> Label s' cwd' command' = (if LabelKey cwd' command' = LabelKey cwd command then label else Label s cwd' command')
    \<and> Remembered (st_data s') = Remembered (st_data s)
    \<and> cache f' (st_path s) = Some b"
  using assms by (rule SetLabel_does)

theorem SetLabel_rejects_long:
  "64 < rune_count label \<Longrightarrow> SetLabel env cwd command label (s, f) = ((s, f), Some ErrLabelTooLong)"
  by (simp add: SetLabel_run)

text \<open>When the write fails the label stays in memory and the file keeps the old state.\<close>

theorem failed_write_keeps_label_in_memory:
  assumes "retained (st_data s)" and "rune_count label \<le> 64"
    and "marshal (e_json env) (st_data (labelled env cwd command label s)) = Some b" "length b \<le> 262144"
    and "snd (writeAtomic (st_path s) b (e_faults env)) = Some e"
  shows "\<exists>f'. SetLabel env cwd command label (s, f) = ((labelled env cwd command label s, f'), Some (ErrWriteState e))
    \<and> Label (labelled env cwd command label s) cwd command = label
    \<and> cache f' (st_path s) = cache f (st_path s)"
proof -
  let ?s' = "labelled env cwd command label s"
  let ?w = "writeAtomic (st_path s) b (e_faults env)"
  have path: "st_path ?s' = st_path s" by (simp add: labelled_def)
  have sh: "shrink (marshal (e_json env)) (e_iter env) (st_data ?s') = (st_data ?s', Inr b)"
    using assms(3,4) by (intro shrink_fits) (simp_all add: MaxStateBytes_def)
  have "persistLocked env (?s', f) = ((?s', apply_ops (fst ?w) f), Some (ErrWriteState e))"
    using persist_run [where s = ?s', OF sh, of e f] assms(5) by (simp only: path simp_thms)
  then have "SetLabel env cwd command label (s, f) = ((?s', apply_ops (fst ?w) f), Some (ErrWriteState e))"
    using assms(2) by (simp add: SetLabel_run)
  moreover have "Label ?s' cwd command = label"
    using Label_labelled [of s] assms(1) by (simp add: retained_def)
  ultimately show ?thesis using state_writer.failure_keeps [OF assms(5), of f] by blast
qed

text \<open>Keys of different working directories or commands.\<close>

lemma label_preimage_inj:
  assumes "CHR 0x00 \<notin> set cwd" "CHR 0x00 \<notin> set cwd'" "command \<noteq> []" "command' \<noteq> []"
    and "\<forall>a \<in> set command. CHR 0x00 \<notin> set a" "\<forall>a \<in> set command'. CHR 0x00 \<notin> set a"
    and "label_preimage cwd command = label_preimage cwd' command'"
  shows "cwd = cwd' \<and> command = command'"
proof -
  have parts: "split_on CHR 0x00 (label_preimage w c) = w # c"
    if "CHR 0x00 \<notin> set w" "c \<noteq> []" "\<forall>a \<in> set c. CHR 0x00 \<notin> set a" for w c
    using that by (simp add: label_preimage_def split_on_append split_on_join)
  have "cwd # command = cwd' # command'"
    using parts [OF assms(1,3,5)] parts [OF assms(2,4,6)] unfolding assms(7) by (rule trans [OF sym])
  then show ?thesis by simp
qed

theorem LabelKey_separates:
  assumes "CHR 0x00 \<notin> set cwd" "CHR 0x00 \<notin> set cwd'" "command \<noteq> []" "command' \<noteq> []"
    and "\<forall>a \<in> set command. CHR 0x00 \<notin> set a" "\<forall>a \<in> set command'. CHR 0x00 \<notin> set a"
    and "(cwd, command) \<noteq> (cwd', command')"
  shows "label_preimage cwd command \<noteq> label_preimage cwd' command'
    \<and> length (LabelKey cwd command) = 16
    \<and> (LabelKey cwd command = LabelKey cwd' command' \<longleftrightarrow>
         take 8 (sha256 (bytes_of (label_preimage cwd command)))
         = take 8 (sha256 (bytes_of (label_preimage cwd' command'))))"
proof -
  have "label_preimage cwd command \<noteq> label_preimage cwd' command'"
    using label_preimage_inj [OF assms(1-6)] assms(7) by blast
  moreover have "LabelKey w c = hex_encode (take 8 (sha256 (bytes_of (label_preimage w c))))" for w c
    using hex_encode_take [of 8] by (simp add: LabelKey_def)
  ultimately show ?thesis by (simp add: hex_encode_inj length_hex_encode)
qed

section \<open>Remembered listeners\<close>

text \<open>The entry \<open>Remember\<close> stores, with the fields it fills in.\<close>

definition completed :: "store_env \<Rightarrow> remembered \<Rightarrow> remembered option" where
  "completed env r =
    (let r = (if r_LabelKey r = [] then r\<lparr>r_LabelKey := LabelKey (r_Cwd r) (r_Command r)\<rparr> else r);
         r = (if is_zero (r_KilledAt r) then r\<lparr>r_KilledAt := e_now env\<rparr> else r)
     in map_option (\<lambda>i. r\<lparr>r_ID := i\<rparr>) (if r_ID r = [] then newULID (r_KilledAt r) (e_random env) else Some (r_ID r)))"

definition kept_with :: "remembered \<Rightarrow> remembered list \<Rightarrow> remembered list" where
  "kept_with r rs = evictGlobalLocked (evictPerKeyLocked (r_LabelKey r) (rs @ [r]))"

definition remembering :: "remembered \<Rightarrow> store \<Rightarrow> store" where
  "remembering r s = s\<lparr>st_data := (st_data s)\<lparr>Remembered := kept_with r (Remembered (st_data s))\<rparr>\<rparr>"

lemma Remember_run:
  "Remember env r (s, f) =
    (case completed env r of
       None \<Rightarrow> ((s, f), Some ErrUlid)
     | Some r' \<Rightarrow> persistLocked env (remembering r' s, f))"
  by (simp add: Remember_def completed_def remembering_def kept_with_def Let_def option.case_distrib
      split: option.split)

lemma kept_with_snoc:
  "\<exists>rs'. kept_with r rs = rs' @ [r] \<and> set rs' \<subseteq> set rs"
proof -
  let ?P = "\<lambda>x. r_LabelKey x = r_LabelKey r"
  let ?n = "length (filter ?P (rs @ [r])) - PerKeyRememberedCap"
  have per: "evictPerKeyLocked (r_LabelKey r) (rs @ [r]) = drop_matching ?P ?n rs @ [r]"
    unfolding evictPerKeyLocked_eq by (rule drop_matching_snoc) (simp add: retention)
  show ?thesis
    by (auto simp: kept_with_def per evictGlobalLocked_eq retention dest!: in_set_dropD subsetD [OF set_drop_matching])
qed

lemma retained_remembering:
  assumes "retained (st_data s)" shows "retained (st_data (remembering r s))"
proof -
  have "\<forall>k. k \<noteq> r_LabelKey r \<longrightarrow> length (of_key k (Remembered (st_data s) @ [r])) \<le> PerKeyRememberedCap"
    using assms by (simp add: retained_def of_key_def)
  from evicted_bounds [OF this] assms show ?thesis
    by (simp add: retained_def remembering_def kept_with_def)
qed

definition keep_newest :: "nat \<Rightarrow> 'a list \<Rightarrow> 'a list" where
  "keep_newest n xs = drop (length xs - n) xs"


lemma find_snoc: "\<forall>x \<in> set xs. \<not> P x \<Longrightarrow> List.find P (xs @ [y]) = (if P y then Some y else None)"
  by (induction xs) auto

lemma Remember_finds:
  assumes run: "Remember env r (s, f) = ((s', f'), None)" and r': "completed env r = Some r'"
    and ok: "retained (st_data s)"
    and fresh: "\<forall>x \<in> set (Remembered (st_data s)). r_ID x \<noteq> r_ID r'"
  shows "Remembered (st_data s') = []
    \<or> FindRemembered s' (r_ID r') = Some r' \<and> hd (AllRemembered s') = r'
      \<and> Labels (st_data s') = Labels (st_data s)"
proof -
  have p: "persistLocked env (remembering r' s, f) = ((s', f'), None)"
    using run r' by (simp add: Remember_run)
  have "gm_ok (Labels (st_data (remembering r' s)))" using ok by (simp add: remembering_def retained_def)
  with drops_order persist_spec [OF p]
  obtain n where n: "Remembered (st_data s') = drop n (Remembered (st_data (remembering r' s)))"
    and lab: "Labels (st_data s') = Labels (st_data (remembering r' s)) \<or> Remembered (st_data s') = []"
    by blast
  obtain rs' where rs': "kept_with r' (Remembered (st_data s)) = rs' @ [r']" "set rs' \<subseteq> set (Remembered (st_data s))"
    using kept_with_snoc by blast
  show ?thesis
  proof (cases "n \<le> length rs'")
    case True
    then have rem: "Remembered (st_data s') = drop n rs' @ [r']"
      using n rs' by (simp add: remembering_def)
    have "\<forall>x \<in> set (drop n rs'). r_ID x \<noteq> r_ID r'" using fresh rs'(2) by (auto dest: in_set_dropD)
    then have "List.find (\<lambda>x. r_ID x = r_ID r') (drop n rs' @ [r']) = Some r'"
      by (simp add: find_snoc)
    then show ?thesis using rem lab by (simp add: FindRemembered_def AllRemembered_def remembering_def)
  next
    case False
    then show ?thesis using n rs' by (simp add: remembering_def)
  qed
qed

theorem remembered_found:
  assumes run: "Remember env r (s, f) = ((s', f'), None)" and r': "completed env r = Some r'"
    and ok: "retained (st_data s)"
    and fresh: "\<forall>x \<in> set (Remembered (st_data s)). r_ID x \<noteq> r_ID r'"
  shows "Remembered (st_data s') = []
    \<or> FindRemembered s' (r_ID r') = Some r' \<and> hd (AllRemembered s') = r'
      \<and> Labels (st_data s') = Labels (st_data s)"
  using run r' ok fresh by (rule Remember_finds)

theorem deleted_not_found:
  assumes run: "DeleteRemembered env i (s, f) = ((s', f'), err)"
  shows "FindRemembered s' i = None \<and> DeleteRemembered env i (s', f') = ((s', f'), None)
    \<and> set (Remembered (st_data s')) \<subseteq> set (Remembered (st_data s))"
proof -
  let ?kept = "filter (\<lambda>r. r_ID r \<noteq> i) (Remembered (st_data s))"
  have sub: "set (Remembered (st_data s')) \<subseteq> set ?kept"
  proof (cases "length ?kept = length (Remembered (st_data s))")
    case True
    then have "?kept = Remembered (st_data s)"
      by (metis filter_id_conv length_filter_less nat_neq_iff)
    then show ?thesis using run True by (simp add: DeleteRemembered_def Let_def)
  next
    case False
    then have "persistLocked env (s\<lparr>st_data := (st_data s)\<lparr>Remembered := ?kept\<rparr>\<rparr>, f) = ((s', f'), err)"
      using run by (simp add: DeleteRemembered_def Let_def)
    from persist_spec [OF this] have "(drops (marshal (e_json env)))\<^sup>*\<^sup>* ((st_data s)\<lparr>Remembered := ?kept\<rparr>) (st_data s')"
      by simp
    then have "set (Remembered (st_data s')) \<subseteq> set (Remembered ((st_data s)\<lparr>Remembered := ?kept\<rparr>))"
    proof induction
      case (step y z)
      then show ?case by (elim dropsE) auto
    qed simp
    then show ?thesis by simp
  qed
  then have none: "\<forall>x \<in> set (Remembered (st_data s')). r_ID x \<noteq> i" by auto
  then have "filter (\<lambda>r. r_ID r \<noteq> i) (Remembered (st_data s')) = Remembered (st_data s')"
    by (simp add: filter_id_conv)
  moreover have "FindRemembered s' i = None" using none by (auto simp: FindRemembered_def find_None_iff)
  ultimately show ?thesis using sub by (auto simp: DeleteRemembered_def Let_def)
qed

section \<open>Any sequence of mutations\<close>

datatype mutation = MLabel string "string list" string | MRemember remembered | MDelete string

fun mutate :: "store_env \<Rightarrow> mutation \<Rightarrow> store \<times> fs \<Rightarrow> (store \<times> fs) \<times> store_error option" where
  "mutate env (MLabel cwd command label) sf = SetLabel env cwd command label sf"
| "mutate env (MRemember r) sf = Remember env r sf"
| "mutate env (MDelete i) sf = DeleteRemembered env i sf"

text \<open>What a mutation wants to persist, if anything.\<close>

fun intended :: "store_env \<Rightarrow> mutation \<Rightarrow> store \<Rightarrow> store option" where
  "intended env (MLabel cwd command label) s =
    (if 64 < rune_count label then None else Some (labelled env cwd command label s))"
| "intended env (MRemember r) s = map_option (\<lambda>e. remembering e s) (completed env r)"
| "intended env (MDelete i) s =
    (let kept = filter (\<lambda>r. r_ID r \<noteq> i) (Remembered (st_data s))
     in if length kept = length (Remembered (st_data s)) then None
        else Some (s\<lparr>st_data := (st_data s)\<lparr>Remembered := kept\<rparr>\<rparr>))"

lemma mutate_intended:
  "case intended env m s of
     None \<Rightarrow> fst (mutate env m (s, f)) = (s, f)
       \<and> (snd (mutate env m (s, f)) \<noteq> None \<or> (\<exists>i. m = MDelete i))
   | Some t \<Rightarrow> mutate env m (s, f) = persistLocked env (t, f)"
  by (cases m) (simp_all add: SetLabel_run Remember_run DeleteRemembered_def Let_def split: option.split)

lemma intended_retained:
  assumes "intended env m s = Some t" and "retained (st_data s)"
  shows "retained (st_data t) \<and> st_path t = st_path s"
proof (cases m)
  case (MLabel cwd command label)
  then show ?thesis using assms by (auto simp: labelled_def retained_def split: if_splits)
next
  case (MRemember r)
  then obtain e where t: "t = remembering e s" using assms by auto
  show ?thesis using retained_remembering [OF assms(2), of e] by (simp add: t) (simp add: remembering_def)
next
  case (MDelete i)
  let ?d = "(st_data s)\<lparr>Remembered := filter (\<lambda>r. r_ID r \<noteq> i) (Remembered (st_data s))\<rparr>"
  have "length (Remembered ?d) \<le> GlobalRememberedCap"
    using assms(2) by (auto simp: retained_def intro: order_trans [OF length_filter_le])
  moreover have "length (of_key key (Remembered ?d)) \<le> PerKeyRememberedCap" for key
    using assms(2) by (auto simp: retained_def intro: order_trans [OF of_key_filter])
  ultimately have "retained ?d" using assms(2) by (simp add: retained_def)
  then show ?thesis using MDelete assms(1) by (auto simp: Let_def split: if_splits)
qed

text \<open>A mutation either changes nothing or persists a state within the limits.\<close>

lemma mutate_cases:
  assumes "mutate env m (s, f) = ((s', f'), err)" and "retained (st_data s)"
  obtains (unchanged) "s' = s" "f' = f" "err \<noteq> None \<or> (\<exists>i. m = MDelete i)"
  | (persists) t where "intended env m s = Some t" "persistLocked env (t, f) = ((s', f'), err)"
      "retained (st_data t)" "st_path t = st_path s"
proof (cases "intended env m s")
  case None
  then show thesis using mutate_intended [of env m s f] assms(1) by (intro unchanged) simp_all
next
  case (Some t)
  then have "persistLocked env (t, f) = ((s', f'), err)"
    using mutate_intended [of env m s f] assms(1) by simp
  then show thesis using persists [OF Some] intended_retained [OF Some assms(2)] by blast
qed

theorem mutation_limits:
  assumes "mutate env m (s, f) = ((s', f'), err)" and "retained (st_data s)"
  shows "retained (st_data s') \<and> st_path s' = st_path s
    \<and> (err = None \<longrightarrow> on_disk (e_json env) (s', f') \<or> (s', f') = (s, f))
    \<and> (err \<noteq> None \<longrightarrow> cache f' (st_path s) = cache f (st_path s))"
  using assms
proof (cases rule: mutate_cases)
  case unchanged
  then show ?thesis using assms(2) by auto
next
  case (persists t)
  then show ?thesis
    using persist_spec [OF persists(2)] drops_retained by auto
qed

definition mutate_all :: "(store_env \<times> mutation) list \<Rightarrow> store \<times> fs \<Rightarrow> store \<times> fs" where
  "mutate_all ms sf = fold (\<lambda>(env, m) sf. fst (mutate env m sf)) ms sf"

lemma mutations_bounded:
  assumes "mutate_all ms (s, f) = (s', f')" and "retained (st_data s)"
  shows "retained (st_data s') \<and> st_path s' = st_path s
    \<and> (cache f' (st_path s) = cache f (st_path s)
       \<or> (\<exists>b. cache f' (st_path s) = Some b \<and> length b \<le> 262144))"
  using assms(1)
proof (induction ms arbitrary: s' f' rule: rev_induct)
  case Nil
  then show ?case using assms(2) by (simp add: mutate_all_def)
next
  case (snoc x ms)
  obtain env m where x: "x = (env, m)" by (cases x)
  obtain s1 f1 where 1: "mutate_all ms (s, f) = (s1, f1)" by fastforce
  obtain err where run: "mutate env m (s1, f1) = ((s', f'), err)"
    using snoc.prems 1 by (cases "mutate env m (s1, f1)") (auto simp: mutate_all_def x)
  note ih = snoc.IH [OF 1]
  show ?case
    using mutation_limits [OF run] ih by (cases err) (auto simp: on_disk_def MaxStateBytes_def)
qed

lemma mutations_retained:
  "mutate_all ms (s, f) = (s', f') \<Longrightarrow> retained (st_data s) \<Longrightarrow> retained (st_data s')"
  by (drule (1) mutations_bounded) blast


section \<open>Reopening\<close>

definition agrees :: "unmarshalled \<Rightarrow> persisted \<Rightarrow> bool" where
  "agrees u d \<longleftrightarrow> u_Version u = Version d
    \<and> gm_get (case u_Labels u of None \<Rightarrow> [] | Some m \<Rightarrow> m) = gm_get (Labels d)
    \<and> (case u_Remembered u of None \<Rightarrow> [] | Some rs \<Rightarrow> rs) = Remembered d"

definition state_path :: "string \<Rightarrow> path" where
  "state_path homeDir = path_join [path_join [homeDir, stateDirName], stateFile]"

text \<open>
  C29. After a mutation that wrote the state file, opening the store again gives the same labels
  and the same remembered entries, given that the JSON decoder reads back what the encoder wrote
  for that state.
\<close>

theorem reopen_restores:
  assumes "mutate env m (s, f) = ((s', f'), None)" and "retained (st_data s)" and "(s', f') \<noteq> (s, f)"
    and "homeDir \<noteq> []" and "st_path s = state_path homeDir"
    and "\<And>b. marshal (e_json env) (st_data s') = Some b \<Longrightarrow>
      \<exists>u. unmarshal (e_json env) b = Some u \<and> agrees u (st_data s')"
  shows "\<exists>t. Open_store (e_json env) True True homeDir f' = Inr t \<and> st_path t = st_path s'
    \<and> Label t cwd command = Label s' cwd command \<and> AllRemembered t = AllRemembered s'
    \<and> FindRemembered t i = FindRemembered s' i"
proof -
  have "on_disk (e_json env) (s', f')" "st_path s' = st_path s"
    using mutation_limits [OF assms(1,2)] assms(3) by auto
  then obtain b where b: "marshal (e_json env) (st_data s') = Some b" "cache f' (state_path homeDir) = Some b"
    using assms(5) by (auto simp: on_disk_def)
  from assms(6) [OF b(1)] obtain u where "unmarshal (e_json env) b = Some u" "agrees u (st_data s')" by blast
  then show ?thesis
    using assms(4,5) b(2) \<open>st_path s' = st_path s\<close>
    by (simp add: Open_store_def Let_def state_path_def [symmetric] agrees_def Label_def AllRemembered_def FindRemembered_def)
qed

section \<open>Concrete runs\<close>

definition empty_fs :: fs where
  "empty_fs = \<lparr>cache = \<lambda>_. None, current = \<lambda>_. [None], older = \<lambda>_. []\<rparr>"

definition sample_json :: json where
  "sample_json = \<lparr>marshal = \<lambda>d. Some ''{}'',
     unmarshal = \<lambda>_. Some \<lparr>u_Version = 1, u_Labels = None, u_Remembered = None\<rparr>\<rparr>"

definition sample_env :: store_env where
  "sample_env = \<lparr>e_json = sample_json, e_iter = rev, e_faults = no_faults, e_now = 5, e_random = Some (replicate 10 7)\<rparr>"

definition sample_store :: store where
  "sample_store = \<lparr>st_path = state_path ''/home/u'', st_data = \<lparr>Version = 1, Labels = [], Remembered = []\<rparr>\<rparr>"

definition sample_entry :: remembered where
  "sample_entry = \<lparr>r_ID = ''A'', r_Port = 3000, r_Command = [''node''], r_Cwd = ''/srv'', r_Env = [],
     r_KilledAt = 7, r_LabelKey = ''k''\<rparr>"

lemma sample_retained: "retained (st_data sample_store)"
  by (simp add: retained_def sample_store_def of_key_def)

lemma sample_marshal: "marshal (e_json sample_env) d = Some ''{}''"
  by (simp add: sample_env_def sample_json_def)

lemma sample_persist:
  "persistLocked sample_env (s, f) = ((s, apply_ops (fst (writeAtomic (st_path s) ''{}'' no_faults)) f), None)"
proof -
  have "shrink (marshal (e_json sample_env)) (e_iter sample_env) (st_data s) = (st_data s, Inr ''{}'')"
    by (rule shrink_fits) (simp_all add: sample_marshal MaxStateBytes_def)
  moreover have "snd (writeAtomic (st_path s) ''{}'' no_faults) = None" by (rule state_writer.no_faults_succeed)
  moreover have "e_faults sample_env = no_faults" by (simp add: sample_env_def)
  ultimately show ?thesis
    by (cases "writeAtomic (st_path s) ''{}'' no_faults") (simp add: persistLocked_def)
qed

definition after_write :: fs where
  "after_write = apply_ops (fst (writeAtomic (state_path ''/home/u'') ''{}'' no_faults)) empty_fs"

lemma sample_SetLabel:
  "SetLabel sample_env ''/srv'' [''node''] ''api'' (sample_store, empty_fs)
   = ((labelled sample_env ''/srv'' [''node''] ''api'' sample_store, after_write), None)"
proof -
  have "\<not> 64 < rune_count ''api''" using rune_count_le [of "''api''"] by simp
  moreover have "st_path (labelled sample_env ''/srv'' [''node''] ''api'' sample_store) = state_path ''/home/u''"
    by (simp add: labelled_def sample_store_def)
  ultimately show ?thesis by (simp add: SetLabel_run sample_persist after_write_def)
qed

lemma SetLabel_effect_witness:
  "rune_count ''api'' \<le> 64
    \<and> Label (labelled sample_env ''/srv'' [''node''] ''api'' sample_store) ''/srv'' [''node'']
        = (if LabelKey ''/srv'' [''node''] = LabelKey ''/srv'' [''node''] then ''api'' else Label sample_store ''/srv'' [''node''])
    \<and> Remembered (st_data (labelled sample_env ''/srv'' [''node''] ''api'' sample_store)) = Remembered (st_data sample_store)
    \<and> cache after_write (st_path sample_store) = Some ''{}''"
  by (rule SetLabel_effect [OF sample_SetLabel sample_retained sample_marshal]) simp

lemma SetLabel_rejects_long_witness:
  "SetLabel sample_env ''/srv'' [''node''] (replicate 65 CHR ''a'') (sample_store, empty_fs)
   = ((sample_store, empty_fs), Some ErrLabelTooLong)"
proof (rule SetLabel_rejects_long)
  have "ascii (replicate 65 CHR ''a'')" by (simp add: ascii_def)
  then have "rune_count (replicate 65 CHR ''a'') = 65" by (simp add: rune_count_def runes_ascii)
  then show "64 < rune_count (replicate 65 CHR ''a'')" by simp
qed

definition broken_env :: store_env where
  "broken_env = sample_env\<lparr>e_faults := no_faults\<lparr>rename_fails := True\<rparr>\<rparr>"

lemma failed_write_keeps_label_in_memory_witness:
  "\<exists>f'. SetLabel broken_env ''/srv'' [''node''] ''api'' (sample_store, empty_fs)
      = ((labelled broken_env ''/srv'' [''node''] ''api'' sample_store, f'), Some (ErrWriteState ErrRename))
    \<and> Label (labelled broken_env ''/srv'' [''node''] ''api'' sample_store) ''/srv'' [''node''] = ''api''
    \<and> cache f' (st_path sample_store) = cache empty_fs (st_path sample_store)"
proof (rule failed_write_keeps_label_in_memory [OF sample_retained])
  show "rune_count ''api'' \<le> 64" using rune_count_le [of "''api''"] by simp
  show "marshal (e_json broken_env) (st_data (labelled broken_env ''/srv'' [''node''] ''api'' sample_store)) = Some ''{}''"
    by (simp add: broken_env_def sample_env_def sample_json_def)
  show "snd (writeAtomic (st_path sample_store) ''{}'' (e_faults broken_env)) = Some ErrRename"
    by (simp add: broken_env_def writeAtomic_def no_faults_def Let_def)
qed simp

lemma LabelKey_separates_witness:
  "label_preimage ''/srv'' [''ls -l''] \<noteq> label_preimage ''/srv'' [''ls'', ''-l'']
    \<and> length (LabelKey ''/srv'' [''ls -l'']) = 16
    \<and> (LabelKey ''/srv'' [''ls -l''] = LabelKey ''/srv'' [''ls'', ''-l''] \<longleftrightarrow>
         take 8 (sha256 (bytes_of (label_preimage ''/srv'' [''ls -l''])))
         = take 8 (sha256 (bytes_of (label_preimage ''/srv'' [''ls'', ''-l'']))))"
  by (rule LabelKey_separates) auto

lemma sample_completed: "completed sample_env sample_entry = Some sample_entry"
  by (simp add: completed_def sample_entry_def is_zero_def zero_time_def)

lemma sample_Remember:
  "Remember sample_env sample_entry (sample_store, empty_fs) = ((remembering sample_entry sample_store, after_write), None)"
proof -
  have "st_path (remembering sample_entry sample_store) = state_path ''/home/u''"
    by (simp add: remembering_def sample_store_def)
  then show ?thesis by (simp add: Remember_run sample_completed sample_persist after_write_def)
qed


lemma remembered_found_witness:
  "Remembered (st_data (remembering sample_entry sample_store)) = []
    \<or> FindRemembered (remembering sample_entry sample_store) (r_ID sample_entry) = Some sample_entry
      \<and> hd (AllRemembered (remembering sample_entry sample_store)) = sample_entry
      \<and> Labels (st_data (remembering sample_entry sample_store)) = Labels (st_data sample_store)"
  by (rule remembered_found [OF sample_Remember sample_completed sample_retained]) (simp add: sample_store_def)

lemma deleted_not_found_witness:
  "FindRemembered sample_store ''A'' = None
    \<and> DeleteRemembered sample_env ''A'' (sample_store, empty_fs) = ((sample_store, empty_fs), None)
    \<and> set (Remembered (st_data sample_store)) \<subseteq> set (Remembered (st_data sample_store))"
  by (rule deleted_not_found [of sample_env _ sample_store empty_fs _ _ None])
     (simp add: DeleteRemembered_def sample_store_def)

lemma mutation_limits_witness:
  "retained (st_data (remembering sample_entry sample_store))
    \<and> st_path (remembering sample_entry sample_store) = st_path sample_store
    \<and> ((None :: store_error option) = None \<longrightarrow> on_disk (e_json sample_env) (remembering sample_entry sample_store, after_write)
         \<or> (remembering sample_entry sample_store, after_write) = (sample_store, empty_fs))
    \<and> ((None :: store_error option) \<noteq> None \<longrightarrow> cache after_write (st_path sample_store) = cache empty_fs (st_path sample_store))"
  by (rule mutation_limits [of sample_env "MRemember sample_entry", OF _ sample_retained]) (simp add: sample_Remember)


lemma reopen_restores_witness:
  "\<exists>t. Open_store (e_json sample_env) True True ''/home/u'' after_write = Inr t
    \<and> st_path t = st_path (labelled sample_env ''/srv'' [''node''] [] sample_store)
    \<and> Label t ''/srv'' [''node''] = Label (labelled sample_env ''/srv'' [''node''] [] sample_store) ''/srv'' [''node'']
    \<and> AllRemembered t = AllRemembered (labelled sample_env ''/srv'' [''node''] [] sample_store)
    \<and> FindRemembered t ''A'' = FindRemembered (labelled sample_env ''/srv'' [''node''] [] sample_store) ''A''"
proof (rule reopen_restores [of sample_env "MLabel ''/srv'' [''node''] []", OF _ sample_retained])
  let ?s = "labelled sample_env ''/srv'' [''node''] [] sample_store"
  have path: "st_path ?s = state_path ''/home/u''" by (simp add: labelled_def sample_store_def)
  have "rune_count [] \<le> 64" using rune_count_le [of "[]"] by simp
  then show "mutate sample_env (MLabel ''/srv'' [''node''] []) (sample_store, empty_fs) = ((?s, after_write), None)"
    using path by (simp add: SetLabel_run sample_persist after_write_def)
  have "cache after_write (state_path ''/home/u'') = Some ''{}''"
    unfolding after_write_def by (rule state_writer.success_writes) (rule state_writer.no_faults_succeed)
  moreover have "cache empty_fs (state_path ''/home/u'') = None" by (simp add: empty_fs_def)
  ultimately have "after_write \<noteq> empty_fs" by auto
  then show "(?s, after_write) \<noteq> (sample_store, empty_fs)" by simp
  show "\<exists>u. unmarshal (e_json sample_env) b = Some u \<and> agrees u (st_data ?s)" for b
    by (simp add: sample_env_def sample_json_def agrees_def labelled_def sample_store_def)
qed (simp_all add: sample_store_def)

lemma state_writes_crash_safe_witness:
  "after_power_loss (apply_ops (take 3 (fst (writeAtomic ''/s'' ''new'' no_faults)))
        (apply_ops (fst (writeAtomic ''/s'' ''old'' no_faults)) empty_fs)) ''/s''
      \<subseteq> after_power_loss empty_fs ''/s'' \<union> insert (Some ''new'') (set (map (Some \<circ> fst) [(''old'', no_faults)]))
    \<and> cache (apply_ops (take 3 (fst (writeAtomic ''/s'' ''new'' no_faults)))
        (apply_ops (fst (writeAtomic ''/s'' ''old'' no_faults)) empty_fs)) ''/s''
      \<in> insert (cache empty_fs ''/s'') (insert (Some ''new'') (set (map (Some \<circ> fst) [(''old'', no_faults)])))"
  by (rule state_writes_crash_safe [OF _ refl]) simp

lemma env_write_durable_witness:
  "after_power_loss (apply_ops (fst (atomicWriteFile ''/e'' ''K=v'' no_faults)) empty_fs) ''/e'' = {Some ''K=v''}
    \<and> cache (apply_ops (fst (atomicWriteFile ''/e'' ''K=v'' no_faults)) empty_fs) ''/e'' = Some ''K=v''"
  by (rule env_write_durable [OF env_writer.no_faults_succeed]) (simp_all add: no_faults_def)

definition big_json :: "persisted \<Rightarrow> content option" where
  "big_json d = Some (if Remembered d = [] then ''{}'' else replicate 262145 CHR ''x'')"

definition one_entry :: persisted where
  "one_entry = \<lparr>Version = 1, Labels = [], Remembered = [sample_entry]\<rparr>"

lemma eviction_order_witness:
  "(\<exists>n. Remembered (st_data sample_store) = drop n (Remembered one_entry))
    \<and> Version (st_data sample_store) = Version one_entry
    \<and> gm_ok (Labels (st_data sample_store))
    \<and> set (Labels (st_data sample_store)) \<subseteq> set (Labels one_entry)
    \<and> (Labels (st_data sample_store) = Labels one_entry \<or> Remembered (st_data sample_store) = [])
    \<and> older_dropped (set (Labels one_entry)) (set (Labels (st_data sample_store)))
    \<and> (st_data sample_store = one_entry
       \<or> (\<exists>b. big_json one_entry = Some b \<and> MaxStateBytes < length b))"
proof (rule eviction_order)
  have "shrink big_json rev (st_data sample_store) = (st_data sample_store, Inr ''{}'')"
    by (rule shrink_fits) (simp_all add: big_json_def sample_store_def MaxStateBytes_def)
  moreover have "shrink big_json rev one_entry = shrink big_json rev (one_entry\<lparr>Remembered := []\<rparr>)"
    by (subst shrink.simps) (simp add: big_json_def MaxStateBytes_def one_entry_def)
  ultimately show "shrink big_json rev one_entry = (st_data sample_store, Inr ''{}'')"
    by (simp add: one_entry_def sample_store_def)
qed (simp add: one_entry_def)

end
