(* ===== verification/ProcessFacts.thy ===== *)
theory ProcessFacts
  imports Process ScannerFacts StoreFacts
begin

text \<open>
  Properties of \<^verbatim>\<open>internal/process\<close>: the guards of Kill, the signals of every run of the
  dashboard among other processes, and what a restart starts.
\<close>

section \<open>The grace window\<close>

lemma grace_of_small: "0 < ms \<Longrightarrow> ms \<le> 9223372036854 \<Longrightarrow> grace_of ms = ms * Millisecond"
proof -
  assume "0 < ms" "ms \<le> 9223372036854"
  then have "sint (word_of_int (ms * 1000000) :: 64 word) = ms * 1000000"
    by (intro signed_take_bit_int_eq_self [THEN trans [OF sint_sbintrunc']]) auto
  then show ?thesis using \<open>0 < ms\<close> by (simp add: grace_of_def Let_def time_units)
qed

text \<open>Beyond that the product wraps.\<close>

theorem grace_positive:
  "0 < grace_of ms \<and> (0 < ms \<and> ms \<le> 9223372036854 \<longrightarrow> grace_of ms = ms * Millisecond)
    \<and> grace_of 18446744073710 = 448384"
  using grace_of_small [of ms] by (auto simp: grace_of_def Let_def time_units)

lemma grace_positive_witness: "0 < grace_of 3000 \<and> grace_of 3000 = 3000 * Millisecond"
  using grace_positive [of 3000] by simp

section \<open>Guards\<close>

text \<open>
  A manager whose scanner keeps the contract of the scanners: whatever it finds is a listener of
  another process with a port in range.
\<close>

definition live :: "manager \<Rightarrow> host \<Rightarrow> int \<Rightarrow> bool" where
  "live m h pid \<longleftrightarrow> (case m_newScanner m h of Inr (Inr ls) \<Rightarrow> list_ex (\<lambda>l. L_PID l = pid) ls | _ \<Rightarrow> False)"

locale guarded_manager =
  fixes m :: manager and lo hi :: int
  assumes scans: "m_newScanner m h = Inr (Inr ls) \<Longrightarrow> scan_ok lo hi (m_selfPID m) ls"
begin

lemma live_not_self: "live m h pid \<Longrightarrow> pid \<noteq> m_selfPID m"
  using scans [of h] by (fastforce simp: live_def scan_ok_def list_all_iff list_ex_iff split: sum.splits)

lemma verified: "verifyLive m h pid = None \<longleftrightarrow> live m h pid"
proof (cases "\<exists>ls. m_newScanner m h = Inr (Inr ls)")
  case True
  then obtain ls where ls: "m_newScanner m h = Inr (Inr ls)" by blast
  show ?thesis
  proof (cases "List.find (\<lambda>l. L_PID l = pid) ls")
    case None
    moreover from this have "\<not> list_ex (\<lambda>l. L_PID l = pid) ls" by (simp add: find_None_iff list_ex_iff)
    ultimately show ?thesis using ls by (simp add: verifyLive_def live_def)
  next
    case (Some l)
    moreover from this have "list_ex (\<lambda>l. L_PID l = pid) ls" by (auto simp: find_Some_iff list_ex_iff)
    ultimately show ?thesis using ls live_not_self [of h pid] by (simp add: verifyLive_def live_def)
  qed
qed (auto simp: verifyLive_def live_def split: sum.splits)

lemma Kill_success:
  "fst (Kill m h pid w) = None \<longleftrightarrow>
     1 < pid \<and> live m h pid \<and> (\<exists>p. w_table w pid = Some p \<and> \<not> foreign p)"
  using live_not_self [of h pid] verified [of h pid]
  by (auto simp: Kill_def FindProcess_def kill_syscall_def split: option.splits)

end

definition production_manager :: "config \<Rightarrow> int \<Rightarrow> manager" where
  "production_manager cfg self = the (New_manager (Some cfg) self [WithStore True])"

lemma production_manager_simps [simp]:
  "m_selfPID (production_manager cfg self) = self"
  "m_grace (production_manager cfg self) = grace_of (KillGraceMS cfg)"
  "m_newScanner (production_manager cfg self) = auto_factory cfg self"
  "m_store (production_manager cfg self)"
  by (simp_all add: production_manager_def New_manager_def)

interpretation prod: guarded_manager "production_manager cfg self" "PortMin cfg" "PortMax cfg" for cfg self
  by unfold_locales
     (auto simp: auto_factory_def split: sum.splits scanner_kind.splits
           intro: lsof.scan_result libproc.scan_result)

theorem Kill_of_a_listener:
  "fst (Kill (production_manager cfg self) h pid w) = None \<longleftrightarrow>
     1 < pid \<and> live (production_manager cfg self) h pid \<and> (\<exists>p. w_table w pid = Some p \<and> \<not> foreign p)"
  by (rule prod.Kill_success)

section \<open>Runs\<close>

text \<open>
  What can happen between two actions of the dashboard: time passes, another process ends, a
  process is born under a free pid. The dashboard serves a Kill request or lets one escalation
  take its next action.
\<close>

inductive happens :: "manager \<Rightarrow> world \<Rightarrow> world \<Rightarrow> bool" for m where
  passes: "0 \<le> d \<Longrightarrow> happens m w (w\<lparr>w_now := w_now w + d\<rparr>)"
| exits: "pid \<noteq> m_selfPID m \<Longrightarrow> happens m w (w\<lparr>w_table := (w_table w)(pid := None)\<rparr>)"
| is_born: "w_table w pid = None \<Longrightarrow>
    happens m w (w\<lparr>w_table := (w_table w)(pid \<mapsto> \<lparr>birth = w_births w, foreign = f\<rparr>), w_births := Suc (w_births w)\<rparr>)"
| killed: "happens m w (snd (Kill m h pid w))"
| escalated: "w_pending w = es @ e # es' \<Longrightarrow> escalate e w = (r, w') \<Longrightarrow>
    happens m w (w'\<lparr>w_pending := es @ (case r of None \<Rightarrow> [] | Some e' \<Rightarrow> [e']) @ es'\<rparr>)"

abbreviation runs :: "manager \<Rightarrow> world \<Rightarrow> world \<Rightarrow> bool" where "runs m \<equiv> (happens m)\<^sup>*\<^sup>*"

text \<open>The dashboard has just started: it holds its own pid and has signalled no one.\<close>

definition fresh :: "manager \<Rightarrow> world \<Rightarrow> bool" where
  "fresh m w \<longleftrightarrow> w_log w = [] \<and> w_pending w = []
     \<and> (\<exists>p. w_table w (m_selfPID m) = Some p
          \<and> (\<forall>pid q. pid \<noteq> m_selfPID m \<longrightarrow> w_table w pid = Some q \<longrightarrow> birth q \<noteq> birth p) \<and> birth p < w_births w)"

fun esc_pid :: "escalation \<Rightarrow> int" where
  "esc_pid (Sleeping t pid) = pid"
| "esc_pid (Probed t pid) = pid"

fun esc_wake :: "escalation \<Rightarrow> gotime" where
  "esc_wake (Sleeping t pid) = t"
| "esc_wake (Probed t pid) = t"

lemma kill_syscall_frame [simp]:
  "w_now (snd (kill_syscall sig pid w)) = w_now w"
  "w_table (snd (kill_syscall sig pid w)) = w_table w"
  "w_births (snd (kill_syscall sig pid w)) = w_births w"
  "w_pending (snd (kill_syscall sig pid w)) = w_pending w"
  by (simp_all add: kill_syscall_def split: option.split)

text \<open>What a Kill does to the world: nothing, or one SIGTERM and one sleeping escalation.\<close>

lemma Kill_cases:
  obtains (refused) "snd (Kill m h pid w) = w"
  | (sent) p where "pid \<noteq> m_selfPID m" "1 < pid" "w_table w pid = Some p" "verifyLive m h pid = None"
      "snd (Kill m h pid w) = w\<lparr>
        w_log := w_log w @ [\<lparr>sg_at = w_now w, sg_signal = SIGTERM, sg_pid = pid, sg_birth = birth p\<rparr>],
        w_pending := w_pending w @ [Sleeping (w_now w + m_grace m) pid]\<rparr>"
  by (cases "pid = m_selfPID m \<or> pid \<le> 1"; cases "verifyLive m h pid"; cases "w_table w pid";
      cases "foreign (the (w_table w pid))")
     (auto simp: Kill_def FindProcess_def kill_syscall_def)

lemma escalate_cases:
  assumes "escalate e w = (r, w')"
  obtains (silent) "w' = w" "r = None \<or> (\<exists>e'. r = Some e' \<and> esc_pid e' = esc_pid e \<and> esc_wake e' = esc_wake e
              \<and> (e' = e \<or> esc_wake e \<le> w_now w) \<and> (\<exists>t pid. e = Sleeping t pid))"
  | (sent) t pid p where "e = Probed t pid" "r = None" "w_table w pid = Some p"
      "w' = w\<lparr>w_log := w_log w @ [\<lparr>sg_at = w_now w, sg_signal = SIGKILL, sg_pid = pid, sg_birth = birth p\<rparr>]\<rparr>"
  using assms
  by (cases e) (auto simp: FindProcess_def kill_syscall_def split: option.splits if_splits)


section \<open>Self-preservation\<close>

text \<open>Births are unique as far as the dashboard's own process is concerned.\<close>

definition self_safe :: "manager \<Rightarrow> nat \<Rightarrow> world \<Rightarrow> bool" where
  "self_safe m b w \<longleftrightarrow>
     (\<exists>p. w_table w (m_selfPID m) = Some p \<and> birth p = b) \<and> b < w_births w
   \<and> (\<forall>pid q. pid \<noteq> m_selfPID m \<longrightarrow> w_table w pid = Some q \<longrightarrow> birth q \<noteq> b)
   \<and> (\<forall>s \<in> set (w_log w). sg_pid s \<noteq> m_selfPID m \<and> 1 < sg_pid s \<and> sg_birth s \<noteq> b)
   \<and> (\<forall>e \<in> set (w_pending w). esc_pid e \<noteq> m_selfPID m \<and> 1 < esc_pid e)"

lemma self_safe_step: "happens m w w' \<Longrightarrow> self_safe m b w \<Longrightarrow> self_safe m b w'"
proof (induction rule: happens.induct)
  case (killed w h pid)
  show ?case
  proof (cases m h pid w rule: Kill_cases)
    case (sent p)
    then show ?thesis using killed unfolding self_safe_def by simp
  qed (simp add: killed)
next
  case (escalated w es e es' r w')
  have e: "esc_pid e \<noteq> m_selfPID m \<and> 1 < esc_pid e" using escalated by (simp add: self_safe_def)
  from escalated(2) show ?case
  proof (cases rule: escalate_cases)
    case silent
    then show ?thesis using escalated(1,3) e unfolding self_safe_def by (auto split: option.split)
  next
    case (sent t pid p)
    moreover from this have "birth p \<noteq> b" using escalated(3) e by (auto simp: self_safe_def)
    ultimately show ?thesis using escalated(1,3) e unfolding self_safe_def by simp
  qed
qed (auto simp: self_safe_def split: if_splits)

lemma self_safe_runs: "runs m w w' \<Longrightarrow> self_safe m b w \<Longrightarrow> self_safe m b w'"
  by (induction rule: rtranclp_induct) (simp_all add: self_safe_step)

lemma signals_spare_self:
  assumes "fresh m w0" and "runs m w0 w" and "s \<in> set (w_log w)"
  shows "sg_pid s \<noteq> m_selfPID m \<and> 1 < sg_pid s
    \<and> (\<exists>p. w_table w (m_selfPID m) = Some p \<and> sg_birth s \<noteq> birth p)"
proof -
  from assms(1) obtain p where "w_table w0 (m_selfPID m) = Some p" "self_safe m (birth p) w0"
    by (auto simp: fresh_def self_safe_def)
  then have "self_safe m (birth p) w" using self_safe_runs [OF assms(2)] by blast
  with assms(3) show ?thesis unfolding self_safe_def by fastforce
qed

theorem never_signals_itself:
  assumes "fresh m w0" and "runs m w0 w" and "s \<in> set (w_log w)"
  shows "sg_pid s \<noteq> m_selfPID m \<and> 1 < sg_pid s
    \<and> (\<exists>p. w_table w (m_selfPID m) = Some p \<and> sg_birth s \<noteq> birth p)"
  using assms by (rule signals_spare_self)

section \<open>SIGKILL after SIGTERM\<close>

definition termed :: "manager \<Rightarrow> world \<Rightarrow> int \<Rightarrow> gotime \<Rightarrow> bool" where
  "termed m w pid t \<longleftrightarrow> (\<exists>s \<in> set (w_log w). sg_signal s = SIGTERM \<and> sg_pid s = pid \<and> sg_at s + m_grace m \<le> t)"

definition timed :: "manager \<Rightarrow> world \<Rightarrow> bool" where
  "timed m w \<longleftrightarrow>
     (\<forall>e \<in> set (w_pending w). termed m w (esc_pid e) (esc_wake e) \<and> (\<forall>t pid. e = Probed t pid \<longrightarrow> t \<le> w_now w))
   \<and> (\<forall>s \<in> set (w_log w). sg_signal s = SIGKILL \<longrightarrow> termed m w (sg_pid s) (sg_at s))"

lemma termed_mono: "termed m w pid t \<Longrightarrow> set (w_log w) \<subseteq> set (w_log w') \<Longrightarrow> t \<le> t' \<Longrightarrow> termed m w' pid t'"
  unfolding termed_def by fastforce

lemma timed_step: "happens m w w' \<Longrightarrow> timed m w \<Longrightarrow> timed m w'"
proof (induction rule: happens.induct)
  case (passes d w)
  then show ?case by (fastforce simp: timed_def termed_def)
next
  case (killed w h pid)
  show ?case
  proof (cases m h pid w rule: Kill_cases)
    case (sent p)
    have "termed m (snd (Kill m h pid w)) pid (w_now w + m_grace m)"
      unfolding sent(5) termed_def by simp
    moreover have "termed m w q t \<Longrightarrow> termed m (snd (Kill m h pid w)) q t" for q t
      by (rule termed_mono) (auto simp: sent(5))
    ultimately show ?thesis using killed unfolding timed_def by (auto simp: sent(5))
  qed (simp add: killed)
next
  case (escalated w es e es' r w')
  let ?w = "w'\<lparr>w_pending := es @ (case r of None \<Rightarrow> [] | Some e' \<Rightarrow> [e']) @ es'\<rparr>"
  have e: "termed m w (esc_pid e) (esc_wake e)" "\<forall>t pid. e = Probed t pid \<longrightarrow> t \<le> w_now w"
    using escalated(1,3) by (simp_all add: timed_def)
  from escalated(2) show ?case
  proof (cases rule: escalate_cases)
    case silent
    then have keep: "termed m w q t \<Longrightarrow> termed m ?w q t" for q t by (auto intro: termed_mono)
    have "e' = e \<or> esc_wake e' \<le> w_now w" if "r = Some e'" for e' using silent(2) that by auto
    then show ?thesis
      using escalated(1,3) silent e keep unfolding timed_def by (auto split: option.split)
  next
    case (sent t pid p)
    then have keep: "termed m w q u \<Longrightarrow> termed m ?w q u" for q u by (auto intro: termed_mono)
    have "termed m ?w pid (w_now w)" using keep e sent(1) by (auto intro: termed_mono)
    then show ?thesis using escalated(1,3) sent keep unfolding timed_def by (auto simp: sent(4))
  qed
qed (auto simp: timed_def termed_def)

lemma timed_runs: "runs m w w' \<Longrightarrow> timed m w \<Longrightarrow> timed m w'"
  by (induction rule: rtranclp_induct) (simp_all add: timed_step)

text \<open>
  C20. In every run, a SIGKILL to a pid comes at least the grace window after a SIGTERM to that
  pid.
\<close>

theorem sigkill_after_grace:
  assumes "fresh m w0" and "runs m w0 w" and "k \<in> set (w_log w)" and "sg_signal k = SIGKILL"
  shows "\<exists>s \<in> set (w_log w). sg_signal s = SIGTERM \<and> sg_pid s = sg_pid k \<and> sg_at s + m_grace m \<le> sg_at k"
proof -
  have "timed m w0" using assms(1) by (simp add: fresh_def timed_def)
  then show ?thesis using timed_runs [OF assms(2)] assms(3,4) by (auto simp: timed_def termed_def)
qed

definition sent_to :: "signal \<Rightarrow> int \<Rightarrow> world \<Rightarrow> nat" where
  "sent_to sig pid w = length (filter (\<lambda>s. sg_signal s = sig \<and> sg_pid s = pid) (w_log w))"

definition waiting :: "int \<Rightarrow> world \<Rightarrow> nat" where
  "waiting pid w = length (filter (\<lambda>e. esc_pid e = pid) (w_pending w))"

lemma counted_step:
  "happens m w w' \<Longrightarrow> sent_to SIGKILL pid w + waiting pid w \<le> sent_to SIGTERM pid w \<Longrightarrow>
   sent_to SIGKILL pid w' + waiting pid w' \<le> sent_to SIGTERM pid w'"
proof (induction rule: happens.induct)
  case (killed w h q)
  show ?case
    by (cases m h q w rule: Kill_cases) (use killed in \<open>auto simp: sent_to_def waiting_def\<close>)
next
  case (escalated w es e es' r w')
  from escalated(2) show ?case
    by (cases rule: escalate_cases)
       (use escalated(1,3) in \<open>auto simp: sent_to_def waiting_def split: option.split if_splits\<close>)
qed (auto simp: sent_to_def waiting_def)

text \<open>
  C21. In every run, each pid gets at most one SIGKILL per SIGTERM, escalations that still wait
  counted as SIGKILLs.
\<close>

theorem one_sigkill_per_sigterm:
  assumes "fresh m w0" and "runs m w0 w"
  shows "sent_to SIGKILL pid w + waiting pid w \<le> sent_to SIGTERM pid w"
  using assms(2)
proof (induction rule: rtranclp_induct)
  case base
  then show ?case using assms(1) by (simp add: fresh_def sent_to_def waiting_def)
qed (simp add: counted_step)


section \<open>The end of an escalation\<close>

lemma escalation_kills:
  assumes "w_pending w = es @ Sleeping t pid # es'" and "t \<le> w_now w"
    and "w_table w pid = Some p" and "\<not> foreign p" and "0 < pid"
  shows "runs m w (w\<lparr>w_log := w_log w @ [\<lparr>sg_at = w_now w, sg_signal = SIGKILL, sg_pid = pid, sg_birth = birth p\<rparr>],
    w_pending := es @ es'\<rparr>)"
proof -
  let ?w = "w\<lparr>w_pending := es @ Probed t pid # es'\<rparr>"
  have "escalate (Sleeping t pid) w = (Some (Probed t pid), w)"
    using assms by (simp add: isAlive_def FindProcess_def kill_syscall_def)
  from escalated [OF assms(1) this] have probe: "happens m w ?w" by simp
  let ?w' = "?w\<lparr>w_log := w_log w @ [\<lparr>sg_at = w_now w, sg_signal = SIGKILL, sg_pid = pid, sg_birth = birth p\<rparr>]\<rparr>"
  have "escalate (Probed t pid) ?w = (None, ?w')"
    using assms(3,4) by (simp add: FindProcess_def kill_syscall_def)
  from escalated [of ?w es _ es', OF _ this] have "happens m ?w (?w'\<lparr>w_pending := es @ es'\<rparr>)" by simp
  with probe show ?thesis by (auto intro: rtranclp.rtrancl_into_rtrancl)
qed


text \<open>The pid of a process that ended within the window may be held by another one when the window closes.\<close>

text \<open>
  C38. A SIGKILL goes to whatever process holds the pid when the window closes: there is a run
  in which the SIGTERMed process ends, its pid is reused, and the new process, which never got a
  SIGTERM, is killed.
\<close>

theorem sigkill_hits_next_holder:
  assumes "verifyLive m h pid = None" and "1 < pid" and "w_table w pid = Some p" and "\<not> foreign p"
    and "0 \<le> m_grace m" and "w_pending w = []" and "pid \<noteq> m_selfPID m"
  shows "\<exists>w'. runs m w w' \<and> map (\<lambda>s. (sg_signal s, sg_pid s, sg_birth s)) (w_log w') =
    map (\<lambda>s. (sg_signal s, sg_pid s, sg_birth s)) (w_log w) @ [(SIGTERM, pid, birth p), (SIGKILL, pid, w_births w)]"
proof -
  let ?t = "w_now w + m_grace m"
  let ?w1 = "w\<lparr>w_log := w_log w @ [\<lparr>sg_at = w_now w, sg_signal = SIGTERM, sg_pid = pid, sg_birth = birth p\<rparr>],
    w_pending := [Sleeping ?t pid]\<rparr>"
  let ?w2 = "?w1\<lparr>w_table := (w_table w)(pid := None)\<rparr>"
  let ?w3 = "?w2\<lparr>w_table := (w_table w)(pid \<mapsto> \<lparr>birth = w_births w, foreign = False\<rparr>), w_births := Suc (w_births w)\<rparr>"
  let ?w4 = "?w3\<lparr>w_now := ?t\<rparr>"
  have "snd (Kill m h pid w) = ?w1"
    using assms by (simp add: Kill_def FindProcess_def kill_syscall_def)
  then have "happens m w ?w1" using killed [of m w h pid] by simp
  moreover have "happens m ?w1 ?w2" using exits [OF assms(7), of ?w1] by simp
  moreover have "happens m ?w2 ?w3" using is_born [of ?w2 pid m False] by simp
  moreover have "happens m ?w3 ?w4" using passes [OF assms(5), of m ?w3] by simp
  ultimately have "runs m w ?w4" by (meson r_into_rtranclp rtranclp_trans)
  moreover have "runs m ?w4 (?w4\<lparr>w_log := w_log ?w4 @
      [\<lparr>sg_at = w_now ?w4, sg_signal = SIGKILL, sg_pid = pid, sg_birth = w_births w\<rparr>], w_pending := []\<rparr>)"
    (is "runs m ?w4 ?w5")
    using escalation_kills [of ?w4 "[]" ?t pid "[]" "\<lparr>birth = w_births w, foreign = False\<rparr>" m] assms(2) by simp
  ultimately have "runs m w ?w5" by (rule rtranclp_trans)
  then show ?thesis by (intro exI [of _ ?w5]) simp
qed

section \<open>Restart\<close>

definition restart_child :: "remembered \<Rightarrow> child" where
  "restart_child r = \<lparr>c_Argv = r_Command r, c_Dir = r_Cwd r,
     c_Env = (if r_Env r = [] then None else Some (r_Env r)), c_Setsid = True\<rparr>"

lemma Restart_ok:
  "Restart m env st rid = (ev, None) \<longleftrightarrow>
     m_store m \<and> open_r env \<and> open_w env \<and>
     (\<exists>r pid. FindRemembered st rid = Some r \<and> r_Command r \<noteq> [] \<and> start env (restart_child r) = Inr pid
        \<and> ev = [OpenFd DevNullR, OpenFd DevNullW, Start (restart_child r)])"
  by (cases "FindRemembered st rid")
     (auto simp: Restart_def SpawnDetached_def spawn_def append_nil_def restart_child_def Let_def
           split: list.splits sum.splits)

theorem Restart_exact:
  "Restart m env st rid = (ev, None) \<longleftrightarrow>
     m_store m \<and> open_r env \<and> open_w env \<and>
     (\<exists>r pid. FindRemembered st rid = Some r \<and> r_Command r \<noteq> [] \<and> start env (restart_child r) = Inr pid
        \<and> ev = [OpenFd DevNullR, OpenFd DevNullW, Start (restart_child r)])"
  by (rule Restart_ok)

text \<open>Open descriptors after a series of events.\<close>

definition open_fds :: "fd \<Rightarrow> spawn_event list \<Rightarrow> int" where
  "open_fds f evs = int (count_list evs (OpenFd f)) - int (count_list evs (CloseFd f))"

theorem spawn_no_leak:
  "case spawn env s of
     (ev, Inl e) \<Rightarrow> open_fds f ev = 0
   | (ev, Inr pid) \<Rightarrow> open_fds f ev = 1 \<and> open_fds f (ev @ reap) = 0"
  by (cases f) (auto simp: spawn_def reap_def open_fds_def Let_def split: list.split sum.split)

text \<open>A remembered process without an environment is restarted with the dashboard's.\<close>

theorem restart_without_env_inherits:
  assumes "m_store m" and "FindRemembered st rid = Some r" and "r_Env r = []" and "r_Command r \<noteq> []"
    and "open_r env" and "open_w env"
  shows "\<exists>c. Start c \<in> set (fst (Restart m env st rid)) \<and> c_Env c = None \<and> c_Argv c = r_Command r"
  using assms
  by (auto simp: Restart_def SpawnDetached_def spawn_def append_nil_def Let_def neq_Nil_conv split: sum.split)

section \<open>A concrete run\<close>

definition sample_manager :: manager where "sample_manager = production_manager sample_config 7"

definition sample_host :: host where
  "sample_host = \<lparr>h_darwin = False, h_uid = 501, h_ctx = None, h_lsof = sample_run, h_kernel = sample_kernel\<rparr>"

definition sample_world :: world where
  "sample_world = \<lparr>w_now = 0, w_table = (\<lambda>pid. if pid = 7 then Some \<lparr>birth = 0, foreign = False\<rparr>
     else if pid = 12 then Some \<lparr>birth = 1, foreign = False\<rparr> else None), w_births = 2, w_log = [], w_pending = []\<rparr>"

definition sample_sent :: "signal \<Rightarrow> gotime \<Rightarrow> signalled" where
  "sample_sent sig t = \<lparr>sg_at = t, sg_signal = sig, sg_pid = 12, sg_birth = 1\<rparr>"

definition termed_world :: world where
  "termed_world = sample_world\<lparr>w_log := [sample_sent SIGTERM 0], w_pending := [Sleeping (3 * Second) 12]\<rparr>"

definition killed_world :: world where
  "killed_world = sample_world\<lparr>w_now := 3 * Second,
     w_log := [sample_sent SIGTERM 0, sample_sent SIGKILL (3 * Second)]\<rparr>"

lemma sample_live: "verifyLive sample_manager sample_host 12 = None"
  by code_simp

lemma sample_manager_simps [simp]: "m_selfPID sample_manager = 7" "m_grace sample_manager = 3 * Second"
  using grace_of_small [of 3000] by (simp_all add: sample_manager_def sample_config_def time_units)

lemma sample_fresh: "fresh sample_manager sample_world"
  by (simp add: fresh_def sample_world_def)

lemma sample_kill: "Kill sample_manager sample_host 12 sample_world = (None, termed_world)"
  using sample_live
  by (simp add: Kill_def FindProcess_def kill_syscall_def termed_world_def sample_sent_def sample_world_def)

lemma run_termed: "runs sample_manager sample_world termed_world"
  using killed [of sample_manager sample_world sample_host 12] by (simp add: sample_kill)

lemma run_killed: "runs sample_manager sample_world killed_world"
proof -
  let ?w = "termed_world\<lparr>w_now := 3 * Second\<rparr>"
  have "happens sample_manager termed_world ?w"
    using passes [of "3 * Second" sample_manager termed_world]
    by (simp add: time_units termed_world_def sample_world_def)
  moreover have "runs sample_manager ?w killed_world"
    using escalation_kills [of ?w "[]" "3 * Second" 12 "[]" "\<lparr>birth = 1, foreign = False\<rparr>" sample_manager]
    by (simp add: termed_world_def killed_world_def sample_world_def sample_sent_def)
  ultimately show ?thesis using run_termed by (meson r_into_rtranclp rtranclp_trans)
qed

lemma never_signals_itself_witness:
  "sg_pid (sample_sent SIGTERM 0) \<noteq> m_selfPID sample_manager \<and> 1 < sg_pid (sample_sent SIGTERM 0)
    \<and> (\<exists>p. w_table termed_world (m_selfPID sample_manager) = Some p \<and> sg_birth (sample_sent SIGTERM 0) \<noteq> birth p)"
  by (rule never_signals_itself [OF sample_fresh run_termed]) (simp add: termed_world_def)

lemma sigkill_after_grace_witness:
  "\<exists>s \<in> set (w_log killed_world). sg_signal s = SIGTERM \<and> sg_pid s = 12 \<and> sg_at s + 3 * Second \<le> 3 * Second"
  using sigkill_after_grace [OF sample_fresh run_killed, of "sample_sent SIGKILL (3 * Second)"]
  by (simp add: killed_world_def sample_sent_def)

lemma one_sigkill_per_sigterm_witness:
  "sent_to SIGKILL 12 killed_world + waiting 12 killed_world \<le> sent_to SIGTERM 12 killed_world"
  by (rule one_sigkill_per_sigterm [OF sample_fresh run_killed])


lemma sigkill_hits_next_holder_witness:
  "\<exists>w'. runs sample_manager sample_world w' \<and> map (\<lambda>s. (sg_signal s, sg_pid s, sg_birth s)) (w_log w') =
    [(SIGTERM, 12, 1), (SIGKILL, 12, 2)]"
  using sigkill_hits_next_holder [OF sample_live, of sample_world "\<lparr>birth = 1, foreign = False\<rparr>"]
  by (simp add: sample_world_def time_units)

definition sample_spawn :: spawn_env where
  "sample_spawn = \<lparr>open_r = True, open_w = True, start = (\<lambda>_. Inr 4711)\<rparr>"

definition sample_remembered :: remembered where
  "sample_remembered = \<lparr>r_ID = ''01A'', r_Port = 40123, r_Command = [''app'', ''-p''], r_Cwd = ''/srv'', r_Env = [],
     r_KilledAt = 0, r_LabelKey = ''k''\<rparr>"

definition one_entry_store :: store where
  "one_entry_store = \<lparr>st_path = ''s'', st_data = \<lparr>Version = 1, Labels = [], Remembered = [sample_remembered]\<rparr>\<rparr>"

lemma restart_without_env_inherits_witness:
  "\<exists>c. Start c \<in> set (fst (Restart sample_manager sample_spawn one_entry_store ''01A''))
    \<and> c_Env c = None \<and> c_Argv c = [''app'', ''-p'']"
  using restart_without_env_inherits [of sample_manager one_entry_store "''01A''" sample_remembered sample_spawn]
  by (simp add: sample_manager_def FindRemembered_def one_entry_store_def sample_remembered_def sample_spawn_def)

end
