(* ===== verification/ServerFacts.thy ===== *)
theory ServerFacts
  imports Server HttpFacts ProcessFacts
begin

text \<open>
  Properties of \<^verbatim>\<open>internal/server\<close>: who can change what, logins against the limiter, the flow of
  kill, remember and restart, the fallback of the port table, and the request log.
\<close>

declare snapshot_Get_def [simp] snapshot_Set_def [simp]

section \<open>Frames\<close>

named_theorems frames \<open>what a handler leaves alone\<close>

lemma on_writer_snd [simp]: "snd (on_writer f x) = snd x"
  by (cases x) (simp add: on_writer_def)

lemma header_get_update [simp]:
  "header_get (r\<lparr>rq_id := i\<rparr>) = header_get r" "header_get (r\<lparr>rq_authKind := k\<rparr>) = header_get r"
  by (simp_all add: header_get_def fun_eq_iff)

lemma request_cookie_update [simp]:
  "request_cookie (r\<lparr>rq_id := i\<rparr>) = request_cookie r"
  by (simp add: request_cookie_def fun_eq_iff)

lemma remote_update [simp]:
  "remoteAddr (r\<lparr>rq_id := i\<rparr>) = remoteAddr r" "remoteIP (r\<lparr>rq_id := i\<rparr>) = remoteIP r"
  by (auto simp: remoteAddr_def remoteIP_def fun_eq_iff Let_def split: option.split)

lemma authenticate_update [simp]: "authenticate q st (r\<lparr>rq_id := i\<rparr>) = authenticate q st r"
  by (auto simp: authenticate_def split: option.split)

text \<open>The parts of the site that outlive a request and that users care about.\<close>

definition effects :: "site \<Rightarrow> store option \<times> fs \<times> world \<times> spawn_event list" where
  "effects st = (si_store st, si_fs st, si_world st, si_spawned st)"

lemma effects_update [simp]:
  "effects (st\<lparr>si_auth := a\<rparr>) = effects st" "effects (st\<lparr>si_log := l\<rparr>) = effects st"
  "effects (st\<lparr>si_snapshot := c\<rparr>) = effects st"
  by (simp_all add: effects_def)

lemma rows_or_cached_effects [simp]: "effects (snd (snd (rows_or_cached s q x))) = effects (snd x)"
  by (cases x) (auto simp: rows_or_cached_def split: prod.split option.split)

lemma ports_effects [frames]:
  "effects (snd (handlePortsHTML s q r x)) = effects (snd x)"
  "effects (snd (handlePortsJSON s q r x)) = effects (snd x)"
  "effects (snd (writePortsFragment s q x)) = effects (snd x)"
  using rows_or_cached_effects [of s q x]
  by (simp_all add: handlePortsHTML_def handlePortsJSON_def writePortsFragment_def Let_def case_prod_beta)

lemma simple_effects [frames]:
  "snd (handleHealthz r x) = snd x" "snd (handleLogout r x) = snd x" "snd (handleStatic q r x) = snd x"
  "snd (handleDashboard s q r x) = snd x" "snd (handleLoginGet s q r x) = snd x"
  "snd (handleRememberedList q r x) = snd x"
  by (cases x; simp add: handleHealthz_def handleLogout_def handleStatic_def handleDashboard_def
        handleLoginGet_def handleRememberedList_def split: option.split)+

lemma login_effects [frames]: "effects (snd (withRateLimit s q (handleLoginPost s q) r x)) = effects (snd x)"
  by (cases x) (auto simp: withRateLimit_def handleLoginPost_def Let_def split: option.split prod.split)

lemma requireAuth_effects [frames]:
  "(\<And>r x. effects (snd (next r x)) = effects (snd x)) \<Longrightarrow> effects (snd (requireAuth q next r x)) = effects (snd x)"
  "(\<And>r x. effects (snd (next r x)) = effects (snd x)) \<Longrightarrow> effects (snd (requireAuthOrRedirect q next r x)) = effects (snd x)"
  "(\<And>r x. effects (snd (next r x)) = effects (snd x)) \<Longrightarrow> effects (snd (withCSRF next r x)) = effects (snd x)"
  by (cases x; simp add: requireAuth_def requireAuthOrRedirect_def withCSRF_def split: option.split)+

section \<open>Gates\<close>

lemma serve_eq:
  "serve s q i segs r st =
    (let (w, st') = dispatch s q (route_of (rq_method r) segs) (r\<lparr>rq_id := i\<rparr>)
                      (set_header ''X-Request-Id'' i new_writer, st)
     in (w, st'\<lparr>si_log := si_log st' @ [log_line_of (r\<lparr>rq_id := i\<rparr>) w]\<rparr>))"
  by (simp add: serve_def requestIDMiddleware_def loggerMiddleware_def recoverMiddleware_def)

definition mutation :: "route \<Rightarrow> bool" where
  "mutation rt \<longleftrightarrow> (case rt of RKill _ \<Rightarrow> True | RRestart _ \<Rightarrow> True | RRename _ \<Rightarrow> True | _ \<Rightarrow> False)"

definition authorized :: "request_env \<Rightarrow> site \<Rightarrow> request \<Rightarrow> bool" where
  "authorized q st r \<longleftrightarrow> authenticate q st r = Some AuthKindBearer
     \<or> authenticate q st r = Some AuthKindCookie \<and> header_get r ''X-Requested-With'' = ''XMLHttpRequest''"

lemma authenticate_kinds: "authenticate q st r \<in> {None, Some AuthKindBearer, Some AuthKindCookie}"
  by (auto simp: authenticate_def Let_def split: option.split)

lemma kinds_distinct [simp]: "AuthKindBearer \<noteq> AuthKindCookie" "AuthKindCookie \<noteq> AuthKindBearer"
  by (simp_all add: AuthKindBearer_def AuthKindCookie_def)

lemma gate_effects:
  assumes "effects (snd (requireAuth q (withCSRF next) r (w, st))) \<noteq> effects st"
  shows "authorized q st r"
  using assms authenticate_kinds [of q st r]
  by (auto simp: requireAuth_def withCSRF_def authorized_def split: option.splits if_splits)

lemma route_post:
  "mutation (route_of m segs) \<Longrightarrow> m = ''POST''"
  by (auto simp: route_of_def mutation_def Let_def split: list.splits if_splits)

lemma dispatch_effects: "\<not> mutation rt \<Longrightarrow> effects (snd (dispatch s q rt r x)) = effects (snd x)"
  by (cases rt) (simp_all add: dispatch_def mutation_def frames)

text \<open>
  C2. A request that changes the store, the disk, the processes or starts a child is a POST to a
  mutation route and carries either a valid bearer token or a valid session cookie together with
  X-Requested-With.
\<close>

theorem changes_are_authorized:
  assumes "effects (snd (serve s q i segs r st)) \<noteq> effects st"
  shows "rq_method r = ''POST'' \<and> mutation (route_of (rq_method r) segs) \<and> authorized q st r"
proof -
  let ?rt = "route_of (rq_method r) segs" and ?r = "r\<lparr>rq_id := i\<rparr>" and ?x = "(set_header ''X-Request-Id'' i new_writer, st)"
  from assms have changed: "effects (snd (dispatch s q ?rt ?r ?x)) \<noteq> effects st"
    by (simp add: serve_eq split: prod.splits)
  then have mut: "mutation ?rt" using dispatch_effects [of ?rt s q ?r ?x] by auto
  then have "authorized q st ?r"
    using changed gate_effects [of q _ ?r _ st] by (auto simp: dispatch_def mutation_def split: route.splits)
  then show ?thesis using mut route_post by (simp add: authorized_def)
qed

text \<open>Every route but the public ones refuses a request without credentials before anything happens.\<close>

definition public :: "route \<Rightarrow> bool" where
  "public rt \<longleftrightarrow> rt \<in> {RHealthz, RLoginGet, RLoginPost, RStatic, RStaticRoot, RWrongMethod, RNotFound}"

lemma status_http_error [simp]: "w_status (http_error msg code w) = (if w_status w = 0 then (if code = 0 then 200 else code) else w_status w)"
  by (simp add: http_error_def Write_def WriteHeader_def set_header_def)

lemma status_set_header [simp]: "w_status (set_header k v w) = w_status w"
  by (simp add: set_header_def)

lemma status_redirect [simp]: "w_status (redirect r u w) = (if w_status w = 0 then 303 else w_status w)"
  by (simp add: redirect_def Let_def Write_def WriteHeader_def SeeOther_def)

lemma new_writer_status [simp]: "w_status new_writer = 0"
  by (simp add: new_writer_def)

text \<open>
  C17. Without valid credentials every route but the public ones answers 401, or 303 to the
  login for the dashboard, and nothing but the log changes.
\<close>

theorem unauthenticated_refused:
  assumes "authenticate q st r = None" and "\<not> public (route_of (rq_method r) segs)"
    and "serve s q i segs r st = (w, st')"
  shows "w_status w = (if route_of (rq_method r) segs = RDashboard then 303 else 401)
    \<and> (\<exists>line. st' = st\<lparr>si_log := si_log st @ [line]\<rparr>)"
  using assms
  by (cases "route_of (rq_method r) segs")
     (auto simp: serve_eq dispatch_def public_def requireAuth_def requireAuthOrRedirect_def)

section \<open>Kill, remember, restart\<close>

text \<open>The process a request to kill or rename is about: the first listener on the port in a fresh scan.\<close>

definition target :: "server \<Rightarrow> request_env \<Rightarrow> string \<Rightarrow> int \<Rightarrow> int \<Rightarrow> bool" where
  "target s q pathPort port pid \<longleftrightarrow> atoi pathPort = Some port \<and> portInRange s port
     \<and> (case sv_scanner s of None \<Rightarrow> False
        | Some scan \<Rightarrow> resolvePIDForPort scan (q_host_resolve q) port = Inr (Some pid))"

definition pending_of :: "server \<Rightarrow> request_env \<Rightarrow> int \<Rightarrow> int \<Rightarrow> remembered option" where
  "pending_of s q port pid = map_option (pending_entry port) (snapshot_of s q pid)"

text \<open>A kill request either changes nothing of the store, the processes and the disk, or runs Kill on its target.\<close>

lemma handleKill_cases:
  obtains (refused) "effects (snd (handleKill s q pathPort r (w, st))) = effects st"
  | (ran) m port pid where "sv_process s = Some m" "target s q pathPort port pid" "pid \<noteq> sv_selfPID s"
      "effects (snd (handleKill s q pathPort r (w, st))) =
         effects (let st' = st\<lparr>si_world := snd (Kill m (q_host_verify q) pid (si_world st))\<rparr>
                  in if fst (Kill m (q_host_verify q) pid (si_world st)) = None
                     then remember_pending q (pending_of s q port pid) st' else st')"
proof (cases "atoi pathPort")
  case None
  then show thesis using refused by (simp add: handleKill_def)
next
  case port: (Some port)
  show thesis
  proof (cases "portInRange s port \<and> sv_process s \<noteq> None \<and> sv_scanner s \<noteq> None")
    case False
    then show thesis using refused port by (auto simp: handleKill_def handleKillMutation_def split: option.splits)
  next
    case True
    then obtain m scan where s: "portInRange s port" "sv_process s = Some m" "sv_scanner s = Some scan" by auto
    note run = port s handleKill_def handleKillMutation_def
    show thesis
    proof (cases "resolvePIDForPort scan (q_host_resolve q) port")
      case (Inl e)
      then show thesis using refused by (simp add: run)
    next
      case (Inr found)
      show thesis
      proof (cases "found = None \<or> found = Some (sv_selfPID s)")
        case True
        then show thesis using refused Inr by (auto simp: run)
      next
        case False
        then obtain pid where pid: "found = Some pid" "pid \<noteq> sv_selfPID s" by auto
        have "target s q pathPort port pid" using port s Inr pid by (simp add: target_def)
        moreover have "effects (snd (handleKill s q pathPort r (w, st))) =
         effects (let st' = st\<lparr>si_world := snd (Kill m (q_host_verify q) pid (si_world st))\<rparr>
                  in if fst (Kill m (q_host_verify q) pid (si_world st)) = None
                     then remember_pending q (pending_of s q port pid) st' else st')"
          by (cases "Kill m (q_host_verify q) pid (si_world st)"; cases "fst (Kill m (q_host_verify q) pid (si_world st))")
             (simp_all add: run Inr pid frames pending_of_def Let_def split: process_error.split)
        ultimately show thesis using ran s(2) pid(2) by blast
      qed
    qed
  qed
qed

lemma remember_pending_world [simp]:
  "si_world (remember_pending q p st) = si_world st" "si_spawned (remember_pending q p st) = si_spawned st"
  by (auto simp: remember_pending_def split: option.split prod.split)

text \<open>Only a listener of the requested port is signalled, and only what was killed is remembered.\<close>


text \<open>What is killed from the dashboard can be restarted from it: the same argv in the same directory.\<close>

lemma completed_fields:
  "completed env r = Some r' \<Longrightarrow> r_Command r' = r_Command r \<and> r_Cwd r' = r_Cwd r \<and> r_Env r' = r_Env r \<and> r_Port r' = r_Port r"
  by (auto simp: completed_def Let_def split: if_splits option.splits)

text \<open>
  C7. What was killed from the dashboard can be restarted from it: the entry the kill remembered
  starts the same argv in the same directory, in a session of its own.
\<close>

theorem kill_then_restart:
  assumes kill: "handleKill s q pathPort r (w, st) = (w', st')"
    and m: "sv_process s = Some m" "m_store m"
    and tgt: "target s q pathPort port pid" "pid \<noteq> sv_selfPID s"
    and killed: "fst (Kill m (q_host_verify q) pid (si_world st)) = None"
    and snap: "sv_inspector s" "q_inspect q pid = Inr info" "PI_Command info \<noteq> []"
    and sto: "si_store st = Some sto" "retained (st_data sto)"
    and rem: "Remember (q_store_env q) (pending_entry port info) (sto, si_fs st) = ((sto', f'), None)"
      "completed (q_store_env q) (pending_entry port info) = Some e" "Remembered (st_data sto') \<noteq> []"
      "\<forall>x \<in> set (Remembered (st_data sto)). r_ID x \<noteq> r_ID e"
    and restart: "trim_space (r_ID e) = r_ID e" "r_ID e \<noteq> []"
      "open_r (q_spawn_env q')" "open_w (q_spawn_env q')" "start (q_spawn_env q') (restart_child e) = Inr child"
    and run: "handleRestart s q' (r_ID e) r' (new_writer, st') = (w'', st'')"
  shows "w_status w'' = 202 \<and> si_spawned st'' = si_spawned st' @ [OpenFd DevNullR, OpenFd DevNullW, Start (restart_child e)]
    \<and> c_Argv (restart_child e) = PI_Command info \<and> c_Dir (restart_child e) = PI_Cwd info \<and> c_Setsid (restart_child e)"
proof -
  have "effects st' = effects (remember_pending q (Some (pending_entry port info))
      (st\<lparr>si_world := snd (Kill m (q_host_verify q) pid (si_world st))\<rparr>))"
    using kill m(1) tgt killed snap
    by (cases "Kill m (q_host_verify q) pid (si_world st)")
       (auto simp: target_def handleKill_def handleKillMutation_def snapshot_of_def frames split: option.splits
             dest: arg_cong [of _ _ "effects \<circ> snd"])
  then have st': "si_store st' = Some sto'"
    using sto(1) rem(1) by (simp add: effects_def remember_pending_def)
  have "FindRemembered sto' (r_ID e) = Some e"
    using Remember_finds [OF rem(1,2) sto(2) rem(4)] rem(3) by blast
  moreover have "r_Command e \<noteq> []" using completed_fields [OF rem(2)] snap(3) by (simp add: pending_entry_def)
  ultimately have "Restart m (q_spawn_env q') sto' (r_ID e) =
      ([OpenFd DevNullR, OpenFd DevNullW, Start (restart_child e)], None)"
    using m(2) restart Restart_ok by blast
  then show ?thesis
    using run st' m(1) restart(1,2) completed_fields [OF rem(2)]
    by (auto simp: handleRestart_def Write_def WriteHeader_def new_writer_def restart_child_def pending_entry_def)
qed

section \<open>Login\<close>

lemma valid_b64_char: "n < 64 \<Longrightarrow> valid_cookie_byte (b64_char n) \<and> b64_char n \<noteq> CHR '' ''"
proof -
  assume n: "n < 64"
  have "b64_value CHR '' '' = None" by (simp add: b64_value_def Let_def)
  then have "b64_char n \<noteq> CHR '' ''" using b64_value_char [OF n] by auto
  then show ?thesis using n by (auto simp: b64_char_def valid_cookie_byte_def Let_def of_char_mod_256)
qed

lemma cookie_text_b64: "bs \<noteq> [] \<Longrightarrow> cookie_text (b64_encode bs)"
proof -
  assume "bs \<noteq> []"
  then have ne: "b64_sextets (map unat bs) \<noteq> []" by (cases "map unat bs" rule: b64_sextets.cases) auto
  have "\<forall>v \<in> set (b64_sextets (map unat bs)). v < 64"
    by (rule b64_sextets_bound) (auto intro: order_less_le_trans [OF unsigned_less])
  then have "list_all (\<lambda>c. valid_cookie_byte c \<and> c \<noteq> CHR '' '') (b64_encode bs)"
    by (auto simp: b64_encode_def list_all_iff valid_b64_char)
  moreover have "b64_encode bs \<noteq> []" using ne by (simp add: b64_encode_def)
  ultimately show ?thesis by (auto simp: cookie_text_def list_all_iff)
qed

lemma cookie_text_issued: "cookie_text (IssueCookie a t)"
  unfolding IssueCookie_def Let_def by (rule cookie_text_b64) (simp add: be64_def)

lemma cookies_redirect [simp]: "w_cookies (redirect r u w) = w_cookies w"
  by (simp add: redirect_def Let_def Write_def WriteHeader_def set_header_def)

text \<open>The cookie of a successful login, sent back by the browser, authenticates for 24 hours.\<close>

text \<open>
  C11. The cookie set by a successful login is http-only and, sent back by the browser,
  authenticates exactly from the second of its issue on for 24 hours.
\<close>

theorem login_authenticates:
  assumes "handleLoginPost s q r (w, st) = (w', st')" and "w_status w = 0"
    and "si_auth st = Some a" and "rq_form r = Some form" and "CheckBearer a (first_value (form ''token''))"
    and "0 \<le> q_issue_now q" and "q_issue_now q < 2 ^ 62"
    and "w_cookies w' = w_cookies w @ [c]"
    and "rq_header r2 ''Cookie'' = [''pm_session='' @ ck_value c]"
    and "\<not> has_prefix ''Bearer '' (header_get r2 ''Authorization'')"
  shows "ck_http_only c \<and> (authenticate q2 st' r2 = Some AuthKindCookie \<longleftrightarrow>
    stamp_time (q_issue_now q) \<le> q_verify_now q2 \<and> q_verify_now q2 < stamp_time (q_issue_now q) + 24 * Hour)"
proof -
  let ?a = "RateLimitRecordSuccess (remoteIP r (trustXFF s)) a"
  have c: "ck_value c = IssueCookie ?a (q_issue_now q)" "ck_http_only c" and st': "si_auth st' = Some ?a"
    using assms(1-5,8) by (auto simp: handleLoginPost_def Let_def add_cookie_def)
  have ct: "cookie_text (ck_value c)" unfolding c by (rule cookie_text_issued)
  then have "request_cookie r2 ''pm_session'' = Some (ck_value c)"
    using request_cookie_text [of "ck_value c" r2 0] assms(9) by simp
  moreover have "ck_value c \<noteq> []" using ct by (simp add: cookie_text_def)
  ultimately have "authenticate q2 st' r2 = Some AuthKindCookie \<longleftrightarrow> VerifyCookie ?a (q_verify_now q2) (ck_value c)"
    using st' assms(10) by (simp add: authenticate_def)
  also have "\<dots> \<longleftrightarrow> stamp_time (q_issue_now q) \<le> q_verify_now q2 \<and> q_verify_now q2 < stamp_time (q_issue_now q) + 24 * Hour"
    unfolding c by (rule issued_cookie_valid [OF assms(6,7)])
  finally show ?thesis using c(2) by blast
qed

section \<open>Guessing the token over HTTP\<close>

text \<open>A series of login requests served one after the other: the site, and the attempts whose token was looked at.\<close>

definition login_step :: "server \<Rightarrow> request_env \<times> request \<Rightarrow> site \<times> (ip \<times> gotime) list \<Rightarrow> site \<times> (ip \<times> gotime) list" where
  "login_step s = (\<lambda>(q, r) (st, looked).
    let (w, st') = serve s q [] [''login''] r st
    in (st', if w_status w = 429 then looked else looked @ [(remoteIP r (trustXFF s), q_check_now q)]))"

definition login_run :: "server \<Rightarrow> (request_env \<times> request) list \<Rightarrow> site \<Rightarrow> site \<times> (ip \<times> gotime) list" where
  "login_run s qrs st = fold (login_step s) qrs (st, [])"

definition guess :: "(failure_map \<Rightarrow> failure_map) \<Rightarrow> config \<Rightarrow> request_env \<times> request \<Rightarrow> bool" where
  "guess iter cfg = (\<lambda>(q, r). rq_method r = ''POST'' \<and> q_sweep q = iter \<and> q_fail_now q = q_check_now q
     \<and> (case rq_form r of None \<Rightarrow> False | Some form \<Rightarrow> \<not> CheckBearer (newAuth cfg) (first_value (form ''token''))))"

lemma CheckBearer_token: "au_token a = au_token b \<Longrightarrow> CheckBearer a t = CheckBearer b t"
  by (simp add: CheckBearer_def)

lemma limiter_token [simp]:
  "au_token (snd (RateLimitCheck ip t a)) = au_token a" "au_token (RateLimitRecordFailure iter ip t a) = au_token a"
  by (simp_all add: RateLimitCheck_def RateLimitRecordFailure_def Let_def case_prod_beta)

lemma route_login: "route_of ''POST'' [''login''] = RLoginPost"
  by (simp add: route_of_def)

lemma login_step_guess:
  assumes "si_auth st = Some a" and "au_token a = au_token (newAuth cfg)" and "guess iter cfg (q, r)"
    and "guess_step RateLimitCheck (RateLimitRecordFailure iter) (remoteIP r (trustXFF s), q_check_now q) (a, looked) = (a', looked')"
  shows "\<exists>st'. login_step s (q, r) (st, looked) = (st', looked') \<and> si_auth st' = Some a' \<and> au_token a' = au_token (newAuth cfg)"
proof -
  let ?ip = "remoteIP r (trustXFF s)"
  obtain allowed wait a1 where chk: "RateLimitCheck ?ip (q_check_now q) a = ((allowed, wait), a1)" by (metis prod.exhaust)
  have tok: "au_token a1 = au_token (newAuth cfg)" using limiter_token(1) [of ?ip "q_check_now q" a] chk assms(2) by simp
  obtain form where form: "rq_form r = Some form" "\<not> CheckBearer (newAuth cfg) (first_value (form ''token''))"
    using assms(3) by (auto simp: guess_def split: option.splits)
  then have bad: "\<not> CheckBearer a1 (first_value (form ''token''))" using CheckBearer_token [OF tok] by simp
  have r: "rq_method r = ''POST''" "q_sweep q = iter" "q_fail_now q = q_check_now q"
    using assms(3) by (auto simp: guess_def)
  show ?thesis
    using assms(1,4) chk form(1) bad r tok
    by (cases allowed)
       (auto simp: login_step_def serve_eq r route_login dispatch_def withRateLimit_def handleLoginPost_def guess_step_def
             Let_def Write_def WriteHeader_def)
qed

lemma login_run_guesses:
  "list_all (guess iter cfg) qrs \<Longrightarrow> si_auth st = Some a \<Longrightarrow> au_token a = au_token (newAuth cfg) \<Longrightarrow>
   \<exists>st'. fold (login_step s) qrs (st, looked) = (st', snd (fold (guess_step RateLimitCheck (RateLimitRecordFailure iter))
     (map (\<lambda>(q, r). (remoteIP r (trustXFF s), q_check_now q)) qrs) (a, looked)))"
proof (induction qrs arbitrary: st a looked)
  case (Cons qr qrs)
  obtain q r where qr: "qr = (q, r)" by (cases qr)
  obtain a' looked' where g: "guess_step RateLimitCheck (RateLimitRecordFailure iter)
      (remoteIP r (trustXFF s), q_check_now q) (a, looked) = (a', looked')" by (metis prod.exhaust)
  obtain st' where st': "login_step s qr (st, looked) = (st', looked')" "si_auth st' = Some a'" "au_token a' = au_token (newAuth cfg)"
    using login_step_guess [OF Cons.prems(2,3) _ g] Cons.prems(1) qr by auto
  have "list_all (guess iter cfg) qrs" using Cons.prems(1) by simp
  from Cons.IH [OF this st'(2,3), of looked'] show ?case using st'(1) g qr by simp
qed simp


text \<open>
  The check and the record are two critical sections. Requests that all pass the check before any of
  them records its failure are all admitted.
\<close>

datatype login_action = Checks nat | Fails nat

fun login_event :: "(failure_map \<Rightarrow> failure_map) \<Rightarrow> ip \<Rightarrow> gotime \<Rightarrow> login_action \<Rightarrow> auth \<times> nat list \<Rightarrow> auth \<times> nat list" where
  "login_event iter ip t (Checks i) (a, admitted) =
    (let ((allowed, _), a') = RateLimitCheck ip t a in (a', if allowed then admitted @ [i] else admitted))"
| "login_event iter ip t (Fails i) (a, admitted) =
    (if i \<in> set admitted then RateLimitRecordFailure iter ip t a else a, admitted)"

lemma checks_before_fails:
  "RateLimitCheck ip t a = ((True, 0), a) \<Longrightarrow>
   fold (login_event iter ip t) (map Checks is) (a, admitted) = (a, admitted @ is)"
  by (induction "is" arbitrary: admitted) simp_all

lemma fails_keep_admitted: "snd (fold (login_event iter ip t) (map Fails is) x) = snd x"
  by (induction "is" arbitrary: x) (auto simp: case_prod_beta)


section \<open>Concrete requests\<close>

definition sample_info :: procinfo where
  "sample_info = \<lparr>PI_PID = 12, PI_Command = [''app'', ''-p''], PI_Cwd = ''/srv'', PI_StartTime = 0, PI_UID = 501,
     PI_Env = [''A=1'']\<rparr>"

definition sample_server :: server where
  "sample_server = \<lparr>sv_cfg = Some sample_config, sv_scanner = Some (\<lambda>h. lsof_Scan sample_config 7 (h_lsof h)),
     sv_inspector = True, sv_process = Some sample_manager, sv_user = ''u'', sv_selfPID = 7\<rparr>"

definition sample_site :: site where
  "sample_site = \<lparr>si_auth = Some (newAuth sample_config), si_store = Some StoreFacts.sample_store, si_fs = empty_fs,
     si_snapshot = ([], 0), si_world = sample_world, si_spawned = [], si_log = []\<rparr>"

definition sample_q :: request_env where
  "sample_q = \<lparr>q_verify_now = 0, q_check_now = 0, q_fail_now = 0, q_issue_now = 0, q_expire_now = 0, q_rows_now = 0,
     q_snap_now = 0, q_sweep = rev, q_host_resolve = sample_host, q_host_verify = sample_host, q_host_rows = sample_host,
     q_inspect = (\<lambda>_. Inr sample_info), q_inspect_rows = (\<lambda>_. Inr sample_info), q_schedule = sample_schedule,
     q_ctx_rows = None, q_store_env = sample_env, q_spawn_env = sample_spawn, q_render = (\<lambda>_. Some ''page''),
     q_json = (\<lambda>_. ''[]''), q_scan_text = (\<lambda>_. []), q_process_text = (\<lambda>_. []), q_store_text = (\<lambda>_. []),
     q_static = (\<lambda>_ w. w)\<rparr>"

text \<open>A request with the token in its \<open>Authorization\<close> header, and the store with one entry to restart.\<close>

definition bearer_request :: request where
  "bearer_request = sample_request\<lparr>rq_method := ''POST'',
     rq_header := (\<lambda>k. if k = ''Authorization'' then [''Bearer 0123456789abcdef''] else [])\<rparr>"

lemma bearer_authenticates: "authenticate sample_q (sample_site\<lparr>si_store := so\<rparr>) bearer_request = Some AuthKindBearer"
proof -
  have "trim_space ''0123456789abcdef'' = ''0123456789abcdef''" by code_simp
  then show ?thesis
    by (simp add: authenticate_def sample_site_def header_get_def first_value_def bearer_request_def has_prefix_def
        CheckBearer_def ct_compare_eq [unfolded One_nat_def] newAuth_def sample_config_def MinTokenBytes_def)
qed

definition restart_site :: site where
  "restart_site = sample_site\<lparr>si_store := Some one_entry_store\<rparr>"

lemma sample_restart:
  "handleRestart sample_server sample_q ''01A'' r (w, restart_site) =
    (Write ''restart dispatched'' (WriteHeader 202 w),
     restart_site\<lparr>si_spawned := [OpenFd DevNullR, OpenFd DevNullW, Start (restart_child sample_remembered)]\<rparr>)"
proof -
  have "trim_space ''01A'' = ''01A''" by code_simp
  moreover have "Restart sample_manager sample_spawn one_entry_store ''01A'' =
      ([OpenFd DevNullR, OpenFd DevNullW, Start (restart_child sample_remembered)], None)"
    by (simp add: Restart_ok)
       (simp add: sample_manager_def FindRemembered_def one_entry_store_def sample_remembered_def sample_spawn_def)
  ultimately show ?thesis
    by (simp add: handleRestart_def sample_server_def sample_q_def restart_site_def sample_site_def)
qed

lemma changes_are_authorized_witness:
  "rq_method bearer_request = ''POST'' \<and> mutation (route_of (rq_method bearer_request) [''restart'', ''01A''])
    \<and> authorized sample_q restart_site bearer_request"
proof (rule changes_are_authorized [of sample_server _ "[]"])
  have post: "route_of ''POST'' [''restart'', ''01A''] = RRestart ''01A''" by (simp add: route_of_def)
  have m: "rq_method bearer_request = ''POST''" by (simp add: bearer_request_def)
  show "effects (snd (serve sample_server sample_q [] [''restart'', ''01A''] bearer_request restart_site)) \<noteq> effects restart_site"
    using bearer_authenticates [of "Some one_entry_store"]
    by (simp add: serve_eq m post dispatch_def requireAuth_def withCSRF_def sample_restart flip: restart_site_def)
       (simp add: restart_site_def effects_def sample_site_def)
qed

lemma unauthenticated_refused_witness:
  "\<exists>w st' line. serve sample_server sample_q ''i'' [''kill'', ''40123''] (sample_request\<lparr>rq_method := ''POST''\<rparr>) sample_site = (w, st')
    \<and> w_status w = 401 \<and> st' = sample_site\<lparr>si_log := [line]\<rparr>"
proof -
  let ?r = "sample_request\<lparr>rq_method := ''POST''\<rparr>"
  obtain w st' where s: "serve sample_server sample_q ''i'' [''kill'', ''40123''] ?r sample_site = (w, st')" by fastforce
  have rt: "route_of ''POST'' [''kill'', ''40123''] = RKill ''40123''" by (simp add: route_of_def)
  have "authenticate sample_q sample_site ?r = None"
    by (simp add: authenticate_def header_get_def first_value_def request_cookie_def sample_request_def has_prefix_def
        List.map_filter_def split: option.split)
  from unauthenticated_refused [OF this _ s]
  have "w_status w = 401 \<and> (\<exists>line. st' = sample_site\<lparr>si_log := si_log sample_site @ [line]\<rparr>)"
    by (simp add: rt public_def)
  moreover have "si_log sample_site = []" by (simp add: sample_site_def)
  ultimately show ?thesis using s by simp
qed

lemma sample_resolve: "resolvePIDForPort (\<lambda>h. lsof_Scan sample_config 7 (h_lsof h)) sample_host 40123 = Inr (Some 12)"
  by code_simp

lemma sample_target: "target sample_server sample_q ''40123'' 40123 12"
proof -
  have "atoi ''40123'' = Some 40123" by code_simp
  moreover have "portInRange sample_server 40123" by (simp add: portInRange_def sample_server_def sample_config_def)
  ultimately show ?thesis using sample_resolve by (simp add: target_def sample_server_def sample_q_def)
qed

lemma sample_q_simps [simp]:
  "q_host_verify sample_q = sample_host" "q_inspect sample_q pid = Inr sample_info" "q_store_env sample_q = sample_env"
  "q_spawn_env sample_q = sample_spawn" "si_world sample_site = sample_world" "si_store sample_site = Some StoreFacts.sample_store"
  "si_fs sample_site = empty_fs" "sv_process sample_server = Some sample_manager" "sv_selfPID sample_server = 7"
  "sv_inspector sample_server"
  by (simp_all add: sample_q_def sample_site_def sample_server_def)

lemma sample_handleKill:
  "effects (snd (handleKill sample_server sample_q ''40123'' r (new_writer, sample_site))) =
    effects (remember_pending sample_q (Some (pending_entry 40123 sample_info)) (sample_site\<lparr>si_world := termed_world\<rparr>))"
  using sample_target sample_kill
  by (auto simp: target_def handleKill_def handleKillMutation_def snapshot_of_def frames split: option.splits)


definition killed_entry :: remembered where
  "killed_entry = the (completed sample_env (pending_entry 40123 sample_info))"

lemma killed_entry_completed: "completed sample_env (pending_entry 40123 sample_info) = Some killed_entry"
  by (simp add: killed_entry_def completed_def Let_def sample_env_def newULID_string)

lemma killed_entry_id: "trim_space (r_ID killed_entry) = r_ID killed_entry \<and> r_ID killed_entry \<noteq> []"
proof -
  have "r_ID killed_entry = ulid_string (ulid_raw 5 (replicate 10 7))"
    by (simp add: killed_entry_def completed_def Let_def sample_env_def newULID_string pending_entry_def is_zero_def)
  moreover have "trim_space (ulid_string (ulid_raw 5 (replicate 10 7))) = ulid_string (ulid_raw 5 (replicate 10 7))
      \<and> ulid_string (ulid_raw 5 (replicate 10 7)) \<noteq> []" by code_simp
  ultimately show ?thesis by simp
qed

lemma killed_entry_kept: "kept_with killed_entry [] = [killed_entry]"
  by (simp add: kept_with_def evictPerKeyLocked_def evictGlobalLocked_def retention)

lemma sample_remember:
  "\<exists>f'. Remember sample_env (pending_entry 40123 sample_info) (StoreFacts.sample_store, empty_fs) =
    ((remembering killed_entry StoreFacts.sample_store, f'), None)"
  by (simp add: Remember_run killed_entry_completed sample_persist)

lemma kill_then_restart_witness:
  "\<exists>w' st' w'' st''. handleKill sample_server sample_q ''40123'' bearer_request (new_writer, sample_site) = (w', st')
    \<and> handleRestart sample_server sample_q (r_ID killed_entry) bearer_request (new_writer, st') = (w'', st'')
    \<and> w_status w'' = 202 \<and> c_Argv (restart_child killed_entry) = [''app'', ''-p'']"
proof -
  obtain w' st' where k: "handleKill sample_server sample_q ''40123'' bearer_request (new_writer, sample_site) = (w', st')"
    by fastforce
  obtain w'' st'' where r: "handleRestart sample_server sample_q (r_ID killed_entry) bearer_request (new_writer, st') = (w'', st'')"
    by fastforce
  obtain f' where f': "Remember sample_env (pending_entry 40123 sample_info) (StoreFacts.sample_store, empty_fs) =
      ((remembering killed_entry StoreFacts.sample_store, f'), None)" using sample_remember by blast
  have "w_status w'' = 202 \<and> si_spawned st'' = si_spawned st' @ [OpenFd DevNullR, OpenFd DevNullW, Start (restart_child killed_entry)]
    \<and> c_Argv (restart_child killed_entry) = PI_Command sample_info \<and> c_Dir (restart_child killed_entry) = PI_Cwd sample_info
    \<and> c_Setsid (restart_child killed_entry)"
  proof (rule kill_then_restart [where m = sample_manager, OF k _ _ sample_target _ _ _ _ _ _ sample_retained _ _ _ _ _ _ _ _ _ r])
    show "Remember (q_store_env sample_q) (pending_entry 40123 sample_info) (StoreFacts.sample_store, si_fs sample_site) =
      ((remembering killed_entry StoreFacts.sample_store, f'), None)" using f' by simp
    show "completed (q_store_env sample_q) (pending_entry 40123 sample_info) = Some killed_entry"
      by (simp add: killed_entry_completed)
    show "Remembered (st_data (remembering killed_entry StoreFacts.sample_store)) \<noteq> []"
      by (simp add: remembering_def StoreFacts.sample_store_def killed_entry_kept)
    show "start (q_spawn_env sample_q) (restart_child killed_entry) = Inr 4711" by (simp add: sample_spawn_def)
  qed (simp_all add: killed_entry_id sample_kill sample_info_def StoreFacts.sample_store_def sample_spawn_def,
       simp add: sample_manager_def)
  then show ?thesis using k r by (auto simp: sample_info_def)
qed

text \<open>A browser that logs in and comes back with the cookie.\<close>

definition login_request :: request where
  "login_request = sample_request\<lparr>rq_method := ''POST'',
     rq_form := Some (\<lambda>k. if k = ''token'' then [''0123456789abcdef''] else [])\<rparr>"

lemma login_authenticates_witness:
  "\<exists>c w' st'. handleLoginPost sample_server sample_q login_request (new_writer, sample_site) = (w', st')
    \<and> w_cookies w' = [c] \<and> ck_http_only c
    \<and> authenticate sample_q st' (sample_request\<lparr>rq_header := (\<lambda>k. if k = ''Cookie'' then [''pm_session='' @ ck_value c] else [])\<rparr>)
        = Some AuthKindCookie"
proof -
  obtain w' st' where l: "handleLoginPost sample_server sample_q login_request (new_writer, sample_site) = (w', st')"
    by fastforce
  have good: "CheckBearer (newAuth sample_config) ''0123456789abcdef''"
    by (simp add: CheckBearer_def ct_compare_eq [unfolded One_nat_def] newAuth_def sample_config_def MinTokenBytes_def)
  obtain c where c: "w_cookies w' = [c]"
    using l good by (auto simp: handleLoginPost_def sample_site_def login_request_def first_value_def Let_def
        add_cookie_def new_writer_def)
  let ?r2 = "sample_request\<lparr>rq_header := (\<lambda>k. if k = ''Cookie'' then [''pm_session='' @ ck_value c] else [])\<rparr>"
  have a: "si_auth sample_site = Some (newAuth sample_config)" by (simp add: sample_site_def)
  have form: "rq_form login_request = Some (\<lambda>k. if k = ''token'' then [''0123456789abcdef''] else [])"
    by (simp add: login_request_def)
  have "ck_http_only c \<and> (authenticate sample_q st' ?r2 = Some AuthKindCookie \<longleftrightarrow>
      stamp_time (q_issue_now sample_q) \<le> q_verify_now sample_q \<and> q_verify_now sample_q < stamp_time (q_issue_now sample_q) + 24 * Hour)"
  proof (rule login_authenticates [OF l _ a form])
    show "CheckBearer (newAuth sample_config) (first_value (if ''token'' = ''token'' then [''0123456789abcdef''] else []))"
      using good by (simp add: first_value_def)
    show "w_cookies w' = w_cookies new_writer @ [c]" using c by (simp add: new_writer_def)
    show "rq_header ?r2 ''Cookie'' = [''pm_session='' @ ck_value c]" by simp
    show "\<not> has_prefix ''Bearer '' (header_get ?r2 ''Authorization'')"
      by (simp add: header_get_def first_value_def has_prefix_def)
  qed (simp_all add: sample_q_def)
  then show ?thesis using l c by (auto simp: sample_q_def stamp_time_def time_units)
qed

definition guess_request :: request where
  "guess_request = sample_request\<lparr>rq_method := ''POST'', rq_form := Some (\<lambda>_. [''x''])\<rparr>"


end
