(* ===== verification/ServerOutput.thy ===== *)
theory ServerOutput
  imports ServerFacts
begin

text \<open>
  What a response and the log of \<^verbatim>\<open>internal/server\<close> say: the rows of the port table and their
  fallback, \<open>Retry-After\<close>, the status of a panic, and no credentials.
\<close>

section \<open>The request log\<close>

definition with_credentials :: "request \<Rightarrow> string \<Rightarrow> string \<Rightarrow> string list \<Rightarrow> nat \<Rightarrow> string \<Rightarrow> string \<Rightarrow> string list \<Rightarrow> request" where
  "with_credentials r scheme token pre n name v post = r\<lparr>rq_header := (rq_header r)
     (''Authorization'' := [scheme @ '' '' @ token], ''Cookie'' := [session_header pre n name v post])\<rparr>"



section \<open>The port table\<close>

lemma rows_fresh:
  "buildSnapshot s q st = (rows, None) \<Longrightarrow>
   rows_or_cached s q (w, st) = (rows, (w, st\<lparr>si_snapshot := (rows, q_snap_now q)\<rparr>))"
  by (simp add: rows_or_cached_def)

lemma rows_stale:
  "buildSnapshot s q st = (rows, Some e) \<Longrightarrow>
   rows_or_cached s q (w, st) = (fst (si_snapshot st),
     (set_header ''X-Scan-Error'' (if is_deadline e then ''timeout'' else ''error'') w, st))"
  by (simp add: rows_or_cached_def)

text \<open>After a scan that failed, the table shows the rows of the last one that did not, and says so in a header.\<close>


definition failing_server :: server where
  "failing_server = sample_server\<lparr>sv_scanner := Some (\<lambda>h. if h_darwin h then Inl (ErrCtx DeadlineExceeded) else Inr [])\<rparr>"

definition failing_q :: request_env where
  "failing_q = sample_q\<lparr>q_host_rows := sample_host\<lparr>h_darwin := True\<rparr>\<rparr>"


section \<open>Port guard\<close>

text \<open>A port that is not a number of the configured range is refused before the components are looked at.\<close>

theorem port_guard:
  assumes "case atoi pathPort of None \<Rightarrow> True | Some port \<Rightarrow> \<not> portInRange s port"
    and "w_status w = 0"
  shows "w_status (fst (handleKill s q pathPort r (w, st))) = 400 \<and> snd (handleKill s q pathPort r (w, st)) = st
    \<and> w_status (fst (handleRename s q pathPort r (w, st))) = 400 \<and> snd (handleRename s q pathPort r (w, st)) = st"
  using assms by (cases "atoi pathPort") (simp_all add: handleKill_def handleRename_def)

lemma port_guard_witness:
  "w_status (fst (handleKill sample_server sample_q ''22'' bearer_request (new_writer, sample_site))) = 400"
proof -
  have "atoi ''22'' = Some 22" by code_simp
  then show ?thesis
    using port_guard [where pathPort = "''22''" and s = sample_server and w = new_writer]
    by (simp add: portInRange_def sample_server_def sample_config_def)
qed

section \<open>Retry-After\<close>

text \<open>The header is rounded down: a client that waits as long as it says is refused once more.\<close>

theorem retry_after_too_short:
  assumes "limiter_ok now a" and "RateLimitCheck ip now a = ((False, wait), a')"
    and "length (recent_failures a ip now) = 5"
    and "wait mod Second \<noteq> 0" and "Second < wait"
    and "si_auth st = Some a" and "q_check_now q = now" and "remoteIP r (trustXFF s) = ip" and "w_status w = 0"
    and "withRateLimit s q next r (w, st) = (w', st')"
  shows "w_status w' = 429 \<and> gm_get (w_header w') ''Retry-After'' = Some (itoa (wait div Second))
    \<and> \<not> fst (fst (RateLimitCheck ip (now + wait div Second * Second) a'))"
proof -
  have bounds: "0 < wait" "wait \<le> RateLimitWindow"
    using refused_until [OF assms(1-3), of now] by simp_all
  then have secs: "int_seconds wait = wait div Second"
    by (intro int_seconds_exact) (simp_all add: time_units)
  moreover have "1 \<le> wait div Second" using assms(5) by (simp add: time_units)
  ultimately have "w_status w' = 429 \<and> gm_get (w_header w') ''Retry-After'' = Some (itoa (wait div Second))"
    using assms(2,6-10)
    by (auto simp: withRateLimit_def http_error_def Write_def WriteHeader_def set_header_def update_conv')
  moreover have "wait div Second * Second < wait"
    using assms(4) by (simp add: time_units minus_mod_eq_div_mult [symmetric] order_le_neq_trans)
  then have "\<not> fst (fst (RateLimitCheck ip (now + wait div Second * Second) a'))"
    using refused_until [OF assms(1-3), of "now + wait div Second * Second"] bounds(1)
    by (simp add: time_units pos_imp_zdiv_nonneg_iff)
  ultimately show ?thesis by blast
qed

definition refused_request :: request where
  "refused_request = sample_request\<lparr>rq_remote := ''10.0.0.7:80''\<rparr>"

lemma retry_after_too_short_witness:
  "\<exists>w' st'. withRateLimit sample_server (sample_q\<lparr>q_check_now := 4\<rparr>) (\<lambda>_ x. x) refused_request
      (new_writer, sample_site\<lparr>si_auth := Some five_failures\<rparr>) = (w', st')
    \<and> w_status w' = 429 \<and> gm_get (w_header w') ''Retry-After'' = Some (itoa ((15 * Minute - 4) div Second))
    \<and> \<not> fst (fst (RateLimitCheck ''10.0.0.7'' (4 + (15 * Minute - 4) div Second * Second) five_failures))"
proof -
  obtain w' st' where w: "withRateLimit sample_server (sample_q\<lparr>q_check_now := 4\<rparr>) (\<lambda>_ x. x) refused_request
      (new_writer, sample_site\<lparr>si_auth := Some five_failures\<rparr>) = (w', st')" by fastforce
  have "remoteAddr refused_request = ''10.0.0.7''"
    by (simp add: remoteAddr_def refused_request_def split_host_port_def)
  then have "remoteIP refused_request (trustXFF sample_server) = ''10.0.0.7''"
    by (simp add: remoteIP_def trustXFF_def sample_server_def sample_config_def)
  from retry_after_too_short [OF five_failures_ok five_failures_refused five_failures_recent _ _ _ _ this _ w]
  show ?thesis using w by (simp add: time_units)
qed

section \<open>Panics\<close>

text \<open>A panic after the status was sent: the client keeps that status, the log records 500.\<close>

theorem panic_status:
  "next r x = (Some p, (w, st)) \<Longrightarrow>
   w_status (fst (recoverMiddleware next r x)) = (if w_status w = 0 then 500 else w_status w)
   \<and> rec_status (fst (recoverMiddleware next r x)) = 500 \<and> snd (recoverMiddleware next r x) = st"
  by (simp add: recoverMiddleware_def http_error_def Write_def WriteHeader_def set_header_def)

lemma panic_status_witness:
  "w_status (fst (recoverMiddleware (\<lambda>r (w, st). (Some ''boom'', (Write ''x'' w, st))) sample_request (new_writer, sample_site))) = 200
   \<and> rec_status (fst (recoverMiddleware (\<lambda>r (w, st). (Some ''boom'', (Write ''x'' w, st))) sample_request (new_writer, sample_site))) = 500"
  using panic_status [of "\<lambda>r (w, st). (Some ''boom'', (Write ''x'' w, st))" sample_request "(new_writer, sample_site)" "''boom''" "Write ''x'' new_writer" sample_site]
  by (simp add: Write_def)

end
