(* ===== verification/TestSupport.thy ===== *)
theory TestSupport
  imports ServerOutput
begin

text \<open>
  \<^verbatim>\<open>internal/server/testhelpers.go\<close>: the shareable URL of a port, the requests with credentials,
  and the redirection of the package logger.
\<close>

section \<open>URLs and requests\<close>

definition PublicURL :: "config option \<Rightarrow> int \<Rightarrow> string" where
  "PublicURL cfg port =
    (case cfg of
       None \<Rightarrow> []
     | Some c \<Rightarrow> ''http://'' @ PublicHost c @ '':'' @ itoa port @ ''/'')"

text \<open>The argument is what \<open>http.NewRequest\<close> made of the method and the URL, if it accepted them.\<close>

definition NewBearerRequest :: "request option \<Rightarrow> string \<Rightarrow> request option" where
  "NewBearerRequest req token =
    (case req of
       None \<Rightarrow> None
     | Some r \<Rightarrow> Some (r\<lparr>rq_header := (rq_header r)(''Authorization'' := [''Bearer '' @ token])\<rparr>))"

definition NewCookieRequest :: "request option \<Rightarrow> string \<Rightarrow> request option" where
  "NewCookieRequest req cookieValue =
    (case req of
       None \<Rightarrow> None
     | Some r \<Rightarrow> Some (r\<lparr>rq_header := (rq_header r)(''Cookie'' := [''pm_session='' @ cookieValue])\<rparr>))"

section \<open>The sink of the package logger\<close>

datatype sink = Stderr | Buffer nat

record log_state =
  ls_sink :: sink
  ls_written :: "sink \<Rightarrow> string"

text \<open>The handler holds the proxy; the sink is looked up at each write.\<close>

definition sink_write :: "string \<Rightarrow> log_state \<Rightarrow> log_state" where
  "sink_write p st = st\<lparr>ls_written := (ls_written st)(ls_sink st := ls_written st (ls_sink st) @ p)\<rparr>"

definition swapLogSink :: "sink \<Rightarrow> log_state \<Rightarrow> sink \<times> log_state" where
  "swapLogSink w st = (ls_sink st, st\<lparr>ls_sink := w\<rparr>)"

text \<open>The buffer is a fresh, empty one: \<open>buf\<close> names it.\<close>

definition CaptureLogs :: "nat \<Rightarrow> (log_state \<Rightarrow> log_state) \<Rightarrow> log_state \<Rightarrow> string \<times> log_state" where
  "CaptureLogs buf fn st =
    (let (prev, st) = swapLogSink (Buffer buf) st;
         st = fn st;
         captured = ls_written st (Buffer buf);
         (_, st) = swapLogSink prev st
     in (captured, st))"

section \<open>Properties\<close>

text \<open>A function that only logs is captured completely, and leaves the sink and all other output as they were.\<close>

lemma sink_writes:
  "ls_sink (fold sink_write ps st) = ls_sink st
   \<and> ls_written (fold sink_write ps st) = (ls_written st)(ls_sink st := ls_written st (ls_sink st) @ concat ps)"
  by (induction ps arbitrary: st) (simp_all add: sink_write_def)

theorem captured_exactly:
  assumes "ls_written st (Buffer buf) = []" and "ls_sink st \<noteq> Buffer buf"
  shows "case CaptureLogs buf (fold sink_write ps) st of
    (captured, st') \<Rightarrow> captured = concat ps \<and> ls_sink st' = ls_sink st \<and> ls_written st' (ls_sink st) = ls_written st (ls_sink st)"
  using assms by (simp add: CaptureLogs_def swapLogSink_def sink_writes)

lemma captured_exactly_witness:
  "case CaptureLogs 0 (fold sink_write [''a'', ''b'']) \<lparr>ls_sink = Stderr, ls_written = (\<lambda>_. [])\<rparr> of
    (captured, st') \<Rightarrow> captured = ''ab'' \<and> ls_sink st' = Stderr \<and> ls_written st' Stderr = []"
  using captured_exactly [of "\<lparr>ls_sink = Stderr, ls_written = (\<lambda>_. [])\<rparr>" 0 "[''a'', ''b'']"] by simp

text \<open>
  The requests of the helpers carry the credentials: the bearer request authenticates as long as
  the token is accepted, the cookie request as long as the cookie lives.
\<close>

theorem helper_requests_authenticate:
  assumes "si_auth st = Some a" and "\<not> has_prefix ''Bearer '' (header_get r ''Authorization'')"
    and "0 \<le> issued" and "issued < 2 ^ 62"
  shows "(\<exists>b. NewBearerRequest (Some r) token = Some b
      \<and> (authenticate q st b = Some AuthKindBearer \<longleftrightarrow> CheckBearer a (trim_space token)))
    \<and> (\<exists>c. NewCookieRequest (Some r) (IssueCookie a issued) = Some c
      \<and> (authenticate q st c = Some AuthKindCookie \<longleftrightarrow>
           stamp_time issued \<le> q_verify_now q \<and> q_verify_now q < stamp_time issued + 24 * Hour))"
proof -
  let ?b = "r\<lparr>rq_header := (rq_header r)(''Authorization'' := [''Bearer '' @ token])\<rparr>"
  let ?c = "r\<lparr>rq_header := (rq_header r)(''Cookie'' := [''pm_session='' @ IssueCookie a issued])\<rparr>"
  have "authenticate q st ?b = Some AuthKindBearer \<longleftrightarrow> CheckBearer a (trim_space token)"
    using assms(1) by (simp add: authenticate_def header_get_def first_value_def has_prefix_def)
  moreover have "authenticate q st ?c = Some AuthKindCookie \<longleftrightarrow> VerifyCookie a (q_verify_now q) (IssueCookie a issued)"
  proof -
    have "request_cookie ?c ''pm_session'' = Some (IssueCookie a issued)"
      using request_cookie_text [OF cookie_text_issued, where r = ?c and n = 0] by simp
    moreover have "IssueCookie a issued \<noteq> []" using cookie_text_issued [of a issued] by (simp add: cookie_text_def)
    moreover have "header_get ?c ''Authorization'' = header_get r ''Authorization''" by (simp add: header_get_def)
    ultimately show ?thesis using assms(1,2) by (simp add: authenticate_def)
  qed
  ultimately show ?thesis
    using issued_cookie_valid [OF assms(3,4)] by (simp add: NewBearerRequest_def NewCookieRequest_def)
qed

lemma helper_requests_authenticate_witness:
  "(\<exists>b. NewBearerRequest (Some sample_request) ''0123456789abcdef'' = Some b
      \<and> (authenticate sample_q sample_site b = Some AuthKindBearer \<longleftrightarrow>
           CheckBearer (newAuth sample_config) (trim_space ''0123456789abcdef'')))
    \<and> (\<exists>c. NewCookieRequest (Some sample_request) (IssueCookie (newAuth sample_config) 0) = Some c
      \<and> (authenticate sample_q sample_site c = Some AuthKindCookie \<longleftrightarrow>
           stamp_time 0 \<le> q_verify_now sample_q \<and> q_verify_now sample_q < stamp_time 0 + 24 * Hour))"
  by (rule helper_requests_authenticate)
     (simp_all add: sample_site_def sample_request_def header_get_def first_value_def has_prefix_def)

end
