(* ===== verification/Command.thy ===== *)
theory Command
  imports Server Config
begin

text \<open>
  \<^verbatim>\<open>cmd/port-manager/main.go\<close> and \<^verbatim>\<open>server.New\<close>: the flags, the directory of the store, and the
  wiring of the components in the order of \<open>run\<close>.
\<close>

section \<open>Flags\<close>

text \<open>
  The flags in the order given, as the \<^verbatim>\<open>flag\<close> package hands them to the variables bound by
  \<open>BindFlags\<close>; only \<open>port\<close> is parsed by the program itself.
\<close>

datatype flag =
    EnvFileFlag string | PublicHostFlag string | PortFlag string | KillGraceFlag int | ScannerFlag string
  | StateDirFlag string | TrustXFFFlag bool | VersionFlag bool

fun BindFlags :: "flag \<Rightarrow> options \<times> bool \<Rightarrow> (options \<times> bool) option" where
  "BindFlags (EnvFileFlag v) (opts, ver) = Some (opts\<lparr>o_EnvFile := v\<rparr>, ver)"
| "BindFlags (PublicHostFlag v) (opts, ver) = Some (opts\<lparr>o_PublicHost := v\<rparr>, ver)"
| "BindFlags (PortFlag v) (opts, ver) = map_option (\<lambda>n. (opts\<lparr>o_Port := Some n\<rparr>, ver)) (atoi v)"
| "BindFlags (KillGraceFlag n) (opts, ver) = Some (opts\<lparr>o_KillGraceMS := n\<rparr>, ver)"
| "BindFlags (ScannerFlag v) (opts, ver) = Some (opts\<lparr>o_Scanner := v\<rparr>, ver)"
| "BindFlags (StateDirFlag v) (opts, ver) = Some (opts\<lparr>o_StateDir := v\<rparr>, ver)"
| "BindFlags (TrustXFFFlag b) (opts, ver) = Some (opts\<lparr>o_TrustXFF := b\<rparr>, ver)"
| "BindFlags (VersionFlag b) (opts, ver) = Some (opts, b)"

definition zero_options :: options where
  "zero_options = \<lparr>o_EnvFile = [], o_AuthToken = [], o_SessionSecret = [], o_PublicHost = [], o_Port = None,
     o_PortMin = 0, o_PortMax = 0, o_KillGraceMS = 0, o_Scanner = [], o_StateDir = [], o_TrustXFF = False\<rparr>"

definition parse_flags :: "flag list option \<Rightarrow> (options \<times> bool) option" where
  "parse_flags args =
    (case args of
       None \<Rightarrow> None
     | Some fs \<Rightarrow> fold (\<lambda>f acc. Option.bind acc (BindFlags f)) fs (Some (zero_options, False)))"

section \<open>The directory of the store\<close>

definition path_sep :: "char \<Rightarrow> bool" where
  "path_sep c \<longleftrightarrow> c = CHR ''/'' \<or> c = CHR 0x5C"

text \<open>The two loops run from the end; the argument is the number of bytes still to look at.\<close>

fun base_from :: "string \<Rightarrow> nat \<Rightarrow> string" where
  "base_from p 0 = p"
| "base_from p (Suc i) = (if path_sep (p ! i) then drop (Suc i) p else base_from p i)"

definition basenameOf :: "string \<Rightarrow> string" where
  "basenameOf p = base_from p (length p)"

fun parent_from :: "string \<Rightarrow> nat \<Rightarrow> string" where
  "parent_from p 0 = ''.''"
| "parent_from p (Suc i) = (if path_sep (p ! Suc i) then take (Suc i) p else parent_from p i)"

definition parentOf :: "string \<Rightarrow> string" where
  "parentOf p = parent_from p (length p - 1)"

text \<open>The home directory may be missing (\<open>None\<close>); the other arguments are those of \<open>store.Open\<close>.\<close>

definition openStoreForCfg :: "json \<Rightarrow> bool \<Rightarrow> bool \<Rightarrow> string option \<Rightarrow> config \<Rightarrow> fs \<Rightarrow> store_error option + store" where
  "openStoreForCfg js mkdir_ok read_ok home cfg f =
    (let root = StateDir cfg; open = (\<lambda>dir. case Open_store js mkdir_ok read_ok dir f of Inl e \<Rightarrow> Inl (Some e) | Inr s \<Rightarrow> Inr s)
     in if root = [] then (case home of None \<Rightarrow> Inl None | Some h \<Rightarrow> open h)
        else let parent = (if basenameOf root = ''.port-manager'' then parentOf root else root) in open parent)"

section \<open>server.New\<close>

datatype dep =
    DepNil | DepAuth auth | DepScanner "host \<Rightarrow> scan_error + listener list" | DepInspector | DepProcess manager | DepStore store

record wired =
  wi_server :: server
  wi_auth :: "auth option"
  wi_store :: "store option"

fun add_dep :: "dep \<Rightarrow> wired \<Rightarrow> wired" where
  "add_dep DepNil x = x"
| "add_dep (DepAuth a) x = x\<lparr>wi_auth := Some a\<rparr>"
| "add_dep (DepScanner sc) x = x\<lparr>wi_server := (wi_server x)\<lparr>sv_scanner := Some sc\<rparr>\<rparr>"
| "add_dep DepInspector x = x\<lparr>wi_server := (wi_server x)\<lparr>sv_inspector := True\<rparr>\<rparr>"
| "add_dep (DepProcess m) x = x\<lparr>wi_server := (wi_server x)\<lparr>sv_process := Some m\<rparr>\<rparr>"
| "add_dep (DepStore s) x = x\<lparr>wi_store := Some s\<rparr>"

definition New_server :: "int \<Rightarrow> string option \<Rightarrow> config option \<Rightarrow> dep list \<Rightarrow> wired" where
  "New_server self user cfg deps =
    (let x = fold add_dep deps
           \<lparr>wi_server = \<lparr>sv_cfg = cfg, sv_scanner = None, sv_inspector = False, sv_process = None, sv_user = [], sv_selfPID = self\<rparr>,
            wi_auth = None, wi_store = None\<rparr>;
         x = (if wi_auth x = None then x\<lparr>wi_auth := map_option newAuth cfg\<rparr> else x)
     in case user of None \<Rightarrow> x | Some u \<Rightarrow> x\<lparr>wi_server := (wi_server x)\<lparr>sv_user := u\<rparr>\<rparr>)"

text \<open>The standard library's server around the handler: its address and its timeouts.\<close>

record http_server =
  hs_Addr :: string
  hs_ReadTimeout :: duration
  hs_WriteTimeout :: duration
  hs_IdleTimeout :: duration
  hs_ReadHeaderTimeout :: duration

definition NewHTTPServer :: "string \<Rightarrow> http_server" where
  "NewHTTPServer addr = \<lparr>hs_Addr = addr, hs_ReadTimeout = 5 * Second, hs_WriteTimeout = 10 * Second,
     hs_IdleTimeout = 60 * Second, hs_ReadHeaderTimeout = 2 * Second\<rparr>"

section \<open>run\<close>

datatype run_error =
    ErrParseFlags | ErrLoadConfig config_error | ErrOpenStore "store_error option" | ErrInitScanner scan_error
  | ErrInitManager | ErrListen

text \<open>How serving ends: the listener fails or is closed, or a signal arrives (then whether the shutdown was clean).\<close>

datatype serving = ListenFails | ListenCloses | Signalled bool

datatype run_result = VersionShown | RunFails run_error | Served wired http_server

record run_env =
  ru_args :: "flag list option"
  ru_load :: load_env
  ru_json :: json
  ru_mkdir_ok :: bool
  ru_read_ok :: bool
  ru_darwin :: bool
  ru_self :: int
  ru_user :: "string option"
  ru_serving :: serving

definition scanner_of :: "config \<Rightarrow> int \<Rightarrow> scanner_kind \<Rightarrow> host \<Rightarrow> scan_error + listener list" where
  "scanner_of cfg self kind h =
    (case kind of
       LsofScanner \<Rightarrow> lsof_Scan cfg self (h_lsof h)
     | LibprocScanner \<Rightarrow> libproc_Scan cfg self (h_uid h) (h_ctx h) (h_kernel h))"

text \<open>What \<open>main\<close> hands to the system.\<close>

fun main_exit :: "run_result \<Rightarrow> int" where
  "main_exit (RunFails e) = 1"
| "main_exit VersionShown = 0"
| "main_exit (Served x h) = 0"

definition run :: "run_env \<Rightarrow> fs \<Rightarrow> run_result \<times> fs" where
  "run env f =
    (case parse_flags (ru_args env) of
       None \<Rightarrow> (RunFails ErrParseFlags, f)
     | Some (opts, showVersion) \<Rightarrow>
       if showVersion then (VersionShown, f)
       else (case Load opts (ru_load env) f of
         (f, _, Inl e) \<Rightarrow> (RunFails (ErrLoadConfig e), f)
       | (f, _, Inr cfg) \<Rightarrow>
         (case openStoreForCfg (ru_json env) (ru_mkdir_ok env) (ru_read_ok env) (user_home (ru_load env)) cfg f of
            Inl e \<Rightarrow> (RunFails (ErrOpenStore e), f)
          | Inr st \<Rightarrow>
            (case Auto (ru_darwin env) (Some cfg) of
               Inl e \<Rightarrow> (RunFails (ErrInitScanner e), f)
             | Inr kind \<Rightarrow>
               (case New_manager (Some cfg) (ru_self env) [WithStore True] of
                  None \<Rightarrow> (RunFails ErrInitManager, f)
                | Some pm \<Rightarrow>
                  let srv = New_server (ru_self env) (ru_user env) (Some cfg)
                        [DepAuth (newAuth cfg), DepScanner (scanner_of cfg (ru_self env) kind), DepInspector, DepProcess pm, DepStore st];
                      httpSrv = NewHTTPServer (''0.0.0.0:'' @ itoa (Port cfg))
                  in (case ru_serving env of
                        ListenFails \<Rightarrow> (RunFails ErrListen, f)
                      | ListenCloses \<Rightarrow> (Served srv httpSrv, f)
                      | Signalled _ \<Rightarrow> (Served srv httpSrv, f)))))))"

end
