(* ===== verification/CommandFacts.thy ===== *)
theory CommandFacts
  imports Command ServerFacts
begin

text \<open>
  Properties of \<^verbatim>\<open>cmd/port-manager\<close>: what is served is wired as the server and the process
  manager expect it, what a running dashboard can do to the processes of the host, and where the
  state file lies.
\<close>

section \<open>Wiring\<close>

text \<open>The server and the process manager agree on the configuration, on the pid and on the scanner.\<close>

definition well_wired :: "int \<Rightarrow> wired \<Rightarrow> bool" where
  "well_wired self x \<longleftrightarrow>
    (case sv_cfg (wi_server x) of
       None \<Rightarrow> False
     | Some cfg \<Rightarrow> validate cfg = None \<and> wi_auth x = Some (newAuth cfg)
         \<and> sv_process (wi_server x) = Some (production_manager cfg self))
    \<and> sv_selfPID (wi_server x) = self \<and> sv_scanner (wi_server x) \<noteq> None \<and> sv_inspector (wi_server x) \<and> wi_store x \<noteq> None"

lemma Load_validated: "Load opts env s = (s', out, Inr cfg) \<Longrightarrow> validate cfg = None"
  by (erule Load_cases; auto elim: load_finish_cases)

lemma production_manager_eq: "New_manager (Some cfg) self [WithStore True] = Some (production_manager cfg self)"
  by (simp add: production_manager_def New_manager_def)

lemma New_server_wired:
  assumes "validate cfg = None"
  shows "well_wired self (New_server self user (Some cfg)
    [DepAuth (newAuth cfg), DepScanner sc, DepInspector, DepProcess (production_manager cfg self), DepStore st])"
  using assms by (simp add: well_wired_def New_server_def Let_def split: option.split)

text \<open>The port a wired server was configured for.\<close>

definition portOf :: "wired \<Rightarrow> int" where
  "portOf x = (case sv_cfg (wi_server x) of None \<Rightarrow> 0 | Some cfg \<Rightarrow> Port cfg)"

lemma add_dep_cfg [simp]: "sv_cfg (wi_server (add_dep d x)) = sv_cfg (wi_server x)"
  by (cases d) simp_all

lemma fold_add_dep_cfg [simp]: "sv_cfg (wi_server (fold add_dep ds x)) = sv_cfg (wi_server x)"
  by (induction ds arbitrary: x) simp_all

lemma New_server_cfg: "sv_cfg (wi_server (New_server self user cfg deps)) = cfg"
  by (simp add: New_server_def Let_def split: option.split)

theorem served_is_wired:
  assumes "run env f = (Served x h, f')"
  shows "well_wired (ru_self env) x \<and> h = NewHTTPServer (''0.0.0.0:'' @ itoa (portOf x))"
proof -
  obtain opts where opts: "parse_flags (ru_args env) = Some (opts, False)"
    using assms by (auto simp: run_def split: option.splits if_splits)
  obtain f1 out cfg where load: "Load opts (ru_load env) f = (f1, out, Inr cfg)"
    using assms opts by (auto simp: run_def split: prod.splits sum.splits)
  obtain st where st: "openStoreForCfg (ru_json env) (ru_mkdir_ok env) (ru_read_ok env) (user_home (ru_load env)) cfg f1 = Inr st"
    using assms opts load by (auto simp: run_def split: sum.splits)
  obtain kind where kind: "Auto (ru_darwin env) (Some cfg) = Inr kind"
    using assms opts load st by (auto simp: run_def split: sum.splits)
  have "x = New_server (ru_self env) (ru_user env) (Some cfg) [DepAuth (newAuth cfg),
      DepScanner (scanner_of cfg (ru_self env) kind), DepInspector, DepProcess (production_manager cfg (ru_self env)), DepStore st]"
    using assms opts load st kind production_manager_eq by (auto simp: run_def Let_def split: serving.splits)
  moreover have "h = NewHTTPServer (''0.0.0.0:'' @ itoa (Port cfg))"
    using assms opts load st kind production_manager_eq by (auto simp: run_def Let_def split: serving.splits)
  ultimately show ?thesis using New_server_wired [OF Load_validated [OF load]] by (simp add: portOf_def New_server_cfg)
qed

section \<open>A running dashboard\<close>

lemma restart_world [simp]: "si_world (snd (handleRestart s q p r (w, st))) = si_world st"
  by (auto simp: handleRestart_def Let_def split: option.split prod.split process_error.split)

lemma rename_world [simp]: "si_world (snd (handleRename s q p r (w, st))) = si_world st"
proof -
  have fragment: "si_world (snd (writePortsFragment s q (w, st'))) = si_world st'" for st'
    using ports_effects(3) [of s q "(w, st')"] by (simp add: effects_def)
  show ?thesis
    by (auto simp: handleRename_def handleRenameMutation_def Let_def fragment
             split: option.split sum.split prod.split label_error.split store_error.split)
qed

lemma kill_world:
  assumes "sv_process s = Some m"
  shows "runs m (si_world st) (si_world (snd (handleKill s q p r (w, st))))"
proof (cases s q p r w st rule: handleKill_cases)
  case refused
  then show ?thesis by (simp add: effects_def)
next
  case (ran m' port pid)
  then have "m' = m" using assms by simp
  have "si_world (snd (handleKill s q p r (w, st))) = snd (Kill m' (q_host_verify q) pid (si_world st))"
    using ran(4) by (auto simp: effects_def Let_def split: if_splits)
  then show ?thesis using killed [of m] \<open>m' = m\<close> by auto
qed

lemma gate_world:
  "(\<And>r w. P (si_world st) (si_world (snd (next r (w, st))))) \<Longrightarrow> P (si_world st) (si_world st) \<Longrightarrow>
   P (si_world st) (si_world (snd (requireAuth q (withCSRF next) r (w, st))))"
  by (auto simp: requireAuth_def withCSRF_def split: option.split)

lemma requests_run:
  assumes "sv_process s = Some m"
  shows "runs m (si_world st) (si_world (snd (serve s q i segs r st)))"
proof -
  let ?rt = "route_of (rq_method r) segs"
  have "runs m (si_world st) (si_world (snd (dispatch s q ?rt r' (w, st))))" for r' w
  proof (cases "mutation ?rt")
    case False
    then have "si_world (snd (dispatch s q ?rt r' (w, st))) = si_world st"
      using dispatch_effects [of ?rt s q r' "(w, st)"] by (simp add: effects_def)
    then show ?thesis by simp
  next
    case True
    then consider p where "?rt = RKill p" | p where "?rt = RRestart p" | p where "?rt = RRename p"
      by (cases ?rt) (simp_all add: mutation_def)
    then show ?thesis
    proof cases
      case 1
      then show ?thesis
        by (simp add: dispatch_def) (rule gate_world [where P = "runs m"], rule kill_world [OF assms], rule rtranclp.rtrancl_refl)
    qed (simp add: dispatch_def, rule gate_world [where P = "runs m"], simp, simp)+
  qed
  then show ?thesis by (simp add: serve_eq case_prod_beta Let_def)
qed


text \<open>The life of a dashboard: it serves requests, its escalations take their turns, and the host goes on.\<close>

inductive lives :: "server \<Rightarrow> manager \<Rightarrow> site \<Rightarrow> site \<Rightarrow> bool" for s m where
  serves: "lives s m st (snd (serve s q i segs r st))"
| goes_on: "happens m (si_world st) w' \<Longrightarrow> lives s m st (st\<lparr>si_world := w'\<rparr>)"

lemma lives_runs:
  assumes "sv_process s = Some m"
  shows "lives s m st st' \<Longrightarrow> runs m (si_world st) (si_world st')"
proof (induction rule: lives.induct)
  case (serves st q i segs r)
  show ?case by (rule requests_run [OF assms])
next
  case (goes_on st w')
  then show ?case by auto
qed

text \<open>
  C3. In the whole life of a dashboard, its requests, its escalations and the exits and births
  of other processes interleaved in any order, no signal goes to its own pid or process, to
  init, or to a process group.
\<close>

theorem dashboard_never_signals_itself:
  assumes "sv_process s = Some m" and "fresh m (si_world st0)" and "(lives s m)\<^sup>*\<^sup>* st0 st"
    and "x \<in> set (w_log (si_world st))"
  shows "sg_pid x \<noteq> m_selfPID m \<and> 1 < sg_pid x
    \<and> (\<exists>p. w_table (si_world st) (m_selfPID m) = Some p \<and> sg_birth x \<noteq> birth p)"
proof -
  have "runs m (si_world st0) (si_world st)"
    using assms(3) by (induction rule: rtranclp_induct) (auto dest: lives_runs [OF assms(1)] intro: rtranclp_trans)
  then show ?thesis using signals_spare_self [OF assms(2) _ assms(4)] by simp
qed

section \<open>The directory of the store\<close>

lemma base_from_skip:
  "k \<le> n \<Longrightarrow> (\<And>i. k \<le> i \<Longrightarrow> i < n \<Longrightarrow> \<not> path_sep (p ! i)) \<Longrightarrow> base_from p n = base_from p k"
  by (induction n) (auto simp: le_Suc_eq)

lemma parent_from_skip:
  "k \<le> n \<Longrightarrow> (\<And>i. k < i \<Longrightarrow> i \<le> n \<Longrightarrow> \<not> path_sep (p ! i)) \<Longrightarrow> parent_from p n = parent_from p k"
  by (induction n) (auto simp: le_Suc_eq)

lemma last_element:
  assumes "list_all (\<lambda>c. \<not> path_sep c) b"
  shows "basenameOf (d @ ''/'' @ b) = b" and "d \<noteq> [] \<Longrightarrow> parentOf (d @ ''/'' @ b) = d"
proof -
  let ?p = "d @ ''/'' @ b" and ?k = "length d"
  have sep: "path_sep (?p ! ?k)" by (simp add: path_sep_def nth_append)
  have rest: "\<not> path_sep (?p ! i)" if "?k < i" "i < length ?p" for i
    using assms that by (auto simp: list_all_length nth_append)
  have "base_from ?p (length ?p) = base_from ?p (Suc ?k)"
    by (rule base_from_skip) (use rest in auto)
  then show "basenameOf ?p = b" using sep by (simp add: basenameOf_def)
  assume "d \<noteq> []"
  then obtain j where j: "?k = Suc j" by (cases ?k) auto
  have "parent_from ?p (length ?p - 1) = parent_from ?p ?k"
    by (rule parent_from_skip) (use rest in auto)
  also have "\<dots> = d" using sep by (simp add: j)
  finally show "parentOf ?p = d" by (simp add: parentOf_def)
qed

definition opened :: "store_error + store \<Rightarrow> store_error option + store" where
  "opened r = (case r of Inl e \<Rightarrow> Inl (Some e) | Inr s \<Rightarrow> Inr s)"

text \<open>
  A directory whose last element is \<^verbatim>\<open>.port-manager\<close> is used itself; any other one gets a
  \<^verbatim>\<open>.port-manager\<close> of its own, and so does one with a trailing slash.
\<close>

theorem state_dir_resolution:
  assumes "StateDir cfg = d @ ''/'' @ b" and "list_all (\<lambda>c. \<not> path_sep c) b" and "d \<noteq> []"
  shows "openStoreForCfg js mk rd home cfg f =
    opened (Open_store js mk rd (if b = ''.port-manager'' then d else StateDir cfg) f)"
  using last_element(1) [OF assms(2), of d] last_element(2) [OF assms(2,3)] assms(1)
  by (cases "b = ''.port-manager''") (simp_all add: openStoreForCfg_def opened_def)

text \<open>The directory directly under the root is taken for one relative to the working directory.\<close>

lemma state_dir_at_root: "parentOf ''/.port-manager'' = ''.''"
  by code_simp

lemma state_dir_resolution_witness:
  "\<exists>st. openStoreForCfg sample_json True True None sample_config blank_fs = Inr st
    \<and> st_path st = ''/home/u/.port-manager/state.json''"
proof -
  have "openStoreForCfg sample_json True True None sample_config blank_fs =
      opened (Open_store sample_json True True ''/home/u'' blank_fs)"
    using state_dir_resolution [of sample_config "''/home/u''" "''.port-manager''"]
    by (simp add: sample_config_def path_sep_def)
  moreover have "path_join [path_join [''/home/u'', stateDirName], stateFile] = ''/home/u/.port-manager/state.json''"
    by code_simp
  ultimately show ?thesis by (simp add: opened_def Open_store_def Let_def blank_fs_def)
qed

section \<open>A concrete dashboard\<close>


definition sample_run_env :: run_env where
  "sample_run_env = \<lparr>ru_args = Some [], ru_load = quiet_env, ru_json = sample_json, ru_mkdir_ok = True, ru_read_ok = True,
     ru_darwin = False, ru_self = 7, ru_user = Some ''u'', ru_serving = Signalled True\<rparr>"

lemma dashboard_never_signals_itself_witness:
  "\<exists>st. (lives sample_server sample_manager)\<^sup>*\<^sup>* sample_site st \<and> w_log (si_world st) = [sample_sent SIGTERM 0]
    \<and> sg_pid (sample_sent SIGTERM 0) \<noteq> m_selfPID sample_manager"
proof -
  let ?st = "sample_site\<lparr>si_world := termed_world\<rparr>"
  have "lives sample_server sample_manager sample_site ?st"
    using killed [of sample_manager sample_world sample_host 12]
    by (intro goes_on) (simp add: sample_kill)
  then have reach: "(lives sample_server sample_manager)\<^sup>*\<^sup>* sample_site ?st" by blast
  have log: "w_log (si_world ?st) = [sample_sent SIGTERM 0]" by (simp add: termed_world_def)
  from dashboard_never_signals_itself [OF _ _ reach, of "sample_sent SIGTERM 0"] sample_fresh log
  have "sg_pid (sample_sent SIGTERM 0) \<noteq> m_selfPID sample_manager" by simp
  with reach log show ?thesis by blast
qed


lemma served_is_wired_witness: "\<exists>x h f'. run sample_run_env blank_fs = (Served x h, f') \<and> well_wired 7 x"
proof -
  obtain f1 where load: "Load no_options quiet_env blank_fs = (f1, banner (AuthToken first_config) ''.env'', Inr first_config)"
    using first_load by blast
  have opts: "parse_flags (Some []) = Some (no_options, False)"
    by (simp add: parse_flags_def zero_options_def no_options_def)
  have "\<exists>st. Open_store sample_json True True ''/home/u'' f1 = Inr st"
    by (cases "cache f1 (path_join [path_join [''/home/u'', stateDirName], stateFile])")
       (simp_all add: Open_store_def Let_def sample_json_def)
  then obtain st where o: "Open_store sample_json True True ''/home/u'' f1 = Inr st" by blast
  have "StateDir first_config = ''/home/u/.port-manager''" by code_simp
  moreover have "basenameOf ''/home/u/.port-manager'' = ''.port-manager''" "parentOf ''/home/u/.port-manager'' = ''/home/u''"
    by code_simp+
  ultimately have st: "openStoreForCfg sample_json True True (Some ''/home/u'') first_config f1 = Inr st"
    using o by (simp add: openStoreForCfg_def)
  have kind: "Auto False (Some first_config) = Inr LsofScanner" by code_simp
  have env: "ru_args sample_run_env = Some []" "ru_load sample_run_env = quiet_env" "ru_json sample_run_env = sample_json"
    "ru_mkdir_ok sample_run_env" "ru_read_ok sample_run_env" "\<not> ru_darwin sample_run_env"
    "ru_serving sample_run_env = Signalled True" "user_home quiet_env = Some ''/home/u''"
    by (simp_all add: sample_run_env_def quiet_env_def)
  obtain x h where x: "run sample_run_env blank_fs = (Served x h, f1)"
    using load opts st kind by (simp add: run_def env production_manager_eq Let_def)
  from served_is_wired [OF x] show ?thesis using x by (auto simp: sample_run_env_def)
qed

end
