(* ===== verification/StoreSpec.thy ===== *)
theory StoreSpec
  imports StoreFacts
begin

text \<open>
  The abstract store: a label for each key and a history of killed listeners, with the operations
  as the documentation of \<^verbatim>\<open>internal/store\<close> promises them, and the proof that the store of
  \<^verbatim>\<open>store.go\<close> refines it under every fault, encoder and iteration order.
\<close>

section \<open>The abstract machine\<close>

record spec_store =
  sp_label :: "string \<Rightarrow> string"
  sp_history :: "remembered list"

text \<open>The abstract store is a label lookup, too.\<close>

definition spec_look :: "spec_store \<Rightarrow> string \<Rightarrow> string list \<Rightarrow> string" where
  "spec_look sp cwd command = sp_label sp (LabelKey cwd command)"

definition spec_relabel :: "string \<Rightarrow> string list \<Rightarrow> string \<Rightarrow> spec_store \<Rightarrow> spec_store" where
  "spec_relabel cwd command label sp = sp\<lparr>sp_label := (sp_label sp)(LabelKey cwd command := label)\<rparr>"

interpretation spec_labels: label_lookup spec_look spec_relabel
    "\<lambda>cwd command cwd' command'. LabelKey cwd command = LabelKey cwd' command'" "\<lambda>_. True"
  by unfold_locales (simp_all add: spec_look_def spec_relabel_def)

text \<open>Of the entries that match, the last \<open>n\<close> stay; the others all stay.\<close>

fun keep_last_matching :: "('a \<Rightarrow> bool) \<Rightarrow> nat \<Rightarrow> 'a list \<Rightarrow> 'a list" where
  "keep_last_matching P n [] = []"
| "keep_last_matching P n (x # xs) =
    (if P x \<and> n \<le> length (filter P xs) then keep_last_matching P n xs else x # keep_last_matching P n xs)"

fun spec_step :: "store_env \<Rightarrow> mutation \<Rightarrow> spec_store \<Rightarrow> spec_store" where
  "spec_step env (MLabel cwd command label) sp =
    (if 64 < rune_count label then sp
     else spec_relabel cwd command label sp)"
| "spec_step env (MRemember r) sp =
    (case completed env r of
       None \<Rightarrow> sp
     | Some e \<Rightarrow> sp\<lparr>sp_history := keep_newest 100
         (keep_last_matching (\<lambda>x. r_LabelKey x = r_LabelKey e) 5 (sp_history sp @ [e]))\<rparr>)"
| "spec_step env (MDelete i) sp = sp\<lparr>sp_history := filter (\<lambda>r. r_ID r \<noteq> i) (sp_history sp)\<rparr>"

text \<open>
  What the size limit of the file may make the store forget: the oldest entry of the history, or
  a label when the history is empty.
\<close>

inductive forgets :: "spec_store \<Rightarrow> spec_store \<Rightarrow> bool" where
  an_entry: "sp_history sp = r # rs \<Longrightarrow> forgets sp (sp\<lparr>sp_history := rs\<rparr>)"
| a_label: "sp_history sp = [] \<Longrightarrow> forgets sp (sp\<lparr>sp_label := (sp_label sp)(k := [])\<rparr>)"

inductive spec_runs :: "(store_env \<times> mutation) list \<Rightarrow> spec_store \<Rightarrow> spec_store \<Rightarrow> bool" where
  start: "spec_runs [] sp sp"
| step: "spec_runs ms sp sp' \<Longrightarrow> forgets\<^sup>*\<^sup>* (spec_step env m sp') sp'' \<Longrightarrow> spec_runs (ms @ [(env, m)]) sp sp''"

definition spec_all :: "(store_env \<times> mutation) list \<Rightarrow> spec_store \<Rightarrow> spec_store" where
  "spec_all ms sp = fold (\<lambda>(env, m). spec_step env m) ms sp"

section \<open>Abstraction\<close>

definition abs_store :: "store \<Rightarrow> spec_store" where
  "abs_store s = \<lparr>
     sp_label = (\<lambda>k. case gm_get (Labels (st_data s)) k of None \<Rightarrow> [] | Some e \<Rightarrow> l_Label e),
     sp_history = Remembered (st_data s)\<rparr>"

lemma abs_Label: "Label s cwd command = spec_look (abs_store s) cwd command"
  by (simp add: Label_def abs_store_def spec_look_def)

lemma abs_queries:
  "AllRemembered s = rev (sp_history (abs_store s))"
  "FindRemembered s i = List.find (\<lambda>r. r_ID r = i) (sp_history (abs_store s))"
  by (simp_all add: AllRemembered_def FindRemembered_def abs_store_def)

lemma abs_store_cong: "st_data s = st_data t \<Longrightarrow> abs_store s = abs_store t"
  by (simp add: abs_store_def)

lemma keep_last_matching_eq:
  "drop_matching P (length (filter P xs) - n) xs = keep_last_matching P n xs"
proof (induction xs)
  case (Cons x xs)
  show ?case
  proof (cases "P x \<and> n \<le> length (filter P xs)")
    case True
    then have "length (filter P (x # xs)) - n = Suc (length (filter P xs) - n)" by auto
    then show ?thesis using True Cons.IH by simp
  next
    case False
    moreover from this have "P x \<Longrightarrow> length (filter P (x # xs)) - n = 0" and "P x \<Longrightarrow> length (filter P xs) - n = 0" by auto
    ultimately show ?thesis using Cons.IH by (cases "P x") auto
  qed
qed simp

lemma kept_with_eq:
  "kept_with e rs = keep_newest 100 (keep_last_matching (\<lambda>x. r_LabelKey x = r_LabelKey e) 5 (rs @ [e]))"
  unfolding kept_with_def evictPerKeyLocked_eq keep_last_matching_eq evictGlobalLocked_eq keep_newest_def retention ..

lemma intended_abs:
  assumes "retained (st_data s)"
  shows "spec_step env m (abs_store s) = abs_store (case intended env m s of None \<Rightarrow> s | Some t \<Rightarrow> t)"
proof (cases m)
  case (MLabel cwd command label)
  then show ?thesis using assms
    by (auto simp: abs_store_def labelled_def spec_relabel_def retained_def fun_eq_iff update_conv' delete_conv')
next
  case (MRemember r)
  then show ?thesis by (simp add: abs_store_def remembering_def kept_with_eq split: option.split)
next
  case (MDelete i)
  then show ?thesis
    by (auto simp: abs_store_def Let_def) (metis filter_id_conv length_filter_less nat_neq_iff)
qed

section \<open>Simulation\<close>

text \<open>The state an operation wants to write is within the size limit.\<close>

definition fits :: "store_env \<Rightarrow> mutation \<Rightarrow> store \<Rightarrow> bool" where
  "fits env m s =
    (case intended env m s of
       None \<Rightarrow> True
     | Some t \<Rightarrow> (case marshal (e_json env) (st_data t) of None \<Rightarrow> True | Some b \<Rightarrow> length b \<le> MaxStateBytes))"

fun all_fit :: "(store_env \<times> mutation) list \<Rightarrow> store \<times> fs \<Rightarrow> bool" where
  "all_fit [] sf \<longleftrightarrow> True"
| "all_fit ((env, m) # ms) sf \<longleftrightarrow> fits env m (fst sf) \<and> all_fit ms (fst (mutate env m sf))"

lemma drops_forgets: "drops mar d d' \<Longrightarrow> gm_ok (Labels d) \<Longrightarrow>
  forgets (abs_store (s\<lparr>st_data := d\<rparr>)) (abs_store (s\<lparr>st_data := d'\<rparr>))"
proof (induction rule: drops.induct)
  case (drop_remembered d b r rs)
  then show ?case
    using an_entry [of "abs_store (s\<lparr>st_data := d\<rparr>)" r rs] by (simp add: abs_store_def)
next
  case (drop_label d b k e)
  then have "abs_store (s\<lparr>st_data := d\<lparr>Labels := gm_del k (Labels d)\<rparr>\<rparr>) =
      (abs_store (s\<lparr>st_data := d\<rparr>))\<lparr>sp_label := (sp_label (abs_store (s\<lparr>st_data := d\<rparr>)))(k := [])\<rparr>"
    by (auto simp: abs_store_def fun_eq_iff delete_conv')
  then show ?case
    using a_label [of "abs_store (s\<lparr>st_data := d\<rparr>)" k] drop_label by (simp add: abs_store_def)
qed

lemma drops_gm_ok: "drops mar d d' \<Longrightarrow> gm_ok (Labels d) \<Longrightarrow> gm_ok (Labels d')"
  by (induction rule: drops.induct) (simp_all add: gm_ok_def distinct_delete)

lemma drops_many_forget:
  "(drops mar)\<^sup>*\<^sup>* d d' \<Longrightarrow> gm_ok (Labels d) \<Longrightarrow>
   forgets\<^sup>*\<^sup>* (abs_store (s\<lparr>st_data := d\<rparr>)) (abs_store (s\<lparr>st_data := d'\<rparr>)) \<and> gm_ok (Labels d')"
proof (induction rule: rtranclp_induct)
  case (step d1 d2)
  then show ?case
    using drops_forgets [of mar d1 d2 s] drops_gm_ok [of mar d1 d2] by (auto intro: rtranclp.rtrancl_into_rtrancl)
qed simp

lemma mutate_refines:
  assumes ok: "retained (st_data s)" and run: "mutate env m (s, f) = ((s', f'), err)"
  shows "forgets\<^sup>*\<^sup>* (spec_step env m (abs_store s)) (abs_store s')"
proof (cases "intended env m s")
  case None
  then have "s' = s" using mutate_intended [of env m s f] run by simp
  then show ?thesis using intended_abs [OF ok, of env m] None by simp
next
  case (Some t)
  then have p: "persistLocked env (t, f) = ((s', f'), err)"
    using mutate_intended [of env m s f] run by simp
  have "retained (st_data t)" using intended_retained [OF Some ok] by blast
  then show ?thesis
    using persist_spec [OF p] drops_many_forget [of _ "st_data t" "st_data s'" t] intended_abs [OF ok, of env m] Some
    by (auto simp: retained_def abs_store_def)
qed

lemma mutate_refines_exactly:
  assumes ok: "retained (st_data s)" and run: "mutate env m (s, f) = ((s', f'), err)"
    and fits: "fits env m s"
  shows "abs_store s' = spec_step env m (abs_store s)"
proof (cases "intended env m s")
  case None
  then have "s' = s" using mutate_intended [of env m s f] run by simp
  then show ?thesis using intended_abs [OF ok, of env m] None by simp
next
  case (Some t)
  then have p: "persistLocked env (t, f) = ((s', f'), err)"
    using mutate_intended [of env m s f] run by simp
  have "s' = t"
  proof (cases "marshal (e_json env) (st_data t)")
    case None
    then show ?thesis using p by (simp add: persistLocked_def shrink.simps [of "marshal (e_json env)"])
  next
    case (Some b)
    then show ?thesis using persist_fits [OF p Some] fits \<open>intended env m s = Some t\<close> by (simp add: fits_def)
  qed
  then show ?thesis using intended_abs [OF ok, of env m] Some by simp
qed

lemma mutate_all_snoc: "mutate_all (ms @ [(env, m)]) sf = fst (mutate env m (mutate_all ms sf))"
  by (simp add: mutate_all_def)

lemma spec_all_snoc: "spec_all (ms @ [(env, m)]) sp = spec_step env m (spec_all ms sp)"
  by (simp add: spec_all_def)

lemma all_fit_snoc: "all_fit (ms @ [(env, m)]) sf \<longleftrightarrow> all_fit ms sf \<and> fits env m (fst (mutate_all ms sf))"
proof (induction ms arbitrary: sf)
  case (Cons x ms)
  then show ?case by (cases x) (simp add: mutate_all_def)
qed (simp add: mutate_all_def)

text \<open>
  C6. The store refines the abstract store of labels and history: every sequence of operations,
  with any faults, encoder and iteration order, is a run of it that may forget the oldest
  entries, or labels once the history is empty; and it forgets nothing when every state fits the
  size limit, even if writing the file fails.
\<close>

theorem store_refines:
  assumes "mutate_all ms (s, f) = (s', f')" and "retained (st_data s)"
  shows "spec_runs ms (abs_store s) (abs_store s')
    \<and> (all_fit ms (s, f) \<longrightarrow> abs_store s' = spec_all ms (abs_store s))"
  using assms(1)
proof (induction ms arbitrary: s' f' rule: rev_induct)
  case Nil
  then show ?case by (simp add: mutate_all_def spec_all_def start)
next
  case (snoc x ms)
  obtain env m where x: "x = (env, m)" by (cases x)
  obtain s1 f1 where 1: "mutate_all ms (s, f) = (s1, f1)" by fastforce
  obtain err where run: "mutate env m (s1, f1) = ((s', f'), err)"
    using snoc.prems 1 by (cases "mutate env m (s1, f1)") (auto simp: x mutate_all_snoc)
  have ok: "retained (st_data s1)" using mutations_retained [OF 1 assms(2)] .
  show ?case
    using snoc.IH [OF 1] mutate_refines [OF ok run] mutate_refines_exactly [OF ok run] 1
    by (auto simp: x spec_all_snoc all_fit_snoc intro: spec_runs.step)
qed

section \<open>A concrete run\<close>

text \<open>A label, an entry and its deletion; every state fits.\<close>

definition sample_mutations :: "(store_env \<times> mutation) list" where
  "sample_mutations = [(sample_env, MLabel ''/srv'' [''node''] ''api''), (broken_env, MRemember sample_entry)]"

lemma store_refines_witness:
  "spec_runs sample_mutations (abs_store sample_store) (abs_store (fst (mutate_all sample_mutations (sample_store, empty_fs))))
    \<and> sp_label (abs_store (fst (mutate_all sample_mutations (sample_store, empty_fs)))) (LabelKey ''/srv'' [''node'']) = ''api''"
proof -
  obtain s f where run: "mutate_all sample_mutations (sample_store, empty_fs) = (s, f)" by fastforce
  have "all_fit sample_mutations (sample_store, empty_fs)"
    by (auto simp: sample_mutations_def fits_def sample_marshal MaxStateBytes_def broken_env_def sample_env_def sample_json_def
          split: option.split prod.split)
  with store_refines [OF run sample_retained]
  have "spec_runs sample_mutations (abs_store sample_store) (abs_store s)"
    and "abs_store s = spec_all sample_mutations (abs_store sample_store)" by blast+
  moreover have "sp_label (spec_all sample_mutations (abs_store sample_store)) (LabelKey ''/srv'' [''node'']) = ''api''"
    by (simp add: spec_all_def spec_relabel_def sample_mutations_def rune_count_def runes_ascii ascii_def split: option.split)
  ultimately show ?thesis by (simp add: run)
qed

end
