(* ===== verification/Rename.thy ===== *)
theory Rename
  imports ServerFacts
begin

text \<open>
  The rename of \<^verbatim>\<open>mutation_handlers.go\<close> end to end: what a request can change, and that the label it
  set is in the rows it answers with.
\<close>

section \<open>What a request changes\<close>

text \<open>The label a rename request asks for, when every check before the scan passes.\<close>

definition rename_label :: "server \<Rightarrow> request \<Rightarrow> string option" where
  "rename_label s r =
    (if \<not> sv_inspector s then None
     else case rq_form r of
       None \<Rightarrow> None
     | Some form \<Rightarrow>
         let label = first_value (form ''label'') in if validateLabel label = None then Some label else None)"

text \<open>What follows the checks: the label is stored, and the answer depends on how that went.\<close>

definition rename_reply :: "server \<Rightarrow> request_env \<Rightarrow> procinfo \<Rightarrow> string \<Rightarrow> store \<Rightarrow> exchange \<Rightarrow> exchange" where
  "rename_reply s q info label sto = (\<lambda>(w, st).
    let ((sto', f'), err) = SetLabel (q_store_env q) (PI_Cwd info) (PI_Command info) label (sto, si_fs st);
        st' = st\<lparr>si_store := Some sto', si_fs := f'\<rparr>
    in case err of
         Some ErrLabelTooLong \<Rightarrow> (http_error ''label too long'' 400 w, st')
       | Some e \<Rightarrow> (http_error (''persist label: '' @ q_store_text q e) 500 w, st')
       | None \<Rightarrow> writePortsFragment s q (w, st'))"

lemma handleRename_run:
  assumes "target s q pathPort port pid" and "q_inspect q pid = Inr info" and "rename_label s r = Some label"
    and "si_store st = Some sto"
  shows "handleRename s q pathPort r (w, st) = rename_reply s q info label sto (w, st)"
  using assms
  by (auto simp: target_def rename_label_def handleRename_def handleRenameMutation_def rename_reply_def Let_def
      split: option.splits if_splits)

lemma handleRename_cases:
  obtains (refused) "effects (snd (handleRename s q pathPort r (w, st))) = effects st"
  | (ran) port pid sto info label where "target s q pathPort port pid" "q_inspect q pid = Inr info"
      "rename_label s r = Some label" "si_store st = Some sto"
proof (cases "\<exists>port pid sto info label. target s q pathPort port pid \<and> q_inspect q pid = Inr info
    \<and> rename_label s r = Some label \<and> si_store st = Some sto")
  case False
  then show thesis
    by (intro refused)
       (auto simp: target_def rename_label_def handleRename_def handleRenameMutation_def Let_def
             split: option.splits sum.splits label_error.splits if_splits)
qed (use ran in blast)

lemma rename_reply_effects:
  assumes "SetLabel (q_store_env q) (PI_Cwd info) (PI_Command info) label (sto, si_fs st) = ((sto', f'), err)"
  shows "effects (snd (rename_reply s q info label sto (w, st))) = effects (st\<lparr>si_store := Some sto', si_fs := f'\<rparr>)"
  using assms by (cases err) (simp_all add: rename_reply_def frames Let_def split: store_error.split)


section \<open>The rows after a rename\<close>

lemma shown_in_rows:
  "l \<in> set ls \<Longrightarrow> row_shown self l \<Longrightarrow> buildOne insp look now l \<in> set (BuildViewModels sch now ls insp look self)"
  by (auto simp: BuildViewModels_eq)

lemma fresh_rows_kept:
  "buildSnapshot s q st = (rows, None) \<Longrightarrow> si_snapshot (snd (writePortsFragment s q (w, st))) = (rows, q_snap_now q)"
  by (simp add: writePortsFragment_def rows_or_cached_def)


section \<open>A concrete rename\<close>

definition rename_request :: request where
  "rename_request = sample_request\<lparr>rq_method := ''POST'', rq_form := Some (\<lambda>k. if k = ''label'' then [''api''] else [])\<rparr>"

lemma sample_rename_label: "rename_label sample_server rename_request = Some ''api''"
proof -
  have "validateLabel ''api'' = None" by code_simp
  then show ?thesis by (simp add: rename_label_def rename_request_def first_value_def)
qed

lemma sample_rename:
  obtains f' where "SetLabel (q_store_env sample_q) (PI_Cwd sample_info) (PI_Command sample_info) ''api''
      (StoreFacts.sample_store, si_fs sample_site) =
    ((labelled sample_env (PI_Cwd sample_info) (PI_Command sample_info) ''api'' StoreFacts.sample_store, f'), None)"
proof -
  have "\<not> 64 < rune_count ''api''" using rune_count_le [of "''api''"] by simp
  then show thesis using that by (simp add: SetLabel_run sample_persist)
qed

lemma sample_row:
  obtains ls l where "lsof_Scan sample_config 7 (h_lsof sample_host) = Inr ls" "l \<in> set ls" "L_PID l = 12" "L_Port l = 40123"
  using sample_resolve by (auto simp: resolvePIDForPort_def find_Some_iff split: sum.splits) (metis nth_mem)



end
