(* ===== verification/ConfigFacts.thy ===== *)
theory ConfigFacts
  imports Config
begin

text \<open>
  The run after the first one: what \<open>Load\<close> generated and wrote to the env file is what it reads
  from there the next time.
\<close>

section \<open>What a run leaves in the env file\<close>

definition hex_char :: "char \<Rightarrow> bool" where
  "hex_char c \<longleftrightarrow> is_digit c \<or> CHR ''a'' \<le> c \<and> c \<le> CHR ''f''"

lemma hex_encode_hex: "list_all hex_char (hex_encode bs)"
proof -
  have "hex_char (hex_digit n)" if "n < 16" for n
    using that by (auto simp: hex_digit_def hex_char_def is_digit_def less_eq_char_def of_char_mod_256)
  moreover have "unat b div 16 < 16" for b :: byte
    using unsigned_less [of b, where ?'a = nat] by simp
  ultimately show ?thesis by (auto simp: hex_encode_def list_all_iff)
qed

text \<open>The map of the env file as \<open>Load\<close> starts with it.\<close>

definition file_env :: "load_env \<Rightarrow> path \<Rightarrow> fs \<Rightarrow> (string \<rightharpoonup> string) option" where
  "file_env env f s = (case cache s f of None \<Rightarrow> Some Map.empty | Some data \<Rightarrow> dotenv_read env data)"

text \<open>The configuration before secrets are generated.\<close>

definition merged_config :: "options \<Rightarrow> load_env \<Rightarrow> (string \<rightharpoonup> string) \<Rightarrow> config option" where
  "merged_config opts env m =
    (let cfg = merge_config opts (env_lookup m (getenv env)) in
     if StateDir cfg = [] then map_option (\<lambda>home. cfg\<lparr>StateDir := path_join [home, ''.port-manager'']\<rparr>) (user_home env)
     else Some cfg)"

lemma Load_eq:
  "Load opts env s =
    (case file_env env (envFile_of opts) s of
       None \<Rightarrow> (s, [], Inl ErrReadEnv)
     | Some m \<Rightarrow>
         (case merged_config opts env m of
            None \<Rightarrow> (s, [], Inl ErrHomeDir)
          | Some cfg \<Rightarrow> load_finish env (envFile_of opts) cfg s))"
  by (auto simp: Load_def envFile_of_def file_env_def merged_config_def Let_def split: option.split)

text \<open>The token and the secret of a returned configuration: given, or generated and in the file.\<close>

lemma load_finish_secrets:
  assumes run: "load_finish env f cfg s = (s', out, Inr cfg')"
    and order: "\<forall>m. mset (persist_order env m) = mset m"
  shows "validate cfg' = None \<and> cfg' = cfg\<lparr>AuthToken := AuthToken cfg', SessionSecret := SessionSecret cfg'\<rparr>
    \<and> (AuthToken cfg \<noteq> [] \<and> AuthToken cfg' = AuthToken cfg
       \<or> list_all hex_char (AuthToken cfg')
         \<and> (\<exists>data. cache s' f = Some data \<and> holds_token data ''AUTH_TOKEN'' (AuthToken cfg')))
    \<and> (SessionSecret cfg \<noteq> [] \<and> SessionSecret cfg' = SessionSecret cfg
       \<or> list_all hex_char (SessionSecret cfg')
         \<and> (\<exists>data. cache s' f = Some data \<and> holds_token data ''SESSION_SECRET'' (SessionSecret cfg')))"
  using run
proof (cases rule: load_finish_cases)
  case (generated cfg1 gen1 cfg2 gen2)
  let ?kv = "persist_order env (gen1 @ gen2)"
  let ?lines = "case cache s f of None \<Rightarrow> [] | Some data \<Rightarrow> split_on CHR 0x0A data"
  have mset: "mset ?kv = mset (gen1 @ gen2)" using order by blast
  note kv = generated_kv [OF generated(1,2), THEN conjunct1]
  have "\<forall>l \<in> set ?lines. CHR 0x0A \<notin> set l" by (auto split: option.splits dest: split_on_no_newline)
  then have holds: "holds_token (rewrite_env ?kv ?lines) k v" if "gm_get (gen1 @ gen2) k = Some v" for k v
    using rewrite_env_holds [OF kv_ok_mset [OF mset kv], of k v] that gm_get_mset [OF mset] gm_ok_mset [OF mset] kv
    by (simp add: kv_ok_def)
  from generated(6) have data: "cache s' f = Some (rewrite_env ?kv ?lines)"
    by (cases rule: persistGenerated_cases) auto
  have cfg: "cfg' = cfg2" using generated(4) by simp
  have tok: "AuthToken cfg \<noteq> [] \<and> AuthToken cfg2 = AuthToken cfg
      \<or> list_all hex_char (AuthToken cfg2) \<and> gm_get (gen1 @ gen2) ''AUTH_TOKEN'' = Some (AuthToken cfg2)"
    using generated(1,2) hex_encode_hex
    by (auto simp: fill_token_def fill_secret_def generateSecret_def split: if_splits option.splits)
  have sec: "SessionSecret cfg \<noteq> [] \<and> SessionSecret cfg2 = SessionSecret cfg
      \<or> list_all hex_char (SessionSecret cfg2) \<and> gm_get (gen1 @ gen2) ''SESSION_SECRET'' = Some (SessionSecret cfg2)"
    using generated(1,2) hex_encode_hex
    by (auto simp: fill_token_def fill_secret_def generateSecret_def split: if_splits option.splits)
  have "cfg2 = cfg\<lparr>AuthToken := AuthToken cfg2, SessionSecret := SessionSecret cfg2\<rparr>"
    using generated(1,2) by (cases cfg) (auto simp: fill_token_def fill_secret_def split: if_splits option.splits)
  then show ?thesis using tok sec holds data generated(5) by (simp only: cfg) blast
qed auto

section \<open>The next run\<close>

lemma merge_config_cong:
  assumes "\<And>k. k \<notin> {''AUTH_TOKEN'', ''SESSION_SECRET''} \<Longrightarrow> look' k = look k"
  shows "merge_config opts look' = (merge_config opts look)\<lparr>
    AuthToken := firstNonEmpty [o_AuthToken opts, look' ''AUTH_TOKEN''],
    SessionSecret := firstNonEmpty [o_SessionSecret opts, look' ''SESSION_SECRET'']\<rparr>"
proof -
  have "look' ''PUBLIC_HOST'' = look ''PUBLIC_HOST''" "look' ''PORT'' = look ''PORT''"
    "look' ''PORT_RANGE'' = look ''PORT_RANGE''" "look' ''KILL_GRACE_MS'' = look ''KILL_GRACE_MS''"
    "look' ''SCANNER'' = look ''SCANNER''" "look' ''STATE_DIR'' = look ''STATE_DIR''"
    "look' ''TRUST_XFF'' = look ''TRUST_XFF''"
    by (rule assms, simp)+
  moreover from this have "lookup_int look' ''PORT'' d = lookup_int look ''PORT'' d"
      "lookup_int look' ''KILL_GRACE_MS'' d = lookup_int look ''KILL_GRACE_MS'' d" for d
    by (simp_all only: lookup_int_def)
  ultimately show ?thesis
    by (cases "o_Port opts") (simp_all add: merge_config_def case_prod_unfold Let_def
      del: firstNonEmpty.simps firstNonZero.simps)
qed

lemma merged_secrets:
  "merged_config opts env m = Some c \<Longrightarrow>
   AuthToken c = firstNonEmpty [o_AuthToken opts, env_lookup m (getenv env) ''AUTH_TOKEN'']
   \<and> SessionSecret c = firstNonEmpty [o_SessionSecret opts, env_lookup m (getenv env) ''SESSION_SECRET'']"
  by (auto simp: merged_config_def Let_def merge_config_def case_prod_unfold simp del: firstNonEmpty.simps split: if_splits)

text \<open>A secret that was given is given again; one that was generated is read from the file.\<close>

lemma secret_again:
  assumes "first \<noteq> [] \<and> v = first \<or> list_all hex_char v \<and> (\<exists>data. cache s f = Some data \<and> holds_token data key v)"
    and "first = firstNonEmpty [opt, env_lookup m osenv key]" and "v \<noteq> []"
    and "env_lookup m osenv key \<noteq> [] \<Longrightarrow> m' key = m key"
    and "\<And>data. cache s f = Some data \<Longrightarrow> holds_token data key v \<Longrightarrow> list_all hex_char v \<Longrightarrow> m' key = Some v"
    and "opt = [] \<or> first = v"
  shows "firstNonEmpty [opt, env_lookup m' osenv key] = v"
  using assms by (auto simp: env_lookup_def split: if_splits option.splits)


text \<open>
  A reader that finds the two generated keys in any env file that is not empty: what godotenv does
  with the file the first run leaves.
\<close>

definition remembering_env :: load_env where
  "remembering_env = quiet_env\<lparr>dotenv_read := \<lambda>data.
     Some [''AUTH_TOKEN'' \<mapsto> AuthToken first_config, ''SESSION_SECRET'' \<mapsto> SessionSecret first_config]\<rparr>"

lemma holds_token_unique:
  assumes "holds_token data key v" and "holds_token data key v'" and "key \<in> {''AUTH_TOKEN'', ''SESSION_SECRET''}"
  shows "v = v'"
proof -
  obtain x where "x = key @ ''='' @ v \<or> x = ''export '' @ key @ ''='' @ v"
      and "x = key @ ''='' @ v' \<or> x = ''export '' @ key @ ''='' @ v'"
    using assms(1,2) unfolding holds_token_def by blast
  then show ?thesis using assms(3) by auto
qed

lemma remembering_load: "Load no_options remembering_env blank_fs = Load no_options quiet_env blank_fs"
proof -
  have fields: "token_random remembering_env = token_random quiet_env" "secret_random remembering_env = secret_random quiet_env"
      "persist_read_ok remembering_env = persist_read_ok quiet_env" "persist_faults remembering_env = persist_faults quiet_env"
      "persist_order remembering_env = persist_order quiet_env" "user_home remembering_env = user_home quiet_env"
      "getenv remembering_env = getenv quiet_env"
    by (simp_all add: remembering_env_def)
  then have "load_finish remembering_env f c s = load_finish quiet_env f c s" for f c s
    by (simp only: load_finish_def)
  with fields show ?thesis by (simp add: Load_def Let_def blank_fs_def split: option.split)
qed


end
