(* ===== verification/Template.thy ===== *)
theory Template
  imports GoStrings
begin

text \<open>
  What the program uses of \<^verbatim>\<open>text/template\<close> and \<^verbatim>\<open>html/template\<close> (Go 1.24): the lexer with its
  trim markers and comments, the parser of fields, \<open>if\<close>, \<open>else if\<close>, \<open>range\<close>, \<open>eq\<close> and \<open>and\<close>,
  the pass that finds the HTML context of every action and gives it its escapers, the escapers, and
  execution. A construct outside this fragment is an error here, and the code treats it as it
  treats the errors of Go.
\<close>

section \<open>Lexing\<close>

datatype item = ItemText string | ItemAction "string list"

text \<open>The white space a trim marker removes.\<close>

definition trimmed :: "char \<Rightarrow> bool" where
  "trimmed c \<longleftrightarrow> c = CHR '' '' \<or> c = CHR 0x0A \<or> c = CHR 0x09 \<or> c = CHR 0x0D"

text \<open>The words of an action. No string constant of the templates has a blank or a brace.\<close>

definition action_words :: "string \<Rightarrow> string list" where
  "action_words s = filter (\<lambda>w. w \<noteq> []) (split_on CHR '' '' s)"

text \<open>
  The lexplace between two bytes, and what is done with a byte. The text and the action being read are
  kept in reverse, as are the items; the lexplace decides alone what is done.
\<close>

datatype lexplace =
    AtText | AtSkip | AtBrace | AtOpen | AtMinus | AtTrim | AtSlash | AtComment | AtStar | AtEnd | AtEndBrace
  | AtEndBlank | AtEndMinus | AtEndTrim | AtAction | AtClose | AtError

datatype deed =
    Pass
  | ToText string
  | TrimText
  | Begin string
  | ToAction string
  | EndAction

definition text_byte :: "char \<Rightarrow> deed \<times> lexplace" where
  "text_byte c = (if c = CHR ''{'' then (Pass, AtBrace) else (ToText [c], AtText))"

text \<open>The first byte of an action, after what was read of it to tell it from a comment.\<close>

definition first_byte :: "string \<Rightarrow> char \<Rightarrow> deed \<times> lexplace" where
  "first_byte read c = (if c = CHR ''}'' then (Begin read, AtClose) else (Begin (c # read), AtAction))"

fun lex_byte :: "lexplace \<Rightarrow> char \<Rightarrow> deed \<times> lexplace" where
  "lex_byte AtText c = text_byte c"
| "lex_byte AtSkip c = (if trimmed c then (Pass, AtSkip) else text_byte c)"
| "lex_byte AtBrace c = (if c = CHR ''{'' then (Pass, AtOpen) else (ToText [c, CHR ''{''], AtText))"
| "lex_byte AtOpen c =
    (if c = CHR ''-'' then (Pass, AtMinus) else if c = CHR ''/'' then (Pass, AtSlash) else first_byte [] c)"
| "lex_byte AtMinus c = (if trimmed c then (TrimText, AtTrim) else first_byte ''-'' c)"
| "lex_byte AtTrim c = (if c = CHR ''/'' then (Pass, AtSlash) else first_byte [] c)"
| "lex_byte AtSlash c = (if c = CHR ''*'' then (Begin [], AtComment) else first_byte ''/'' c)"
| "lex_byte AtComment c = (if c = CHR ''*'' then (Pass, AtStar) else (Pass, AtComment))"
| "lex_byte AtStar c =
    (if c = CHR ''/'' then (Pass, AtEnd) else if c = CHR ''*'' then (Pass, AtStar) else (Pass, AtComment))"
| "lex_byte AtEnd c =
    (if c = CHR ''}'' then (Pass, AtEndBrace) else if trimmed c then (Pass, AtEndBlank) else (Pass, AtError))"
| "lex_byte AtEndBrace c = (if c = CHR ''}'' then (Pass, AtText) else (Pass, AtError))"
| "lex_byte AtEndBlank c = (if c = CHR ''-'' then (Pass, AtEndMinus) else (Pass, AtError))"
| "lex_byte AtEndMinus c = (if c = CHR ''}'' then (Pass, AtEndTrim) else (Pass, AtError))"
| "lex_byte AtEndTrim c = (if c = CHR ''}'' then (Pass, AtSkip) else (Pass, AtError))"
| "lex_byte AtAction c = (if c = CHR ''}'' then (Pass, AtClose) else (ToAction [c], AtAction))"
| "lex_byte AtClose c = (if c = CHR ''}'' then (EndAction, AtText) else (ToAction [c, CHR ''}''], AtAction))"
| "lex_byte AtError c = (Pass, AtError)"

datatype lexing = Lexing (lx_items: "item list") (lx_text: string) (lx_action: string) (lx_place: lexplace)

definition item_text :: "string \<Rightarrow> item list" where
  "item_text b = (if b = [] then [] else [ItemText (rev b)])"

text \<open>A blank and a minus before the closing delimiter trim the text that follows.\<close>

definition trims_after :: "string \<Rightarrow> bool" where
  "trims_after a = (case a of m # s # _ \<Rightarrow> m = CHR ''-'' \<and> trimmed s | _ \<Rightarrow> False)"

definition item_action :: "string \<Rightarrow> item" where
  "item_action a = ItemAction (action_words (rev (if trims_after a then drop 2 a else a)))"

fun lex_do :: "deed \<times> lexplace \<Rightarrow> item list \<Rightarrow> string \<Rightarrow> string \<Rightarrow> lexing" where
  "lex_do (Pass, p) is b a = Lexing is b a p"
| "lex_do (ToText r, p) is b a = Lexing is (r @ b) a p"
| "lex_do (TrimText, p) is b a = Lexing is (dropWhile trimmed b) a p"
| "lex_do (Begin r, p) is b a = Lexing (item_text b @ is) [] r p"
| "lex_do (ToAction r, p) is b a = Lexing is b (r @ a) p"
| "lex_do (EndAction, p) is b a = Lexing (item_action a # is) [] [] (if trims_after a then AtSkip else p)"

fun lex_step :: "lexing \<Rightarrow> char \<Rightarrow> lexing" where
  "lex_step (Lexing is b a p) c = lex_do (lex_byte p c) is b a"

fun lex_run :: "lexing \<Rightarrow> string \<Rightarrow> lexing" where
  "lex_run st [] = st"
| "lex_run st (c # cs) = lex_run (lex_step st c) cs"

text \<open>A text may end in one brace; nothing else may be left open at the end.\<close>

definition lex :: "string \<Rightarrow> item list option" where
  "lex text =
    (case lex_run (Lexing [] [] [] AtText) text of
       Lexing is b a p \<Rightarrow>
         if p = AtText then Some (rev (item_text b @ is))
         else if p = AtBrace then Some (rev (item_text (CHR ''{'' # b) @ is))
         else if p = AtSkip then Some (rev is)
         else None)"

section \<open>Parsing\<close>

text \<open>An operand of an action, and the escapers the HTML pass gives to a printed one.\<close>

datatype expr = Dot | Field string | Eq string string | And string string

datatype escaper = EscHtml | EscAttr | EscUrlFilter | EscUrlNormal | EscJsStr

datatype tnode =
    TText string
  | TPrint "escaper list" expr
  | TIf expr "tnode list" "tnode list"
  | TRange expr "tnode list"

definition field_name :: "string \<Rightarrow> string option" where
  "field_name w = (case w of c # f \<Rightarrow> if c = CHR ''.'' \<and> f \<noteq> [] then Some f else None | [] \<Rightarrow> None)"

definition string_constant :: "string \<Rightarrow> string option" where
  "string_constant w =
    (case w of
       [] \<Rightarrow> None
     | c # s \<Rightarrow> if c = CHR 0x22 \<and> s \<noteq> [] \<and> last s = CHR 0x22 then Some (butlast s) else None)"

definition both :: "('a \<Rightarrow> 'b \<Rightarrow> 'c) \<Rightarrow> 'a option \<Rightarrow> 'b option \<Rightarrow> 'c option" where
  "both f x y =
    (case x of None \<Rightarrow> None | Some a \<Rightarrow> (case y of None \<Rightarrow> None | Some b \<Rightarrow> Some (f a b)))"

definition parse_expr :: "string list \<Rightarrow> expr option" where
  "parse_expr ws =
    (case ws of
       [w] \<Rightarrow> if w = ''.'' then Some Dot else map_option Field (field_name w)
     | [f, a, b] \<Rightarrow>
         if f = ''eq'' then both Eq (field_name a) (string_constant b)
         else if f = ''and'' then both And (field_name a) (field_name b)
         else None
     | _ \<Rightarrow> None)"

text \<open>
  The blocks around the nodes being read, the nodes of each in reverse. A block that an \<open>else if\<close>
  opened is chained: the \<open>end\<close> that closes it closes the block around it too.
\<close>

datatype frame =
    InIf bool expr "tnode list"
  | InElse bool expr "tnode list" "tnode list"
  | InRange expr "tnode list"

fun close_block :: "frame list \<Rightarrow> tnode list \<Rightarrow> (frame list \<times> tnode list) option" where
  "close_block [] cur = None"
| "close_block (InIf chained e outer # st) cur =
    (let ns = TIf e (rev cur) [] # outer in if chained then close_block st ns else Some (st, ns))"
| "close_block (InElse chained e outer yes # st) cur =
    (let ns = TIf e (rev yes) (rev cur) # outer in if chained then close_block st ns else Some (st, ns))"
| "close_block (InRange e outer # st) cur = Some (st, TRange e (rev cur) # outer)"

definition open_else :: "frame list \<Rightarrow> tnode list \<Rightarrow> frame list option" where
  "open_else st cur =
    (case st of
       [] \<Rightarrow> None
     | f # st' \<Rightarrow> (case f of InIf chained e outer \<Rightarrow> Some (InElse chained e outer cur # st') | _ \<Rightarrow> None))"

definition parse_action :: "string list \<Rightarrow> frame list \<Rightarrow> tnode list \<Rightarrow> (frame list \<times> tnode list) option" where
  "parse_action ws st cur =
    (case ws of
       [] \<Rightarrow> None
     | k # e \<Rightarrow>
         if k = ''if'' then map_option (\<lambda>x. (InIf False x cur # st, [])) (parse_expr e)
         else if k = ''range'' then map_option (\<lambda>x. (InRange x cur # st, [])) (parse_expr e)
         else if k = ''end'' then (if e = [] then close_block st cur else None)
         else if k = ''else'' then
           (case e of
              [] \<Rightarrow> map_option (\<lambda>fs. (fs, [])) (open_else st cur)
            | i # c \<Rightarrow>
                if i = ''if'' then both (\<lambda>fs x. (InIf True x [] # fs, [])) (open_else st cur) (parse_expr c)
                else None)
         else map_option (\<lambda>x. (st, TPrint [] x # cur)) (parse_expr ws))"

fun parse_items :: "frame list \<Rightarrow> tnode list \<Rightarrow> item list \<Rightarrow> tnode list option" where
  "parse_items st cur [] = (if st = [] then Some (rev cur) else None)"
| "parse_items st cur (i # is) =
    (case i of
       ItemText t \<Rightarrow> parse_items st (TText t # cur) is
     | ItemAction ws \<Rightarrow>
         (case parse_action ws st cur of None \<Rightarrow> None | Some (st', cur') \<Rightarrow> parse_items st' cur' is))"

definition parse_template :: "string \<Rightarrow> tnode list option" where
  "parse_template text = (case lex text of None \<Rightarrow> None | Some is \<Rightarrow> parse_items [] [] is)"

section \<open>The HTML context of an action\<close>

text \<open>
  The contexts that \<^verbatim>\<open>html/template\<close> tells apart: text, a tag with its element, an attribute and
  the kind of its value, the content of an element whose text is not markup (inside a string of a
  script or outside), a comment, and the places between. Bytes of a comment are not part of the page.
\<close>

datatype elem = NoElem | Script | Style | Textarea | Title

datatype attr = APlain | AURL | ACSS | AJS | ASrcset | AHTML | AScriptType

datatype ctx =
    CText
  | CLess
  | CLessSlash
  | CBang string
  | CDash
  | CComment nat
  | CName bool string
  | CTag elem
  | CAttrName elem string
  | CAfterName elem attr
  | CBefore elem attr
  | CAttr elem attr char bool string
  | CRaw elem bool string
  | CBad

text \<open>Letters and digits by the bits of their codes.\<close>

fun is_letter :: "char \<Rightarrow> bool" where
  "is_letter (Char b0 b1 b2 b3 b4 b5 b6 b7) \<longleftrightarrow>
    \<not> b7 \<and> b6 \<and> (b0 \<or> b1 \<or> b2 \<or> b3 \<or> b4) \<and> \<not> (b4 \<and> b3 \<and> (b2 \<or> b1 \<and> b0))"

fun is_numeral :: "char \<Rightarrow> bool" where
  "is_numeral (Char b0 b1 b2 b3 b4 b5 b6 b7) \<longleftrightarrow> \<not> b7 \<and> \<not> b6 \<and> b5 \<and> b4 \<and> \<not> (b3 \<and> (b2 \<or> b1))"

fun set_bit5 :: "char \<Rightarrow> char" where
  "set_bit5 (Char b0 b1 b2 b3 b4 b5 b6 b7) = Char b0 b1 b2 b3 b4 True b6 b7"

definition lower :: "char \<Rightarrow> char" where
  "lower c = (if is_letter c then set_bit5 c else c)"

definition html_space :: "char \<Rightarrow> bool" where
  "html_space c \<longleftrightarrow> c = CHR '' '' \<or> c = CHR 0x0A \<or> c = CHR 0x09 \<or> c = CHR 0x0C \<or> c = CHR 0x0D"

definition elem_of :: "string \<Rightarrow> elem" where
  "elem_of n =
    (if n = ''script'' then Script else if n = ''style'' then Style
     else if n = ''textarea'' then Textarea else if n = ''title'' then Title else NoElem)"

definition end_marker :: "elem \<Rightarrow> string" where
  "end_marker e =
    (case e of
       NoElem \<Rightarrow> [] | Script \<Rightarrow> ''</script'' | Style \<Rightarrow> ''</style''
     | Textarea \<Rightarrow> ''</textarea'' | Title \<Rightarrow> ''</title'')"

fun is_prefix :: "string \<Rightarrow> string \<Rightarrow> bool" where
  "is_prefix [] s = True"
| "is_prefix (p # ps) [] = False"
| "is_prefix (p # ps) (c # cs) = (p = c \<and> is_prefix ps cs)"

fun is_infix :: "string \<Rightarrow> string \<Rightarrow> bool" where
  "is_infix p [] = (p = [])"
| "is_infix p (c # cs) = (is_prefix p (c # cs) \<or> is_infix p cs)"

text \<open>\<open>attrType\<close>, with the table of attributes, the prefixes and the heuristics for other names.\<close>

definition url_attrs :: "string list" where
  "url_attrs = [''action'', ''archive'', ''background'', ''cite'', ''classid'', ''codebase'', ''data'', ''formaction'',
     ''href'', ''icon'', ''longdesc'', ''manifest'', ''poster'', ''profile'', ''src'', ''usemap'', ''xmlns'']"

definition base_attr :: "string \<Rightarrow> attr" where
  "base_attr n =
    (if List.member url_attrs n then AURL
     else if n = ''style'' then ACSS
     else if n = ''srcset'' then ASrcset
     else if n = ''srcdoc'' then AHTML
     else if n = ''srclang'' then APlain
     else if is_prefix ''on'' n then AJS
     else if is_infix ''src'' n \<or> is_infix ''uri'' n \<or> is_infix ''url'' n then AURL
     else APlain)"

definition after_data :: "string \<Rightarrow> string" where
  "after_data n = (if is_prefix ''data-'' n then drop 5 n else n)"

definition attr_of :: "elem \<Rightarrow> string \<Rightarrow> attr" where
  "attr_of e n =
    (if e = Script \<and> n = ''type'' then AScriptType
     else if is_prefix ''xmlns:'' n then AURL
     else base_attr (after_data n))"

definition js_types :: "string list" where
  "js_types = [''application/ecmascript'', ''application/javascript'', ''application/json'', ''application/ld+json'',
     ''application/x-ecmascript'', ''application/x-javascript'', ''module'', ''text/ecmascript'', ''text/javascript'',
     ''text/x-ecmascript'', ''text/x-javascript'']"

definition content_of :: "elem \<Rightarrow> ctx" where
  "content_of e = (if e = NoElem then CText else CRaw e False [])"

definition in_tag :: "elem \<Rightarrow> char \<Rightarrow> ctx" where
  "in_tag e c =
    (if c = CHR ''>'' then content_of e
     else if html_space c then CTag e
     else if c = CHR ''='' \<or> c = CHR 0x22 \<or> c = CHR 0x27 \<or> c = CHR ''<'' then CBad
     else CAttrName e [lower c])"

text \<open>A script: a double quote opens and closes a string; what else may start a literal is refused.\<close>

definition in_raw :: "elem \<Rightarrow> bool \<Rightarrow> char \<Rightarrow> ctx" where
  "in_raw e quoted c =
    (if c = CHR ''<'' then CRaw e quoted ''<''
     else if e \<noteq> Script then CRaw e quoted []
     else if c = CHR 0x22 then CRaw e (\<not> quoted) []
     else if quoted \<and> c = CHR 0x5C then CBad
     else if \<not> quoted \<and> (c = CHR 0x27 \<or> c = CHR 0x60 \<or> c = CHR ''/'' \<or> c = CHR ''#'' \<or> c = CHR ''-'') then CBad
     else CRaw e quoted [])"

text \<open>One byte of the text: what of the page is settled by it, and the context after it.\<close>

fun html_byte :: "ctx \<Rightarrow> char \<Rightarrow> string \<times> ctx" where
  "html_byte CText c = (if c = CHR ''<'' then ([], CLess) else ([c], CText))"
| "html_byte CLess c =
    (if is_letter c then ([CHR ''<'', c], CName False [lower c])
     else if c = CHR ''/'' then ([], CLessSlash)
     else if c = CHR ''!'' then ([], CBang [])
     else if c = CHR ''<'' then (''&lt;'', CLess)
     else (''&lt;'' @ [c], CText))"
| "html_byte CLessSlash c = (if is_letter c then (''</'' @ [c], CName True [lower c]) else ([], CBad))"
| "html_byte (CBang a) c =
    (if a = [] \<and> c = CHR ''-'' then ([], CDash)
     else if map lower (a @ [c]) = ''doctype'' then (''<!'' @ a @ [c], CText)
     else if is_prefix (map lower (a @ [c])) ''doctype'' then ([], CBang (a @ [c]))
     else ([], CBad))"
| "html_byte CDash c = (if c = CHR ''-'' then ([], CComment 0) else ([], CBad))"
| "html_byte (CComment n) c =
    (if c = CHR ''-'' then ([], CComment (if n = 0 then 1 else 2))
     else if c = CHR ''>'' \<and> n = 2 then ([], CText)
     else ([], CComment 0))"
| "html_byte (CName closing n) c =
    (if is_letter c \<or> is_numeral c \<or> c = CHR '':'' \<or> c = CHR ''-'' then ([c], CName closing (n @ [lower c]))
     else ([c], in_tag (if closing then NoElem else elem_of n) c))"
| "html_byte (CTag e) c = ([c], in_tag e c)"
| "html_byte (CAttrName e n) c =
    (if c = CHR ''='' then ([c], CBefore e (attr_of e n))
     else if html_space c then ([c], CAfterName e (attr_of e n))
     else if c = CHR ''>'' then ([c], content_of e)
     else if c = CHR 0x22 \<or> c = CHR 0x27 \<or> c = CHR ''<'' then ([c], CBad)
     else ([c], CAttrName e (n @ [lower c])))"
| "html_byte (CAfterName e a) c =
    (if html_space c then ([c], CAfterName e a)
     else if c = CHR ''='' then ([c], CBefore e a)
     else ([c], in_tag e c))"
| "html_byte (CBefore e a) c =
    (if html_space c then ([c], CBefore e a)
     else if c = CHR 0x22 \<or> c = CHR 0x27 then ([c], CAttr e a c True [])
     else ([c], CBad))"
| "html_byte (CAttr e a d fresh v) c =
    (if c = d then ([c], CTag (if a = AScriptType \<and> \<not> List.member js_types v then NoElem else e))
     else ([c], CAttr e a d False (if a = AScriptType then v @ [lower c] else v)))"
| "html_byte (CRaw e quoted seen) c =
    (if seen = end_marker e \<and> (html_space c \<or> c = CHR ''/'' \<or> c = CHR ''>'') then ([c], in_tag NoElem c)
     else if seen \<noteq> [] \<and> is_prefix (seen @ [lower c]) (end_marker e) then ([c], CRaw e quoted (seen @ [lower c]))
     else ([c], in_raw e quoted c))"
| "html_byte CBad c = ([c], CBad)"

datatype passing = Passing string ctx

fun html_put :: "string \<Rightarrow> string \<times> ctx \<Rightarrow> passing" where
  "html_put b (r, c) = Passing (rev r @ b) c"

fun html_step :: "passing \<Rightarrow> char \<Rightarrow> passing" where
  "html_step (Passing b c) x = html_put b (html_byte c x)"

fun html_run :: "passing \<Rightarrow> string \<Rightarrow> passing" where
  "html_run p [] = p"
| "html_run p (x # xs) = html_run (html_step p x) xs"

text \<open>A text may not stop inside a name or a delimiter.\<close>

definition settled :: "ctx \<Rightarrow> bool" where
  "settled c =
    (case c of
       CLess \<Rightarrow> False | CLessSlash \<Rightarrow> False | CBang _ \<Rightarrow> False | CDash \<Rightarrow> False | CName _ _ \<Rightarrow> False
     | CBad \<Rightarrow> False | _ \<Rightarrow> True)"

text \<open>The escapers of a printed value; a URL attribute takes a value only at its start.\<close>

definition escapers_at :: "ctx \<Rightarrow> (escaper list \<times> ctx) option" where
  "escapers_at c =
    (case c of
       CText \<Rightarrow> Some ([EscHtml], c)
     | CAttr e a d fresh v \<Rightarrow>
         if a = APlain then Some ([EscAttr], CAttr e a d False v)
         else if a = AURL \<and> fresh then Some ([EscUrlFilter, EscUrlNormal, EscAttr], CAttr e a d False v)
         else None
     | CRaw e quoted seen \<Rightarrow>
         if e = Script \<and> quoted \<and> seen = [] then Some ([EscJsStr], c)
         else if (e = Title \<or> e = Textarea) \<and> seen = [] then Some ([EscHtml], c)
         else None
     | _ \<Rightarrow> None)"

fun add_node :: "tnode \<Rightarrow> (tnode list \<times> ctx) option \<Rightarrow> (tnode list \<times> ctx) option" where
  "add_node n None = None"
| "add_node n (Some (ns, c)) = Some (n # ns, c)"

fun escape_nodes :: "ctx \<Rightarrow> tnode list \<Rightarrow> (tnode list \<times> ctx) option" where
  "escape_nodes c [] = Some ([], c)"
| "escape_nodes c (TText t # ns) =
    (case html_run (Passing [] c) t of
       Passing b c' \<Rightarrow> if settled c' then add_node (TText (rev b)) (escape_nodes c' ns) else None)"
| "escape_nodes c (TPrint es e # ns) =
    (case escapers_at c of
       None \<Rightarrow> None
     | Some (es', c') \<Rightarrow> add_node (TPrint es' e) (escape_nodes c' ns))"
| "escape_nodes c (TIf e yes no # ns) =
    (case escape_nodes c yes of
       None \<Rightarrow> None
     | Some (yes', c1) \<Rightarrow>
         (case escape_nodes c no of
            None \<Rightarrow> None
          | Some (no', c2) \<Rightarrow> if c1 = c2 then add_node (TIf e yes' no') (escape_nodes c1 ns) else None))"
| "escape_nodes c (TRange e body # ns) =
    (case escape_nodes c body of
       None \<Rightarrow> None
     | Some (body', c') \<Rightarrow> if c' = c then add_node (TRange e body') (escape_nodes c ns) else None)"

text \<open>A page must end in text.\<close>

definition escape_template :: "tnode list \<Rightarrow> tnode list option" where
  "escape_template ns =
    (case escape_nodes CText ns of
       None \<Rightarrow> None
     | Some (ns', c) \<Rightarrow> if c = CText then Some ns' else None)"

section \<open>The escapers\<close>

definition html_escape_char :: "char \<Rightarrow> string" where
  "html_escape_char c =
    (if c = CHR 0x00 then [CHR 0xEF, CHR 0xBF, CHR 0xBD]
     else if c = CHR 0x22 then ''&#34;''
     else if c = CHR ''&'' then ''&amp;''
     else if c = CHR 0x27 then ''&#39;''
     else if c = CHR ''+'' then ''&#43;''
     else if c = CHR ''<'' then ''&lt;''
     else if c = CHR ''>'' then ''&gt;''
     else [c])"

definition html_escaper :: "string \<Rightarrow> string" where
  "html_escaper s = concat (map html_escape_char s)"

text \<open>The runes that the attribute escaper writes as numbers; a byte that is not UTF-8 is U+FFFD.\<close>

definition bad_rune :: "rune \<Rightarrow> bool" where
  "bad_rune r \<longleftrightarrow> 0xFDD0 \<le> r \<and> r \<le> 0xFDEF \<or> 0xFFF0 \<le> r \<and> r \<le> 0xFFFF"

definition hex4 :: "nat \<Rightarrow> string" where
  "hex4 n = [hex_digit (n div 4096), hex_digit (n div 256 mod 16), hex_digit (n div 16 mod 16), hex_digit (n mod 16)]"

definition attr_piece :: "rune \<Rightarrow> string \<Rightarrow> string" where
  "attr_piece r piece = (if bad_rune r then ''&#x'' @ hex4 r @ '';'' else html_escaper piece)"

text \<open>The rest of a string after its first rune is shorter.\<close>

lemma rune_shorter: "s \<noteq> [] \<Longrightarrow> (drop (snd (decode_rune (codes s))) s, s) \<in> measure length"
  using decode_rune_width [of "codes s"] by (simp add: codes_def)

function attr_escaper :: "string \<Rightarrow> string" where
  "attr_escaper s =
    (if s = [] then []
     else attr_piece (fst (decode_rune (codes s))) (take (snd (decode_rune (codes s))) s)
          @ attr_escaper (drop (snd (decode_rune (codes s))) s))"
  by pat_completeness auto
termination
  by (relation "measure length") (simp, rule rune_shorter)

declare attr_escaper.simps [simp del]

text \<open>\<open>urlFilter\<close> and \<open>urlNormalizer\<close>.\<close>

definition safe_url :: "string \<Rightarrow> bool" where
  "safe_url s =
    (case index_byte CHR '':'' s of
       None \<Rightarrow> True
     | Some i \<Rightarrow>
         CHR ''/'' \<in> set (take i s)
         \<or> equal_fold (take i s) ''http'' \<or> equal_fold (take i s) ''https'' \<or> equal_fold (take i s) ''mailto'')"

definition url_filter :: "string \<Rightarrow> string" where
  "url_filter s = (if safe_url s then s else ''#ZgotmplZ'')"

definition is_hex :: "char \<Rightarrow> bool" where
  "is_hex c \<longleftrightarrow> c \<in> set ''0123456789abcdefABCDEF''"

definition url_kept :: "char \<Rightarrow> bool" where
  "url_kept c \<longleftrightarrow> c \<in> set ''!#$&*+,/:;=?@[]-._~'' \<or> is_letter c \<or> is_numeral c"

fun url_normalizer :: "string \<Rightarrow> string" where
  "url_normalizer [] = []"
| "url_normalizer (c # cs) =
    (if url_kept c then c # url_normalizer cs
     else if c = CHR ''%'' \<and> (case cs of a # b # _ \<Rightarrow> is_hex a \<and> is_hex b | _ \<Rightarrow> False) then c # url_normalizer cs
     else CHR ''%'' # hex_digit (of_char c div 16) # hex_digit (of_char c mod 16) # url_normalizer cs)"

text \<open>\<open>jsStrEscaper\<close>: control bytes, the bytes that could end the string or the script, U+2028, U+2029.\<close>

definition js_escape_char :: "char \<Rightarrow> string" where
  "js_escape_char c =
    (if c = CHR 0x09 then [CHR 0x5C, CHR ''t'']
     else if c = CHR 0x0A then [CHR 0x5C, CHR ''n'']
     else if c = CHR 0x0C then [CHR 0x5C, CHR ''f'']
     else if c = CHR 0x0D then [CHR 0x5C, CHR ''r'']
     else if c = CHR ''/'' then [CHR 0x5C, CHR ''/'']
     else if c = CHR 0x5C then [CHR 0x5C, CHR 0x5C]
     else if of_char c < (32 :: nat) \<or> c = CHR 0x22 \<or> c = CHR 0x60 \<or> c = CHR ''&'' \<or> c = CHR 0x27
             \<or> c = CHR ''+'' \<or> c = CHR ''<'' \<or> c = CHR ''>''
     then CHR 0x5C # CHR ''u'' # hex4 (of_char c)
     else [c])"

fun js_str_escaper :: "string \<Rightarrow> string" where
  "js_str_escaper [] = []"
| "js_str_escaper (c # cs) =
    (if c = CHR 0xE2 \<and> take 2 cs = [CHR 0x80, CHR 0xA8] then CHR 0x5C # ''u2028'' @ js_str_escaper (drop 2 cs)
     else if c = CHR 0xE2 \<and> take 2 cs = [CHR 0x80, CHR 0xA9] then CHR 0x5C # ''u2029'' @ js_str_escaper (drop 2 cs)
     else js_escape_char c @ js_str_escaper cs)"

fun escaped :: "escaper \<Rightarrow> string \<Rightarrow> string" where
  "escaped EscHtml s = html_escaper s"
| "escaped EscAttr s = attr_escaper s"
| "escaped EscUrlFilter s = url_filter s"
| "escaped EscUrlNormal s = url_normalizer s"
| "escaped EscJsStr s = js_str_escaper s"

definition escape_chain :: "escaper list \<Rightarrow> string \<Rightarrow> string" where
  "escape_chain es s = fold escaped es s"

section \<open>Execution\<close>

text \<open>The data of a template: a struct is the list of its fields.\<close>

datatype val = VStr string | VInt int | VBool bool | VRec "(string \<times> val) list" | VList "val list"

definition truth :: "val \<Rightarrow> bool" where
  "truth v =
    (case v of
       VStr s \<Rightarrow> s \<noteq> [] | VInt i \<Rightarrow> i \<noteq> 0 | VBool b \<Rightarrow> b | VRec _ \<Rightarrow> True | VList xs \<Rightarrow> xs \<noteq> [])"

definition field_of :: "val \<Rightarrow> string \<Rightarrow> val option" where
  "field_of v f = (case v of VRec fs \<Rightarrow> map_of fs f | _ \<Rightarrow> None)"

fun eval_expr :: "val \<Rightarrow> expr \<Rightarrow> val option" where
  "eval_expr v Dot = Some v"
| "eval_expr v (Field f) = field_of v f"
| "eval_expr v (Eq f s) = (case field_of v f of Some (VStr t) \<Rightarrow> Some (VBool (t = s)) | _ \<Rightarrow> None)"
| "eval_expr v (And f g) =
    (case field_of v f of None \<Rightarrow> None | Some x \<Rightarrow> if truth x then field_of v g else Some x)"

text \<open>Only strings, integers and booleans are printed.\<close>

definition printed :: "val \<Rightarrow> string option" where
  "printed v =
    (case v of
       VStr s \<Rightarrow> Some s | VInt i \<Rightarrow> Some (itoa i) | VBool b \<Rightarrow> Some (if b then ''true'' else ''false'')
     | VRec _ \<Rightarrow> None | VList _ \<Rightarrow> None)"

definition append_opt :: "'a list option \<Rightarrow> 'a list option \<Rightarrow> 'a list option" where
  "append_opt x y = both (@) x y"

lemma append_opt_Some: "append_opt x y = Some z \<longleftrightarrow> (\<exists>a b. x = Some a \<and> y = Some b \<and> z = a @ b)"
  by (auto simp: append_opt_def both_def split: option.splits)

fun concat_opt :: "'a list option list \<Rightarrow> 'a list option" where
  "concat_opt [] = Some []"
| "concat_opt (x # xs) = append_opt x (concat_opt xs)"

text \<open>
  Execution writes texts and printed values; how the two are written is an argument. The first
  error of a field or a type ends it.
\<close>

fun exec_nodes :: "(escaper list \<Rightarrow> string \<Rightarrow> 'a list) \<Rightarrow> (string \<Rightarrow> 'a list) \<Rightarrow> val \<Rightarrow> tnode list \<Rightarrow> 'a list option" where
  "exec_nodes put lit v [] = Some []"
| "exec_nodes put lit v (TText t # ns) = append_opt (Some (lit t)) (exec_nodes put lit v ns)"
| "exec_nodes put lit v (TPrint es e # ns) =
    append_opt (case eval_expr v e of None \<Rightarrow> None | Some x \<Rightarrow> map_option (put es) (printed x)) (exec_nodes put lit v ns)"
| "exec_nodes put lit v (TIf e yes no # ns) =
    append_opt
      (case eval_expr v e of
         None \<Rightarrow> None
       | Some x \<Rightarrow> if truth x then exec_nodes put lit v yes else exec_nodes put lit v no)
      (exec_nodes put lit v ns)"
| "exec_nodes put lit v (TRange e body # ns) =
    append_opt
      (case eval_expr v e of
         Some (VList xs) \<Rightarrow> concat_opt (map (\<lambda>x. exec_nodes put lit x body) xs)
       | _ \<Rightarrow> None)
      (exec_nodes put lit v ns)"

lemma exec_append:
  "exec_nodes put lit v (xs @ ys) = append_opt (exec_nodes put lit v xs) (exec_nodes put lit v ys)"
  by (induction put lit v xs rule: exec_nodes.induct)
     (auto simp: append_opt_def both_def split: option.splits)

text \<open>\<open>Template.Execute\<close>: the escaping pass comes with the first execution, and its error with it.\<close>

definition execute :: "tnode list \<Rightarrow> val \<Rightarrow> string option" where
  "execute ns v =
    (case escape_template ns of
       None \<Rightarrow> None
     | Some es \<Rightarrow> exec_nodes escape_chain (\<lambda>t. t) v es)"

end
