(* ===== verification/Pages.thy ===== *)
theory Pages
  imports Server Template
begin

text \<open>
  \<^verbatim>\<open>internal/server/render.go\<close>, \<open>RenderPortsFragment\<close> of \<^verbatim>\<open>testhelpers.go\<close> and the templates of
  \<^verbatim>\<open>web/templates\<close> that \<^verbatim>\<open>web/web.go\<close> embeds: the files byte by byte, the registry that is built of
  them when the package is initialised, the data of each page as the templates see it, and the
  execution of a template into a buffer.
\<close>

section \<open>The embedded files\<close>

text \<open>The characters of the files that are not ASCII, in UTF-8.\<close>

definition em_dash :: string where "em_dash = [CHR 0xE2, CHR 0x80, CHR 0x94]"
definition copy_sign :: string where "copy_sign = [CHR 0xE2, CHR 0x8E, CHR 0x98]"
definition middle_dot :: string where "middle_dot = [CHR 0xC2, CHR 0xB7]"
definition play_sign :: string where "play_sign = [CHR 0xE2, CHR 0x96, CHR 0xB6]"
definition en_dash :: string where "en_dash = [CHR 0xE2, CHR 0x80, CHR 0x93]"
definition ellipsis :: string where "ellipsis = [CHR 0xE2, CHR 0x80, CHR 0xA6]"
definition right_arrow :: string where "right_arrow = [CHR 0xE2, CHR 0x86, CHR 0x92]"

definition text_lines :: "string list \<Rightarrow> string" where
  "text_lines ls = concat (map (\<lambda>l. l @ [CHR 0x0A]) ls)"

definition ports_html :: string where
  \<open>ports_html = text_lines
   [''{{- /* Desktop table rows '' @ em_dash @ '' primary swap target (#ports-body). */ -}}'',
    ''{{range .}}'',
    ''<tr {{if .Self}}class="self"{{else if .Remembered}}class="restart-pending"{{end}} data-port="{{.Port}}" data-pid="{{.PID}}" data-cwd="{{.Cwd}}">'',
    ''  <td class="port">{{if .Port}}{{.Port}}{{else}}'' @ em_dash @ ''{{end}}</td>'',
    ''  <td class="label">{{.Label}}</td>'',
    ''  <td class="cmd">{{.Cmd}}</td>'',
    ''  <td class="cwd">{{.Cwd}}{{if .Cwd}}<span class="copy" title="copy cwd" data-copy-cwd="{{.Cwd}}">'' @ copy_sign @ ''</span>{{end}}</td>'',
    ''  <td class="up">{{.Uptime}}</td>'',
    ''  <td class="badges">'',
    ''    {{- if eq .Source "captured"}}<span class="cap">captured</span>'',
    ''    {{- else if .Self}}<span class="self">self</span>'',
    ''    {{- else if .Remembered}}<span>remembered</span>'',
    ''    {{- else}}<span class="ext">external</span>'',
    ''    {{- end}}'',
    ''  </td>'',
    ''  <td class="actions">'',
    ''    {{- if .Disabled}}'',
    ''    <button class="disabled" type="button">visit</button>'',
    ''    <button type="button" data-copy-url="{{.Port}}">copy url</button>'',
    ''    <button class="disabled" type="button">rename</button>'',
    ''    <button class="disabled" type="button">restart</button>'',
    ''    <button class="kill disabled" type="button" title="cannot kill self">kill</button>'',
    ''    {{- else}}'',
    ''    <button type="button" data-visit="{{.Port}}">visit</button>'',
    ''    <button type="button" data-copy-url="{{.Port}}">copy url</button>'',
    ''    <button type="button" data-rename="{{.Port}}" data-cwd="{{.Cwd}}" data-label="{{.Label}}">rename</button>'',
    ''    {{- if and .Remembered .RememberedID}}'',
    ''    <button type="button" class="restart-ready" data-restart="{{.RememberedID}}">restart</button>'',
    ''    {{- else}}'',
    ''    <button type="button" class="disabled">restart</button>'',
    ''    {{- end}}'',
    ''    <button type="button" class="kill" data-kill="{{.Port}}" data-pid="{{.PID}}" data-cmd="{{.Cmd}}" data-cwd="{{.Cwd}}" data-label="{{.Label}}">kill</button>'',
    ''    {{- end}}'',
    ''  </td>'',
    ''</tr>'',
    ''{{end -}}'',
    '''',
    ''{{- /* Mobile cards '' @ em_dash @ '' out-of-band swap into the #rows-mobile container.'',
    ''       Wrapped in <template> so HTML5 foster-parenting doesn't hoist the'',
    ''       <div> subtree out of <tbody> (which is the primary swap target).'',
    ''       htmx 2.x walks template.content looking for [hx-swap-oob] and'',
    ''       performs the swap against the live #rows-mobile in <main>. */ -}}'',
    ''<template>'',
    ''<div id="rows-mobile" class="cards" hx-swap-oob="true">'',
    ''{{range .}}'',
    ''<div class="card{{if .Self}} self{{else if .Remembered}} restart-pending{{end}}" data-port="{{.Port}}" data-pid="{{.PID}}" data-cwd="{{.Cwd}}">'',
    ''  <div class="head">'',
    ''    <span class="port">{{if .Port}}{{.Port}}{{else}}'' @ em_dash @ ''{{end}}</span>'',
    ''    {{- if .Label}}<span class="label-inline"{{if .Self}} style="color:var(--danger)"{{end}}>{{.Label}}</span>{{end}}'',
    ''    {{- if eq .Source "captured"}}<span class="badge cap">captured</span>'',
    ''    {{- else if .Self}}<span class="badge self">self</span>'',
    ''    {{- else if .Remembered}}<span class="badge">remembered</span>'',
    ''    {{- else}}<span class="badge ext">external</span>'',
    ''    {{- end}}'',
    ''    <span class="up">{{.Uptime}}</span>'',
    ''  </div>'',
    ''  <div class="cmd">{{.Cmd}}</div>'',
    ''  <div class="cwd">{{.Cwd}}</div>'',
    ''  <div class="card-actions">'',
    ''    {{- if .Disabled}}'',
    ''    <button class="disabled" type="button">visit</button>'',
    ''    <button type="button" data-copy-url="{{.Port}}">copy url</button>'',
    ''    <button type="button" data-copy-cwd="{{.Cwd}}">copy cwd</button>'',
    ''    <button class="disabled" type="button">rename</button>'',
    ''    <button class="disabled" type="button">restart</button>'',
    ''    <button class="kill disabled" type="button">kill</button>'',
    ''    {{- else}}'',
    ''    <button type="button" data-visit="{{.Port}}">visit</button>'',
    ''    <button type="button" data-copy-url="{{.Port}}">copy url</button>'',
    ''    <button type="button" data-copy-cwd="{{.Cwd}}">copy cwd</button>'',
    ''    <button type="button" data-rename="{{.Port}}" data-cwd="{{.Cwd}}" data-label="{{.Label}}">rename</button>'',
    ''    {{- if and .Remembered .RememberedID}}'',
    ''    <button type="button" class="restart-ready" data-restart="{{.RememberedID}}">restart</button>'',
    ''    {{- else}}'',
    ''    <button type="button" class="disabled">restart</button>'',
    ''    {{- end}}'',
    ''    <button type="button" class="kill" data-kill="{{.Port}}" data-pid="{{.PID}}" data-cmd="{{.Cmd}}" data-cwd="{{.Cwd}}" data-label="{{.Label}}">kill</button>'',
    ''    {{- end}}'',
    ''  </div>'',
    ''</div>'',
    ''{{end -}}'',
    ''</div>'',
    ''</template>'']\<close>

definition dashboard_html :: string where
  \<open>dashboard_html = text_lines
   [''<!doctype html>'',
    ''<html lang="en">'',
    ''<head>'',
    ''  <meta charset="utf-8" />'',
    ''  <meta name="viewport" content="width=device-width, initial-scale=1" />'',
    ''  <title>port-manager '' @ middle_dot @ '' dashboard</title>'',
    ''  <link rel="stylesheet" href="/static/style.css" />'',
    ''  <script src="/static/htmx.min.js" defer></script>'',
    ''  <script src="/static/app.js" defer></script>'',
    ''</head>'',
    ''<body>'',
    ''  <header>'',
    ''    <div class="brand"><span class="accent">'' @ play_sign @ ''</span> port-manager</div>'',
    ''    <div class="meta">host <b>{{.PublicHost}}</b> '' @ middle_dot @ '' range <b>{{.PortMin}}'' @ en_dash @ ''{{.PortMax}}</b> '' @ middle_dot @ '' refresh <b>2s</b></div>'',
    ''    <div class="token">auth ok '' @ middle_dot @ '' user <b>{{.User}}</b>'',
    ''      <button type="button" class="btn"'',
    ''              hx-post="/logout"'',
    ''              hx-headers='{"X-Requested-With": "XMLHttpRequest"}'' @ [CHR 0x27],
    ''              hx-swap="none">logout</button>'',
    ''    </div>'',
    ''  </header>'',
    ''  <main>'',
    ''    <div class="toolbar">'',
    ''      <button class="btn primary" type="button"'',
    ''              hx-get="/ports" hx-target="#ports-body" hx-swap="innerHTML">refresh</button>'',
    ''      <button class="btn" type="button"'',
    ''              hx-get="/remembered"'',
    ''              hx-target="#ports-body"'',
    ''              hx-swap="innerHTML">restart history</button>'',
    ''      <button class="btn" type="button" data-filter="external">only external</button>'',
    ''      <button class="btn" type="button" data-filter="captured">only captured</button>'',
    ''      <input id="filter-input" class="btn filter" placeholder="filter: command, label or cwd'' @ ellipsis @ ''" />'',
    ''    </div>'',
    '''',
    ''    <table>'',
    ''      <thead>'',
    ''        <tr>'',
    ''          <th style="width:72px;">port</th>'',
    ''          <th style="width:150px;">label</th>'',
    ''          <th>command</th>'',
    ''          <th>cwd</th>'',
    ''          <th style="width:90px;">uptime</th>'',
    ''          <th style="width:120px;">source</th>'',
    ''          <th style="width:330px; text-align:right;">actions</th>'',
    ''        </tr>'',
    ''      </thead>'',
    ''      <tbody id="ports-body"'',
    ''             hx-get="/ports"'',
    ''             hx-trigger="load, every 2s"'',
    ''             hx-swap="innerHTML"></tbody>'',
    ''    </table>'',
    '''',
    ''    <div id="rows-mobile" class="cards"></div>'',
    ''  </main>'',
    '''',
    ''  <!-- Kill confirm modal -->'',
    ''  <div class="overlay" id="modal-kill">'',
    ''    <div class="modal">'',
    ''      <h2>Kill port <span id="kill-port" class="modal-port"></span>?</h2>'',
    ''      <p>Sends SIGTERM, waits for the kill-grace window, then SIGKILL if'',
    ''         the process is still alive. The row will disappear once the next'',
    ''         scan runs.</p>'',
    ''      <div class="body" id="kill-body"></div>'',
    ''      <div class="row">'',
    ''        <button class="btn" type="button" data-modal-close="modal-kill">cancel</button>'',
    ''        <button class="btn danger" type="button" id="kill-confirm">SIGTERM '' @ right_arrow @ '' SIGKILL</button>'',
    ''      </div>'',
    ''    </div>'',
    ''  </div>'',
    '''',
    ''  <!-- Restart confirm modal -->'',
    ''  <div class="overlay" id="modal-restart">'',
    ''    <div class="modal">'',
    ''      <h2>Restart port <span id="restart-port" class="modal-port magenta"></span>?</h2>'',
    ''      <p>Fire-and-forget re-run of the previously recorded command in its cwd.'',
    ''         No stdout capture '' @ em_dash @ '' check the process's own terminal if you need output.</p>'',
    ''      <div class="body" id="restart-body"></div>'',
    ''      <div class="row">'',
    ''        <button class="btn" type="button" data-modal-close="modal-restart">cancel</button>'',
    ''        <button class="btn magenta" type="button" id="restart-confirm">submit restart</button>'',
    ''      </div>'',
    ''    </div>'',
    ''  </div>'',
    '''',
    ''  <!-- Rename modal -->'',
    ''  <div class="overlay" id="modal-rename">'',
    ''    <div class="modal">'',
    ''      <h2>Rename label</h2>'',
    ''      <p>Label persists per (cwd, command). Blank label clears it.</p>'',
    ''      <input id="rename-input" name="label" placeholder="e.g. staging-api" maxlength="64" />'',
    ''      <div class="row">'',
    ''        <button class="btn" type="button" data-modal-close="modal-rename">cancel</button>'',
    ''        <button class="btn primary" type="button" id="rename-confirm">save</button>'',
    ''      </div>'',
    ''    </div>'',
    ''  </div>'',
    '''',
    ''  <div class="toast-stack" id="toast-stack"></div>'',
    '''',
    ''  <footer>'',
    ''    <span class="prompt"></span>scan budget 1s '' @ middle_dot @ '' public host <b>{{.PublicHost}}</b> '' @ middle_dot @ '' session ends on <b>logout</b>'',
    ''  </footer>'',
    '''',
    ''  <script id="pm-config" type="application/json">{"publicHost":"{{.PublicHost}}"}</script>'',
    ''</body>'',
    ''</html>'']\<close>

definition login_html :: string where
  \<open>login_html = text_lines
   [''<!doctype html>'',
    ''<html lang="en">'',
    ''<head>'',
    ''  <meta charset="utf-8" />'',
    ''  <meta name="viewport" content="width=device-width, initial-scale=1" />'',
    ''  <title>port-manager '' @ middle_dot @ '' login</title>'',
    ''  <link rel="stylesheet" href="/static/style.css" />'',
    ''</head>'',
    ''<body class="login">'',
    ''  <header>'',
    ''    <div class="brand"><span class="accent">'' @ play_sign @ ''</span> port-manager</div>'',
    ''    <div class="meta">host <b>{{.PublicHost}}</b></div>'',
    ''  </header>'',
    ''  <main class="login-main">'',
    ''    <form method="POST" action="/login" class="login-form" autocomplete="off">'',
    ''      {{if .Next}}<input type="hidden" name="next" value="{{.Next}}" />{{end}}'',
    ''      <label for="token">paste auth token</label>'',
    ''      <input id="token" name="token" type="password" autofocus required'',
    ''             autocomplete="current-password" spellcheck="false" />'',
    ''      {{if .Error}}<div class="error" role="alert">{{.Error}}</div>{{end}}'',
    ''      <button type="submit" class="btn primary">sign in</button>'',
    ''    </form>'',
    ''  </main>'',
    ''  <footer>'',
    ''    <span class="prompt"></span>plain HTTP '' @ middle_dot @ '' session cookie HttpOnly '' @ middle_dot @ '' 5 attempts/15min lockout per IP'',
    ''  </footer>'',
    ''</body>'',
    ''</html>'']\<close>

text \<open>An embedded file system: what \<open>fs.Glob\<close> finds for \<^verbatim>\<open>templates/*.html\<close> and \<open>fs.ReadFile\<close> reads.\<close>

record template_fs =
  glob_templates :: "string list option"
  read_template :: "string \<Rightarrow> string option"

definition is_template_file :: "string \<Rightarrow> bool" where
  "is_template_file n \<longleftrightarrow> has_prefix ''templates/'' n \<and> has_suffix ''.html'' n \<and> CHR ''/'' \<notin> set (drop 10 n)"

definition embed_fs :: "(string \<times> string) list \<Rightarrow> template_fs" where
  "embed_fs files = \<lparr>glob_templates = Some (filter is_template_file (map fst files)), read_template = map_of files\<rparr>"

definition web_Templates :: template_fs where
  "web_Templates = embed_fs
    [(''templates/_ports.html'', ports_html), (''templates/dashboard.html'', dashboard_html), (''templates/login.html'', login_html)]"

section \<open>The registry\<close>

type_synonym registry = "string \<rightharpoonup> tnode list"

datatype template_error = ErrGlob | ErrNoTemplates | ErrReadTemplate string | ErrParseTemplate string

fun parse_entries :: "template_fs \<Rightarrow> string list \<Rightarrow> registry \<Rightarrow> template_error + registry" where
  "parse_entries efs [] root = Inr root"
| "parse_entries efs (name # names) root =
    (case read_template efs name of
       None \<Rightarrow> Inl (ErrReadTemplate name)
     | Some raw \<Rightarrow>
         let base = drop (length ''templates/'') name in
         (case parse_template raw of
            None \<Rightarrow> Inl (ErrParseTemplate name)
          | Some t \<Rightarrow> parse_entries efs names (root(base \<mapsto> t))))"

definition parseTemplates :: "template_fs \<Rightarrow> template_error + registry" where
  "parseTemplates efs =
    (case glob_templates efs of
       None \<Rightarrow> Inl ErrGlob
     | Some entries \<Rightarrow> if entries = [] then Inl ErrNoTemplates else parse_entries efs entries Map.empty)"

text \<open>The initialisation of the package: the registry, or the panic.\<close>

definition init_templates :: "template_fs \<Rightarrow> registry option" where
  "init_templates efs = (case parseTemplates efs of Inl _ \<Rightarrow> None | Inr t \<Rightarrow> Some t)"

section \<open>Rendering\<close>

text \<open>\<open>ExecuteTemplate\<close> into a buffer: an unknown name, an escaping error and an execution error are errors.\<close>

definition ExecuteTemplate :: "registry \<Rightarrow> string \<Rightarrow> val \<Rightarrow> string option" where
  "ExecuteTemplate templates name data =
    (case templates name of None \<Rightarrow> None | Some t \<Rightarrow> execute t data)"

definition renderTemplate :: "registry \<Rightarrow> string \<Rightarrow> val \<Rightarrow> string option" where
  "renderTemplate templates name data = ExecuteTemplate templates name data"

text \<open>The structs of the pages: \<open>model.PortVM\<close>, \<open>loginView\<close>, \<open>dashboardView\<close>.\<close>

definition row_val :: "portvm \<Rightarrow> val" where
  "row_val r = VRec
    [(''Port'', VInt (vm_Port r)), (''Label'', VStr (vm_Label r)), (''Cmd'', VStr (vm_Cmd r)), (''Cwd'', VStr (vm_Cwd r)),
     (''UptimeS'', VInt (vm_UptimeS r)), (''Source'', VStr (vm_Source r)), (''PID'', VInt (vm_PID r)),
     (''ListenAddrs'', VList (map VStr (vm_ListenAddrs r))), (''Alive'', VBool (vm_Alive r)),
     (''Remembered'', VBool (vm_Remembered r)), (''RememberedID'', VStr (vm_RememberedID r)),
     (''Uptime'', VStr (vm_Uptime r)), (''Self'', VBool (vm_Self r)), (''Disabled'', VBool (vm_Disabled r))]"

definition rows_val :: "portvm list \<Rightarrow> val" where
  "rows_val rows = VList (map row_val rows)"

definition login_val :: "string \<Rightarrow> string \<Rightarrow> string \<Rightarrow> val" where
  "login_val public_host next err = VRec [(''PublicHost'', VStr public_host), (''Next'', VStr next), (''Error'', VStr err)]"

definition dashboard_val :: "string \<Rightarrow> int \<Rightarrow> int \<Rightarrow> string \<Rightarrow> val" where
  "dashboard_val public_host port_min port_max user = VRec
    [(''PublicHost'', VStr public_host), (''PortMin'', VInt port_min), (''PortMax'', VInt port_max), (''User'', VStr user)]"

text \<open>The template of each view the handlers render, and its data.\<close>

definition view_file :: "view \<Rightarrow> string" where
  "view_file v =
    (case v of
       LoginView _ _ _ \<Rightarrow> ''login.html'' | DashboardView _ _ _ _ \<Rightarrow> ''dashboard.html'' | PortsView _ \<Rightarrow> ''_ports.html'')"

definition view_val :: "view \<Rightarrow> val" where
  "view_val v =
    (case v of
       LoginView h n e \<Rightarrow> login_val h n e
     | DashboardView h lo hi u \<Rightarrow> dashboard_val h lo hi u
     | PortsView rows \<Rightarrow> rows_val rows)"

definition RenderPortsFragment :: "registry \<Rightarrow> portvm list \<Rightarrow> string option" where
  "RenderPortsFragment templates ports = ExecuteTemplate templates ''_ports.html'' (rows_val ports)"

text \<open>The renderer of the handlers once the registry is built.\<close>

definition page_renderer :: "registry \<Rightarrow> view \<Rightarrow> string option" where
  "page_renderer templates v = renderTemplate templates (view_file v) (view_val v)"

end
