(* ===== verification/Browser.thy ===== *)
theory Browser
  imports Template
begin

text \<open>
  What a browser reads in a page: the tokens of the HTML standard (tags with their attributes, text)
  and the character references in them. A page here is a list of symbols: a \<open>Lit\<close> is a byte of the
  page, a \<open>Dyn\<close> a byte that stands for itself wherever it may stand, without any meaning as markup.
  The tokens of the literal page a server sends are compared with those of the page in which every
  value was put in as opaque bytes.
\<close>

section \<open>Character references\<close>

definition utf8 :: "nat \<Rightarrow> string" where
  "utf8 r =
    (if r < 128 then [char_of r]
     else if r < 2048 then [char_of (192 + r div 64), char_of (128 + r mod 64)]
     else if r < 65536 then [char_of (224 + r div 4096), char_of (128 + r div 64 mod 64), char_of (128 + r mod 64)]
     else [char_of (240 + r div 262144), char_of (128 + r div 4096 mod 64), char_of (128 + r div 64 mod 64),
           char_of (128 + r mod 64)])"

definition hex_value :: "char \<Rightarrow> nat option" where
  "hex_value c =
    (let n = of_char c in
     if 48 \<le> n \<and> n \<le> 57 then Some (n - 48)
     else if 97 \<le> n \<and> n \<le> 102 then Some (n - 87)
     else if 65 \<le> n \<and> n \<le> 70 then Some (n - 55)
     else None)"

fun number_from :: "nat \<Rightarrow> nat \<Rightarrow> string \<Rightarrow> nat option" where
  "number_from base acc [] = Some acc"
| "number_from base acc (c # cs) =
    (case hex_value c of
       None \<Rightarrow> None
     | Some d \<Rightarrow> if d < base then number_from base (acc * base + d) cs else None)"

definition numeric_ref :: "nat \<Rightarrow> string \<Rightarrow> string option" where
  "numeric_ref base ds =
    (if ds = [] then None
     else map_option (\<lambda>r. utf8 (if r = 0 \<or> 1114111 < r then rune_error else r)) (number_from base 0 ds))"

text \<open>The name of a reference, between the ampersand and the semicolon.\<close>

definition ref_value :: "string \<Rightarrow> string option" where
  "ref_value name =
    (if name = ''amp'' then Some ''&''
     else if name = ''lt'' then Some ''<''
     else if name = ''gt'' then Some ''>''
     else if name = ''quot'' then Some [CHR 0x22]
     else
       (case name of
          h # ds \<Rightarrow>
            if h \<noteq> CHR ''#'' then None
            else (case ds of
                    x # hs \<Rightarrow> if x = CHR ''x'' then numeric_ref 16 hs else numeric_ref 10 ds
                  | [] \<Rightarrow> None)
        | [] \<Rightarrow> None))"

definition no_semicolon :: "char \<Rightarrow> bool" where "no_semicolon c \<longleftrightarrow> c \<noteq> CHR '';''"

function unref :: "string \<Rightarrow> string" where
  "unref s =
    (case s of
       [] \<Rightarrow> []
     | c # cs \<Rightarrow>
         if c = CHR ''&'' \<and> dropWhile no_semicolon cs \<noteq> [] then
           (case ref_value (takeWhile no_semicolon cs) of
              Some b \<Rightarrow> b @ unref (tl (dropWhile no_semicolon cs))
            | None \<Rightarrow> c # unref cs)
         else c # unref cs)"
  by pat_completeness auto
termination
proof (relation "measure length")
  fix s :: string and c cs
  assume "s = c # cs"
  then show "(tl (dropWhile no_semicolon cs), s) \<in> measure length"
    using length_dropWhile_le [of no_semicolon cs] by simp
qed auto

declare unref.simps [simp del]

section \<open>Tokens\<close>

datatype sym = Lit char | Dyn char

fun sym_char :: "sym \<Rightarrow> char" where
  "sym_char (Lit c) = c"
| "sym_char (Dyn c) = c"

datatype place =
    BData
  | BOpen
  | BOpenSlash
  | BName bool string
  | BBefore bool string
  | BAttr bool string
  | BAfter bool string
  | BBeforeVal bool string
  | BVal bool string char
  | BBare bool string
  | BSelf bool string
  | BBang
  | BDash
  | BComment nat
  | BBogus
  | BRaw string string
  | BStop

text \<open>What a symbol adds to the token being read; a text ends with \<open>OFlush\<close>, raw or with references.\<close>

datatype oper =
    OText sym
  | OFlush bool
  | OAttr char
  | OName char
  | OVal sym
  | OTag bool string

text \<open>Elements whose content is not markup; in the first two references are read.\<close>

definition ref_elements :: "string list" where "ref_elements = [''title'', ''textarea'']"

definition raw_elements :: "string list" where
  "raw_elements = [''script'', ''style'', ''xmp'', ''iframe'', ''noembed'', ''noframes'']"

definition end_tag :: "bool \<Rightarrow> string \<Rightarrow> oper list \<times> place" where
  "end_tag closing n =
    ([OTag closing n],
     if \<not> closing \<and> (List.member ref_elements n \<or> List.member raw_elements n) then BRaw n [] else BData)"

definition before_attr :: "bool \<Rightarrow> string \<Rightarrow> char \<Rightarrow> oper list \<times> place" where
  "before_attr closing n c =
    (if html_space c then ([], BBefore closing n)
     else if c = CHR ''/'' then ([], BSelf closing n)
     else if c = CHR ''>'' then end_tag closing n
     else ([OAttr (lower c)], BAttr closing n))"

definition data_char :: "char \<Rightarrow> oper list \<times> place" where
  "data_char c = (if c = CHR ''<'' then ([OFlush False], BOpen) else ([OText (Lit c)], BData))"

text \<open>
  One byte of the page. A script in which a comment opens is not read further (\<open>BStop\<close>); neither
  is a page with opaque bytes where they have no place.
\<close>

fun browse_byte :: "place \<Rightarrow> char \<Rightarrow> oper list \<times> place" where
  "browse_byte BData c = data_char c"
| "browse_byte BOpen c =
    (if is_letter c then ([], BName False [lower c])
     else if c = CHR ''/'' then ([], BOpenSlash)
     else if c = CHR ''!'' then ([], BBang)
     else if c = CHR ''?'' then ([], BBogus)
     else (OText (Lit (CHR ''<'')) # fst (data_char c), snd (data_char c)))"
| "browse_byte BOpenSlash c =
    (if is_letter c then ([], BName True [lower c]) else if c = CHR ''>'' then ([], BData) else ([], BBogus))"
| "browse_byte (BName closing n) c =
    (if html_space c then ([], BBefore closing n)
     else if c = CHR ''/'' then ([], BSelf closing n)
     else if c = CHR ''>'' then end_tag closing n
     else ([], BName closing (n @ [lower c])))"
| "browse_byte (BBefore closing n) c = before_attr closing n c"
| "browse_byte (BAttr closing n) c =
    (if html_space c then ([], BAfter closing n)
     else if c = CHR ''/'' then ([], BSelf closing n)
     else if c = CHR ''>'' then end_tag closing n
     else if c = CHR ''='' then ([], BBeforeVal closing n)
     else ([OName (lower c)], BAttr closing n))"
| "browse_byte (BAfter closing n) c =
    (if html_space c then ([], BAfter closing n)
     else if c = CHR ''='' then ([], BBeforeVal closing n)
     else before_attr closing n c)"
| "browse_byte (BBeforeVal closing n) c =
    (if html_space c then ([], BBeforeVal closing n)
     else if c = CHR 0x22 \<or> c = CHR 0x27 then ([], BVal closing n c)
     else if c = CHR ''>'' then end_tag closing n
     else ([OVal (Lit c)], BBare closing n))"
| "browse_byte (BVal closing n q) c =
    (if c = q then ([], BBefore closing n) else ([OVal (Lit c)], BVal closing n q))"
| "browse_byte (BBare closing n) c =
    (if html_space c then ([], BBefore closing n)
     else if c = CHR ''>'' then end_tag closing n
     else ([OVal (Lit c)], BBare closing n))"
| "browse_byte (BSelf closing n) c = (if c = CHR ''>'' then end_tag closing n else before_attr closing n c)"
| "browse_byte BBang c =
    (if c = CHR ''-'' then ([], BDash) else if c = CHR ''>'' then ([], BData) else ([], BBogus))"
| "browse_byte BDash c =
    (if c = CHR ''-'' then ([], BComment 4) else if c = CHR ''>'' then ([], BData) else ([], BBogus))"
| "browse_byte (BComment n) c =
    (if c = CHR ''-'' then ([], BComment (if n = 0 \<or> n = 3 then 1 else if n = 4 then 5 else 2))
     else if c = CHR ''>'' \<and> 2 \<le> n then ([], BData)
     else if c = CHR ''!'' \<and> n = 2 then ([], BComment 3)
     else ([], BComment 0))"
| "browse_byte BBogus c = (if c = CHR ''>'' then ([], BData) else ([], BBogus))"
| "browse_byte (BRaw n seen) c =
    (if map lower seen = ''</'' @ n \<and> (html_space c \<or> c = CHR ''/'' \<or> c = CHR ''>'') then
       (OFlush (List.member raw_elements n) # fst (before_attr True n c), snd (before_attr True n c))
     else if seen \<noteq> [] \<and> is_prefix (map lower (seen @ [c])) (''</'' @ n) then ([], BRaw n (seen @ [c]))
     else if n = ''script'' \<and> seen = ''<'' \<and> c = CHR ''!'' then ([], BStop)
     else if c = CHR ''<'' then (map (\<lambda>x. OText (Lit x)) seen, BRaw n ''<'')
     else (map (\<lambda>x. OText (Lit x)) (seen @ [c]), BRaw n []))"
| "browse_byte BStop c = ([], BStop)"

definition browse_opaque :: "place \<Rightarrow> char \<Rightarrow> oper list \<times> place" where
  "browse_opaque p c =
    (case p of
       BData \<Rightarrow> ([OText (Dyn c)], BData)
     | BVal closing n q \<Rightarrow> ([OVal (Dyn c)], p)
     | BRaw n seen \<Rightarrow> if seen = [] then ([OText (Dyn c)], p) else ([], BStop)
     | _ \<Rightarrow> ([], BStop))"

fun browse_sym :: "place \<Rightarrow> sym \<Rightarrow> oper list \<times> place" where
  "browse_sym p (Lit c) = browse_byte p c"
| "browse_sym p (Dyn c) = browse_opaque p c"

datatype token = TokText bool "sym list" | TokTag bool string "(string \<times> sym list) list"

text \<open>The text, the attributes and the tokens so far, each with the newest first.\<close>

record reading =
  rd_text :: "sym list"
  rd_attrs :: "(string \<times> sym list) list"
  rd_out :: "token list"

fun on_last :: "('a \<Rightarrow> 'a) \<Rightarrow> 'a list \<Rightarrow> 'a list" where
  "on_last f [] = []"
| "on_last f (x # xs) = f x # xs"

definition flush_text :: "bool \<Rightarrow> reading \<Rightarrow> reading" where
  "flush_text raw r =
    (if rd_text r = [] then r else r\<lparr>rd_text := [], rd_out := TokText raw (rev (rd_text r)) # rd_out r\<rparr>)"

fun operate :: "oper \<Rightarrow> reading \<Rightarrow> reading" where
  "operate (OText s) r = r\<lparr>rd_text := s # rd_text r\<rparr>"
| "operate (OFlush raw) r = flush_text raw r"
| "operate (OAttr c) r = r\<lparr>rd_attrs := ([c], []) # rd_attrs r\<rparr>"
| "operate (OName c) r = r\<lparr>rd_attrs := on_last (\<lambda>(n, v). (n @ [c], v)) (rd_attrs r)\<rparr>"
| "operate (OVal s) r = r\<lparr>rd_attrs := on_last (\<lambda>(n, v). (n, s # v)) (rd_attrs r)\<rparr>"
| "operate (OTag closing n) r =
    r\<lparr>rd_attrs := [], rd_out := TokTag closing n (rev (map (\<lambda>(n, v). (n, rev v)) (rd_attrs r))) # rd_out r\<rparr>"

fun browse :: "place \<Rightarrow> reading \<Rightarrow> sym list \<Rightarrow> place \<times> reading" where
  "browse p r [] = (p, r)"
| "browse p r (s # ss) = (case browse_sym p s of (ops, p') \<Rightarrow> browse p' (fold operate ops r) ss)"

definition start_reading :: reading where
  "start_reading = \<lparr>rd_text = [], rd_attrs = [], rd_out = []\<rparr>"

text \<open>The tokens of a page that ends in text; a page that ends elsewhere is not a page.\<close>

definition tokens :: "sym list \<Rightarrow> token list option" where
  "tokens page =
    (case browse BData start_reading page of
       (p, r) \<Rightarrow> if p = BData then Some (rev (rd_out (flush_text False r))) else None)"

section \<open>What a reader gets\<close>

datatype dom = DomText string | DomTag bool string "(string \<times> string) list"

text \<open>The references are read in a page of bytes; opaque bytes have none.\<close>

fun dom_read :: "token \<Rightarrow> dom" where
  "dom_read (TokText raw s) = DomText (if raw then map sym_char s else unref (map sym_char s))"
| "dom_read (TokTag closing n as) = DomTag closing n (map (\<lambda>(a, v). (a, unref (map sym_char v))) as)"

fun dom_meant :: "token \<Rightarrow> dom" where
  "dom_meant (TokText raw s) = DomText (map sym_char s)"
| "dom_meant (TokTag closing n as) = DomTag closing n (map (\<lambda>(a, v). (a, map sym_char v)) as)"

definition page_dom :: "string \<Rightarrow> dom list option" where
  "page_dom page = map_option (map dom_read) (tokens (map Lit page))"

definition meant_dom :: "sym list \<Rightarrow> dom list option" where
  "meant_dom page = map_option (map dom_meant) (tokens page)"

section \<open>Values put in as opaque bytes\<close>

text \<open>NUL is shown as U+FFFD, as the standard has it; so is a byte that is not UTF-8 in an attribute.\<close>

definition text_shown :: "string \<Rightarrow> string" where
  "text_shown s = concat (map (\<lambda>c. if c = CHR 0x00 then [CHR 0xEF, CHR 0xBF, CHR 0xBD] else [c]) s)"

function attr_shown :: "string \<Rightarrow> string" where
  "attr_shown s =
    (if s = [] then []
     else (if bad_rune (fst (decode_rune (codes s))) then utf8 (fst (decode_rune (codes s)))
           else text_shown (take (snd (decode_rune (codes s))) s))
          @ attr_shown (drop (snd (decode_rune (codes s))) s))"
  by pat_completeness auto
termination
  by (relation "measure length") (simp, rule rune_shorter)

declare attr_shown.simps [simp del]

definition shown :: "escaper list \<Rightarrow> string \<Rightarrow> string" where
  "shown es s =
    (if es = [EscHtml] then text_shown s
     else if es \<noteq> [] \<and> last es = EscAttr then attr_shown (escape_chain (butlast es) s)
     else escape_chain es s)"

definition put_opaque :: "escaper list \<Rightarrow> string \<Rightarrow> sym list" where
  "put_opaque es s = map Dyn (shown es s)"

text \<open>
  The page as its author means it: the template with every value as opaque bytes. The value of a
  string in a script is what the escaper of scripts makes of it.
\<close>

definition meant_page :: "tnode list \<Rightarrow> val \<Rightarrow> sym list option" where
  "meant_page es v = exec_nodes put_opaque (map Lit) v es"

section \<open>A check of the places\<close>

text \<open>
  The place of a browser after a text, and whether the escapers of a value suit the place it is
  printed at, on every path through the template.
\<close>

definition place_step :: "place \<Rightarrow> char \<Rightarrow> place" where
  "place_step p c = (if c = CHR ''&'' then BStop else snd (browse_byte p c))"

fun place_after :: "place \<Rightarrow> string \<Rightarrow> place" where
  "place_after p [] = p"
| "place_after p (c # cs) = place_after (place_step p c) cs"

definition suits :: "place \<Rightarrow> escaper list \<Rightarrow> bool" where
  "suits p es =
    (case p of
       BData \<Rightarrow> es = [EscHtml]
     | BVal closing n q \<Rightarrow> (q = CHR 0x22 \<or> q = CHR 0x27) \<and> es \<noteq> [] \<and> last es = EscAttr
     | BRaw n seen \<Rightarrow> seen = [] \<and> (n = ''script'' \<and> es = [EscJsStr] \<or> List.member ref_elements n \<and> es = [EscHtml])
     | _ \<Rightarrow> False)"

fun page_place :: "place \<Rightarrow> tnode list \<Rightarrow> place option" where
  "page_place p [] = Some p"
| "page_place p (TText t # ns) = page_place (place_after p t) ns"
| "page_place p (TPrint es e # ns) = (if suits p es then page_place p ns else None)"
| "page_place p (TIf e yes no # ns) =
    (case page_place p yes of
       None \<Rightarrow> None
     | Some p1 \<Rightarrow>
         (case page_place p no of
            None \<Rightarrow> None
          | Some p2 \<Rightarrow> if p1 = p2 then page_place p1 ns else None))"
| "page_place p (TRange e body # ns) =
    (case page_place p body of
       None \<Rightarrow> None
     | Some p' \<Rightarrow> if p' = p then page_place p ns else None)"

end
