(* ===== verification/BrowserFacts.thy ===== *)
theory BrowserFacts
  imports Browser
begin

text \<open>
  A page whose template passes the check of the places is read as it is meant: the tokens a browser
  finds in the page are those of the template with the values as opaque bytes.
\<close>

section \<open>References in a text\<close>

text \<open>A text of bytes other than the ampersand and of complete references, and what it stands for.\<close>

inductive reads :: "string \<Rightarrow> string \<Rightarrow> bool" where
  reads_Nil [intro!, simp]: "reads [] []"
| reads_Cons: "c \<noteq> CHR ''&'' \<Longrightarrow> reads s t \<Longrightarrow> reads (c # s) (c # t)"
| reads_ref: "CHR '';'' \<notin> set name \<Longrightarrow> ref_value name = Some b \<Longrightarrow> b \<noteq> [] \<Longrightarrow> reads s t
    \<Longrightarrow> reads (CHR ''&'' # name @ CHR '';'' # s) (b @ t)"

lemma reads_append: "reads a b \<Longrightarrow> reads c d \<Longrightarrow> reads (a @ c) (b @ d)"
proof (induction rule: reads.induct)
  case (reads_ref name b' s t)
  then show ?case using reads.reads_ref [of name b' "s @ c" "t @ d"] by simp
qed (auto intro: reads.intros)

lemma reads_char [intro, simp]: "c \<noteq> CHR ''&'' \<Longrightarrow> reads [c] [c]"
  by (intro reads_Cons) auto

lemma reads_same: "CHR ''&'' \<notin> set s \<Longrightarrow> reads s s"
  by (induction s) (auto intro: reads_Cons)

lemma reads_one_ref: "CHR '';'' \<notin> set name \<Longrightarrow> ref_value name = Some b \<Longrightarrow> b \<noteq> [] \<Longrightarrow>
    reads (CHR ''&'' # name @ '';'') b"
  using reads_ref [of name b "[]" "[]"] by simp

lemma reads_empty: "reads s t \<Longrightarrow> s = [] \<longleftrightarrow> t = []"
  by (induction rule: reads.induct) auto

lemma until_semicolon:
  "CHR '';'' \<notin> set name \<Longrightarrow> takeWhile no_semicolon (name @ CHR '';'' # s) = name
    \<and> dropWhile no_semicolon (name @ CHR '';'' # s) = CHR '';'' # s"
  by (induction name) (auto simp: no_semicolon_def)

lemma unref_reads: "reads s t \<Longrightarrow> unref s = t"
proof (induction rule: reads.induct)
  case (reads_ref name b s t)
  then show ?case
    using until_semicolon [of name s] unref.simps [of "CHR ''&'' # name @ CHR '';'' # s"]
    by (simp del: dropWhile_eq_Nil_conv)
qed (simp_all add: unref.simps)

section \<open>Two readings of a page\<close>

definition rel_text :: "bool \<Rightarrow> sym list \<Rightarrow> sym list \<Rightarrow> bool" where
  "rel_text raw a b \<longleftrightarrow>
    (if raw then map sym_char a = map sym_char b else reads (rev (map sym_char a)) (rev (map sym_char b)))"

definition rel_attr :: "string \<times> sym list \<Rightarrow> string \<times> sym list \<Rightarrow> bool" where
  "rel_attr x y \<longleftrightarrow> fst x = fst y \<and> rel_text False (snd x) (snd y)"

definition rel :: "bool \<Rightarrow> reading \<Rightarrow> reading \<Rightarrow> bool" where
  "rel raw r m \<longleftrightarrow> rel_text raw (rd_text r) (rd_text m) \<and> list_all2 rel_attr (rd_attrs r) (rd_attrs m)
    \<and> map dom_read (rd_out r) = map dom_meant (rd_out m)"

definition no_text :: "reading \<Rightarrow> reading \<Rightarrow> bool" where
  "no_text r m \<longleftrightarrow> rd_text r = [] \<and> rd_text m = []"

lemma rel_text_Nil [simp]: "rel_text raw [] []"
  by (simp add: rel_text_def)

lemma rel_text_empty: "rel_text raw a b \<Longrightarrow> a = [] \<longleftrightarrow> b = []"
  by (auto simp: rel_text_def dest: reads_empty split: if_splits)

lemma rel_text_lit: "rel_text raw a b \<Longrightarrow> c \<noteq> CHR ''&'' \<Longrightarrow> rel_text raw (Lit c # a) (Lit c # b)"
  by (auto simp: rel_text_def intro: reads_append)

lemma rel_no_text: "rel raw r m \<Longrightarrow> no_text r m \<Longrightarrow> rel raw' r m"
  by (simp add: rel_def no_text_def)

lemma rel_OText: "rel raw r m \<Longrightarrow> c \<noteq> CHR ''&'' \<Longrightarrow> rel raw (operate (OText (Lit c)) r) (operate (OText (Lit c)) m)"
  by (simp add: rel_def rel_text_lit)

lemma rel_OTexts:
  "rel raw r m \<Longrightarrow> CHR ''&'' \<notin> set s \<Longrightarrow>
   rel raw (fold operate (map (\<lambda>x. OText (Lit x)) s) r) (fold operate (map (\<lambda>x. OText (Lit x)) s) m)"
proof (induction s arbitrary: r m)
  case (Cons c s)
  then show ?case using rel_OText [of raw r m c] by auto
qed simp

lemma rel_text_dom: "rel_text raw a b \<Longrightarrow> dom_read (TokText raw (rev a)) = dom_meant (TokText raw (rev b))"
  by (cases raw) (auto simp: rel_text_def rev_map [symmetric] dest: unref_reads)

lemma rel_OFlush:
  assumes "rel raw r m"
  shows "rel raw' (operate (OFlush raw) r) (operate (OFlush raw) m)"
    and "no_text (operate (OFlush raw) r) (operate (OFlush raw) m)"
  using assms rel_text_empty [of raw "rd_text r" "rd_text m"] rel_text_dom [of raw "rd_text r" "rd_text m"]
  by (auto simp: rel_def no_text_def flush_text_def)

lemma rel_OAttr: "rel raw r m \<Longrightarrow> rel raw (operate (OAttr c) r) (operate (OAttr c) m)"
  by (simp add: rel_def rel_attr_def)

lemma rel_OName: "rel raw r m \<Longrightarrow> rel raw (operate (OName c) r) (operate (OName c) m)"
  by (cases "rd_attrs r"; cases "rd_attrs m") (auto simp: rel_def rel_attr_def)

lemma rel_OVal: "rel raw r m \<Longrightarrow> c \<noteq> CHR ''&'' \<Longrightarrow> rel raw (operate (OVal (Lit c)) r) (operate (OVal (Lit c)) m)"
  by (cases "rd_attrs r"; cases "rd_attrs m") (auto simp: rel_def rel_attr_def rel_text_lit)

lemma rel_attrs_dom:
  "list_all2 rel_attr as bs \<Longrightarrow>
   map (\<lambda>(a, v). (a, unref (map sym_char v))) (map (\<lambda>(n, v). (n, rev v)) as)
   = map (\<lambda>(a, v). (a, map sym_char v)) (map (\<lambda>(n, v). (n, rev v)) bs)"
  by (induction rule: list_all2_induct) (auto simp: rel_attr_def rel_text_def rev_map dest: unref_reads)

lemma rel_OTag: "rel raw r m \<Longrightarrow> rel raw (operate (OTag closing n) r) (operate (OTag closing n) m)"
  using rel_attrs_dom [of "rd_attrs r" "rd_attrs m"] by (simp add: rel_def rev_map [symmetric])

lemma no_text_operate [simp]:
  "no_text (operate (OAttr c) r) (operate (OAttr c) m) = no_text r m"
  "no_text (operate (OName c) r) (operate (OName c) m) = no_text r m"
  "no_text (operate (OVal s) r) (operate (OVal s') m) = no_text r m"
  "no_text (operate (OTag closing n) r) (operate (OTag closing n) m) = no_text r m"
  by (simp_all add: no_text_def)

declare operate.simps [simp del]

section \<open>One byte\<close>

fun texty :: "place \<Rightarrow> bool" where
  "texty BData = True"
| "texty (BRaw n seen) = True"
| "texty p = False"

fun raw_at :: "place \<Rightarrow> bool" where
  "raw_at (BRaw n seen) = List.member raw_elements n"
| "raw_at p = False"

fun clean_place :: "place \<Rightarrow> bool" where
  "clean_place (BRaw n seen) = (CHR ''&'' \<notin> set seen)"
| "clean_place p = True"

definition related :: "place \<Rightarrow> reading \<Rightarrow> reading \<Rightarrow> bool" where
  "related p r m \<longleftrightarrow> rel (raw_at p) r m \<and> (texty p \<or> no_text r m) \<and> clean_place p"

lemmas rel_ops = rel_OText rel_OTexts rel_OFlush rel_OAttr rel_OName rel_OVal rel_OTag

lemma quiet_related: "rel raw r m \<Longrightarrow> no_text r m \<Longrightarrow> clean_place p \<Longrightarrow> related p r m"
  by (auto simp: related_def intro: rel_no_text)

lemma end_tag_related:
  "rel raw r m \<Longrightarrow> no_text r m \<Longrightarrow>
   related (snd (end_tag closing n)) (fold operate (fst (end_tag closing n)) r) (fold operate (fst (end_tag closing n)) m)"
  by (auto simp: end_tag_def intro!: quiet_related rel_OTag)

lemma before_attr_related:
  "rel raw r m \<Longrightarrow> no_text r m \<Longrightarrow>
   related (snd (before_attr closing n c)) (fold operate (fst (before_attr closing n c)) r)
     (fold operate (fst (before_attr closing n c)) m)"
  using end_tag_related [of raw r m closing n]
  by (auto simp: before_attr_def intro!: quiet_related rel_OAttr)

lemma data_char_related:
  "rel False r m \<Longrightarrow> c \<noteq> CHR ''&'' \<Longrightarrow>
   related (snd (data_char c)) (fold operate (fst (data_char c)) r) (fold operate (fst (data_char c)) m)"
  using rel_OFlush [of False r m] rel_OText [of False r m c]
  by (auto simp: data_char_def related_def)

lemma raw_related:
  assumes "related (BRaw n seen) r m" and c: "c \<noteq> CHR ''&''" and stop: "snd (browse_byte (BRaw n seen) c) \<noteq> BStop"
  shows "related (snd (browse_byte (BRaw n seen) c)) (fold operate (fst (browse_byte (BRaw n seen) c)) r)
    (fold operate (fst (browse_byte (BRaw n seen) c)) m)"
proof -
  let ?raw = "List.member raw_elements n" and ?put = "\<lambda>s. fold operate (map (\<lambda>x. OText (Lit x)) s)"
  have rel: "rel ?raw r m" and clean: "CHR ''&'' \<notin> set seen" using assms(1) by (simp_all add: related_def)
  let ?ends = "map lower seen = ''</'' @ n \<and> (html_space c \<or> c = CHR ''/'' \<or> c = CHR ''>'')"
  let ?more = "seen \<noteq> [] \<and> is_prefix (map lower (seen @ [c])) (''</'' @ n)"
  consider (ends) ?ends | (more) "\<not> ?ends" ?more | (less) "\<not> ?ends" "\<not> ?more" "c = CHR ''<''"
    | (other) "\<not> ?ends" "\<not> ?more" "c \<noteq> CHR ''<''" by blast
  then show ?thesis
  proof cases
    case ends
    then show ?thesis
      using before_attr_related [OF rel_OFlush [OF rel], of True n c] by (simp only: browse_byte.simps if_True) simp
  next
    case more
    then show ?thesis
      using rel clean c by (simp only: browse_byte.simps if_False if_True) (simp add: related_def)
  next
    case less
    then show ?thesis
      using rel_OTexts [OF rel clean] clean stop
      by (simp only: browse_byte.simps if_False if_True) (simp add: related_def)
  next
    case other
    have "CHR ''&'' \<notin> set (seen @ [c])" using clean c by auto
    from rel_OTexts [OF rel this] other stop show ?thesis
      by (simp only: browse_byte.simps if_False if_True) (auto simp: related_def split: if_splits)
  qed
qed

lemma byte_related:
  assumes "related p r m" and "c \<noteq> CHR ''&''" and "snd (browse_byte p c) \<noteq> BStop"
  shows "related (snd (browse_byte p c)) (fold operate (fst (browse_byte p c)) r) (fold operate (fst (browse_byte p c)) m)"
proof (cases p)
  case (BRaw n seen)
  then show ?thesis using raw_related assms by simp
next
  case BData
  then show ?thesis using data_char_related assms by (simp add: related_def)
next
  case BOpen
  then have "rel False r m" "no_text r m" using assms(1) by (simp_all add: related_def)
  then have "related (snd (data_char c)) (fold operate (fst (data_char c)) (operate (OText (Lit CHR ''<'')) r))
      (fold operate (fst (data_char c)) (operate (OText (Lit CHR ''<'')) m))"
    using data_char_related rel_OText assms(2) by simp
  with BOpen show ?thesis using \<open>rel False r m\<close> \<open>no_text r m\<close> by (auto intro: quiet_related)
qed (use assms in \<open>auto simp: related_def raw_at.simps intro!: quiet_related [unfolded related_def]
      end_tag_related [unfolded related_def] before_attr_related [unfolded related_def] rel_ops\<close>)

section \<open>Texts and values\<close>

lemma browse_append: "browse p r (a @ b) = (case browse p r a of (p', r') \<Rightarrow> browse p' r' b)"
  by (induction p r a rule: browse.induct) (auto split: prod.splits)

lemma place_after_stop: "place_after BStop t = BStop"
  by (induction t) (simp_all add: place_step_def)

lemma page_place_stop: "page_place BStop ns = Some p \<Longrightarrow> p = BStop"
proof (induction BStop ns arbitrary: p rule: page_place.induct)
  case (2 t ns)
  then show ?case by (simp add: place_after_stop)
qed (auto simp: suits_def split: option.splits if_splits)

lemma text_related:
  "related p r m \<Longrightarrow> place_after p t \<noteq> BStop \<Longrightarrow>
   \<exists>r' m'. browse p r (map Lit t) = (place_after p t, r') \<and> browse p m (map Lit t) = (place_after p t, m')
     \<and> related (place_after p t) r' m'"
proof (induction t arbitrary: p r m)
  case (Cons c t)
  have c: "c \<noteq> CHR ''&''" and stop: "snd (browse_byte p c) \<noteq> BStop"
    using Cons.prems(2) place_after_stop by (auto simp: place_step_def split: if_splits)
  obtain ops q where step: "browse_byte p c = (ops, q)" by force
  then have "related q (fold operate ops r) (fold operate ops m)"
    using byte_related [OF Cons.prems(1) c stop] by simp
  moreover have "place_after q t \<noteq> BStop" using Cons.prems(2) step c by (simp add: place_step_def)
  ultimately show ?case using Cons.IH [of q "fold operate ops r" "fold operate ops m"] step c by (simp add: place_step_def)
qed simp

lemma data_run:
  "CHR ''<'' \<notin> set s \<Longrightarrow> browse BData r (map Lit s) = (BData, r\<lparr>rd_text := rev (map Lit s) @ rd_text r\<rparr>)"
  "browse BData r (map Dyn s) = (BData, r\<lparr>rd_text := rev (map Dyn s) @ rd_text r\<rparr>)"
  by (induction s arbitrary: r) (auto simp: data_char_def browse_opaque_def operate.simps)

lemma raw_run:
  "CHR ''<'' \<notin> set s \<Longrightarrow> browse (BRaw n []) r (map Lit s) = (BRaw n [], r\<lparr>rd_text := rev (map Lit s) @ rd_text r\<rparr>)"
  "browse (BRaw n []) r (map Dyn s) = (BRaw n [], r\<lparr>rd_text := rev (map Dyn s) @ rd_text r\<rparr>)"
  by (induction s arbitrary: r) (auto simp: browse_opaque_def operate.simps)

lemma on_last_fuse: "on_last f (on_last g xs) = on_last (\<lambda>x. f (g x)) xs"
  by (cases xs) auto

lemma on_last_id: "on_last (\<lambda>p. p) xs = xs"
  by (cases xs) auto

lemma value_run:
  "q \<notin> set s \<Longrightarrow> browse (BVal closing n q) r (map Lit s)
    = (BVal closing n q, r\<lparr>rd_attrs := on_last (\<lambda>(a, v). (a, rev (map Lit s) @ v)) (rd_attrs r)\<rparr>)"
  "browse (BVal closing n q) r (map Dyn s)
    = (BVal closing n q, r\<lparr>rd_attrs := on_last (\<lambda>(a, v). (a, rev (map Dyn s) @ v)) (rd_attrs r)\<rparr>)"
  by (induction s arbitrary: r)
     (auto simp: browse_opaque_def operate.simps on_last_fuse on_last_id case_prod_unfold)

section \<open>What the escapers guarantee\<close>

definition inert :: "string \<Rightarrow> bool" where
  "inert s \<longleftrightarrow> CHR ''<'' \<notin> set s \<and> CHR 0x22 \<notin> set s \<and> CHR 0x27 \<notin> set s"

lemma inert_append [simp]: "inert (s @ t) \<longleftrightarrow> inert s \<and> inert t"
  by (auto simp: inert_def)

lemma inert_Nil [simp]: "inert []"
  by (simp add: inert_def)

lemma html_char_reads:
  "inert (html_escape_char c)"
  "reads (html_escape_char c) (if c = CHR 0x00 then [CHR 0xEF, CHR 0xBF, CHR 0xBD] else [c])"
proof -
  have ref: "reads (CHR ''&'' # name @ '';'') b"
    if "ref_value name = Some b" "CHR '';'' \<notin> set name" "b \<noteq> []" for name b
    using reads_one_ref that by blast
  have digits: "ref_value ''#34'' = Some [CHR 0x22]" "ref_value ''#39'' = Some [CHR 0x27]" "ref_value ''#43'' = Some ''+''"
    using char_of_char [of "CHR 0x22", where ?'a = nat] char_of_char [of "CHR 0x27", where ?'a = nat]
      char_of_char [of "CHR ''+''", where ?'a = nat]
    by (simp_all add: ref_value_def numeric_ref_def hex_value_def utf8_def)
  have "reads [CHR 0xEF, CHR 0xBF, CHR 0xBD] [CHR 0xEF, CHR 0xBF, CHR 0xBD]" by (rule reads_same) simp
  then show "reads (html_escape_char c) (if c = CHR 0x00 then [CHR 0xEF, CHR 0xBF, CHR 0xBD] else [c])"
    using ref [of "''#34''"] ref [of "''#39''"] ref [of "''#43''"] ref [of "''amp''"] ref [of "''lt''"] ref [of "''gt''"] digits
    by (auto simp: html_escape_char_def ref_value_def)
qed (simp add: html_escape_char_def inert_def)

lemma html_reads: "inert (html_escaper s)" "reads (html_escaper s) (text_shown s)"
proof -
  show "inert (html_escaper s)" by (induction s) (simp_all add: html_escaper_def html_char_reads(1))
  show "reads (html_escaper s) (text_shown s)"
    by (induction s) (use html_char_reads(2) reads_append in \<open>auto simp: html_escaper_def text_shown_def\<close>)
qed

lemma hex_value_digit: "d < 16 \<Longrightarrow> hex_value (hex_digit d) = Some d"
  by (simp add: hex_value_def of_char_hex_digit)

lemma hex4_number: "n < 65536 \<Longrightarrow> number_from 16 0 (hex4 n) = Some n"
proof -
  assume n: "n < 65536"
  have "n div 4096 = n div 256 div 16" "n div 256 = n div 16 div 16" by (simp_all add: div_mult2_eq [symmetric])
  then have "n div 4096 * 16 + n div 256 mod 16 = n div 256" "n div 256 * 16 + n div 16 mod 16 = n div 16"
    "n div 16 * 16 + n mod 16 = n"
    by (metis div_mult_mod_eq)+
  moreover have "n div 4096 < 16" using n by simp
  ultimately show ?thesis by (simp add: hex4_def hex_value_digit)
qed

lemma not_hex_digit: "hex_value c = None \<Longrightarrow> d < 16 \<Longrightarrow> c \<noteq> hex_digit d"
  using hex_value_digit by force

lemma hex4_chars: "hex_value c = None \<Longrightarrow> n < 65536 \<Longrightarrow> c \<notin> set (hex4 n)"
  using not_hex_digit [of c] by (simp add: hex4_def less_mult_imp_div_less)

lemma bad_rune_bound: "bad_rune r \<Longrightarrow> 0 < r \<and> r < 65536"
  by (auto simp: bad_rune_def)

lemma hex_ref_reads:
  assumes "bad_rune r"
  shows "inert (''&#x'' @ hex4 r @ '';'')" and "reads (''&#x'' @ hex4 r @ '';'') (utf8 r)"
proof -
  have none: "hex_value CHR '';'' = None" "hex_value CHR ''<'' = None" "hex_value CHR 0x22 = None" "hex_value CHR 0x27 = None"
    by code_simp+
  note r = bad_rune_bound [OF assms]
  have "hex4 r \<noteq> []" by (simp add: hex4_def)
  then have "ref_value (''#x'' @ hex4 r) = Some (utf8 r)"
    using hex4_number r by (simp add: ref_value_def numeric_ref_def)
  moreover have "utf8 r \<noteq> []" by (simp add: utf8_def)
  moreover have "CHR '';'' \<notin> set (''#x'' @ hex4 r)" using hex4_chars [OF none(1)] r by simp
  ultimately show "reads (''&#x'' @ hex4 r @ '';'') (utf8 r)"
    using reads_one_ref [of "''#x'' @ hex4 r" "utf8 r"] by simp
  show "inert (''&#x'' @ hex4 r @ '';'')" using hex4_chars [OF none(2)] hex4_chars [OF none(3)] hex4_chars [OF none(4)] r
    by (simp add: inert_def)
qed

lemma attr_reads: "inert (attr_escaper s) \<and> reads (attr_escaper s) (attr_shown s)"
proof (induction s rule: attr_escaper.induct)
  case (1 s)
  show ?case
  proof (cases "s = []")
    case False
    let ?r = "fst (decode_rune (codes s))" and ?w = "snd (decode_rune (codes s))"
    let ?shown = "if bad_rune ?r then utf8 ?r else text_shown (take ?w s)"
    have "inert (attr_piece ?r (take ?w s)) \<and> reads (attr_piece ?r (take ?w s)) ?shown"
      using hex_ref_reads html_reads by (simp add: attr_piece_def)
    with 1 [OF False] False show ?thesis
      by (subst attr_escaper.simps, subst (2) attr_escaper.simps, subst attr_shown.simps) (simp add: reads_append)
  qed (simp add: attr_escaper.simps attr_shown.simps)
qed

lemma js_inert: "CHR ''<'' \<notin> set (js_str_escaper s)"
proof (induction s rule: js_str_escaper.induct)
  case (2 c cs)
  have "hex_value CHR ''<'' = None" by code_simp
  moreover have "of_char c < (65536 :: nat)" by (rule less_trans [OF nat_of_char_less_256]) simp
  ultimately have "CHR ''<'' \<notin> set (hex4 (of_char c))" using hex4_chars [of "CHR ''<''" "of_char c"] by simp
  then have "CHR ''<'' \<notin> set (js_escape_char c)" by (auto simp: js_escape_char_def)
  then show ?case using 2 by auto
qed simp

section \<open>Values that are shown as they are\<close>

function valid_utf8 :: "string \<Rightarrow> bool" where
  "valid_utf8 s =
    (if s = [] then True
     else decode_rune (codes s) \<noteq> (rune_error, 1) \<and> valid_utf8 (drop (snd (decode_rune (codes s))) s))"
  by pat_completeness auto
termination
  by (relation "measure length") (simp, rule rune_shorter)

declare valid_utf8.simps [simp del]

definition plain_text :: "string \<Rightarrow> bool" where
  "plain_text s \<longleftrightarrow> CHR 0x00 \<notin> set s \<and> valid_utf8 s"

lemma text_shown_plain: "CHR 0x00 \<notin> set s \<Longrightarrow> text_shown s = s"
  by (induction s) (auto simp: text_shown_def)

lemma three_bytes:
  assumes "y < 64" "z < (64 :: nat)"
  shows "(x * 4096 + y * 64 + z) div 4096 = x" "(x * 4096 + y * 64 + z) div 64 mod 64 = y" "(x * 4096 + y * 64 + z) mod 64 = z"
proof -
  have "(x * 4096 + y * 64 + z) div 64 = x * 64 + y" using assms by simp
  moreover have "(x * 64 + y) div 64 = x" "(x * 64 + y) mod 64 = y" using assms by simp_all
  moreover have "(x * 4096 + y * 64 + z) div 4096 = (x * 4096 + y * 64 + z) div 64 div 64" by (simp add: div_mult2_eq [symmetric])
  ultimately show "(x * 4096 + y * 64 + z) div 4096 = x" "(x * 4096 + y * 64 + z) div 64 mod 64 = y" by simp_all
  have "(x * 4096 + y * 64 + z) mod 64 = ((x * 64 + y) * 64 + z) mod 64" by (simp add: algebra_simps)
  then show "(x * 4096 + y * 64 + z) mod 64 = z" using assms by (simp only: mod_mult_self3 mod_less)
qed

lemma bad_rune_encoded:
  assumes "decode_rune (codes s) = (r, w)" and "bad_rune r" and "(r, w) \<noteq> (rune_error, 1)" and "s \<noteq> []"
  shows "utf8 r = take w s"
proof (cases s)
  case (Cons c0 s')
  let ?b = "\<lambda>c. of_char c :: nat"
  from assms(1-3) Cons obtain c1 c2 s'' where s: "s = c0 # c1 # c2 # s''" "w = 3"
      and r: "r = (?b c0 - 224) * 4096 + (?b c1 - 128) * 64 + (?b c2 - 128)"
      and b: "224 \<le> ?b c0" "?b c0 \<le> 239" "128 \<le> ?b c1" "?b c1 \<le> 191" "128 \<le> ?b c2" "?b c2 \<le> 191"
    by (auto simp: codes_def bad_rune_def rune_error_def cont_def split: if_splits list.splits)
  have "r div 4096 = ?b c0 - 224" "r div 64 mod 64 = ?b c1 - 128" "r mod 64 = ?b c2 - 128"
    unfolding r using three_bytes [of "?b c1 - 128" "?b c2 - 128" "?b c0 - 224"] b by simp_all
  moreover have "\<not> r < 2048" "r < 65536" using assms(2) by (auto simp: bad_rune_def)
  ultimately show ?thesis using s b by (simp add: utf8_def)
qed (use assms in simp)

lemma attr_shown_plain: "plain_text s \<Longrightarrow> attr_shown s = s"
proof (induction s rule: attr_shown.induct)
  case (1 s)
  show ?case
  proof (cases "s = []")
    case False
    obtain r w where d: "decode_rune (codes s) = (r, w)" by force
    have v: "(r, w) \<noteq> (rune_error, 1)" "valid_utf8 (drop w s)"
      using 1(2) False d valid_utf8.simps [of s] by (simp_all add: plain_text_def)
    have nul: "CHR 0x00 \<notin> set (take w s)" "CHR 0x00 \<notin> set (drop w s)"
      using 1(2) by (auto simp: plain_text_def dest: in_set_takeD in_set_dropD)
    have "(if bad_rune r then utf8 r else text_shown (take w s)) = take w s"
      using bad_rune_encoded [OF d] False v(1) text_shown_plain nul(1) by simp
    moreover have "attr_shown (drop w s) = drop w s"
      using 1(1) [OF False] d nul(2) v(2) by (simp add: plain_text_def)
    ultimately show ?thesis using False d by (subst attr_shown.simps) (simp only: if_False fst_conv snd_conv append_take_drop_id)
  qed (simp add: attr_shown.simps)
qed

section \<open>A value at its place\<close>

text \<open>Two pieces, of the page and of what is meant, that a browser reads alike from one place to another.\<close>

definition alike :: "place \<Rightarrow> place \<Rightarrow> sym list \<Rightarrow> sym list \<Rightarrow> bool" where
  "alike p q a b \<longleftrightarrow> (\<forall>r m. related p r m \<longrightarrow>
     (\<exists>r' m'. browse p r a = (q, r') \<and> browse p m b = (q, m') \<and> related q r' m'))"

lemma alikeI:
  assumes "\<And>r m. related p r m \<Longrightarrow> \<exists>r' m'. browse p r a = (q, r') \<and> browse p m b = (q, m') \<and> related q r' m'"
  shows "alike p q a b"
  using assms by (simp add: alike_def)

lemma alike_Nil: "alike p p [] []"
  by (simp add: alike_def)

lemma alike_append: "alike p q a b \<Longrightarrow> alike q q' c d \<Longrightarrow> alike p q' (a @ c) (b @ d)"
  by (rule alikeI) (auto simp: alike_def browse_append split: prod.splits, metis prod.inject)

lemma alike_text: "place_after p t \<noteq> BStop \<Longrightarrow> alike p (place_after p t) (map Lit t) (map Lit t)"
  by (rule alikeI) (rule text_related)

lemma map_sym [simp]: "map sym_char (map Lit s) = s" "map sym_char (map Dyn s) = s"
  "sym_char \<circ> Lit = (\<lambda>c. c)" "sym_char \<circ> Dyn = (\<lambda>c. c)"
  by (induction s) auto

lemma alike_data:
  assumes "inert s" and "reads s t" shows "alike BData BData (map Lit s) (map Dyn t)"
proof (rule alikeI)
  fix r m assume "related BData r m"
  then show "\<exists>r' m'. browse BData r (map Lit s) = (BData, r') \<and> browse BData m (map Dyn t) = (BData, m') \<and> related BData r' m'"
    using assms data_run(1) [of s r] data_run(2) [of m t] reads_append
    by (simp add: related_def rel_def rel_text_def inert_def rev_map [symmetric])
qed

lemma alike_raw:
  assumes "CHR ''<'' \<notin> set s" and "if List.member raw_elements n then s = t else reads s t"
  shows "alike (BRaw n []) (BRaw n []) (map Lit s) (map Dyn t)"
proof (rule alikeI)
  fix r m assume "related (BRaw n []) r m"
  then show "\<exists>r' m'. browse (BRaw n []) r (map Lit s) = (BRaw n [], r') \<and> browse (BRaw n []) m (map Dyn t) = (BRaw n [], m')
      \<and> related (BRaw n []) r' m'"
    using assms raw_run(1) [of s n r] raw_run(2) [of n m t] reads_append
    by (auto simp: related_def rel_def rel_text_def rev_map [symmetric] split: if_splits)
qed

lemma alike_value:
  assumes "inert s" and "reads s t" and "q = CHR 0x22 \<or> q = CHR 0x27"
  shows "alike (BVal closing n q) (BVal closing n q) (map Lit s) (map Dyn t)"
proof (rule alikeI)
  fix r m assume rel: "related (BVal closing n q) r m"
  have "q \<notin> set s" using assms(1,3) by (auto simp: inert_def)
  moreover have "list_all2 rel_attr (on_last (\<lambda>(a, v). (a, rev (map Lit s) @ v)) as) (on_last (\<lambda>(a, v). (a, rev (map Dyn t) @ v)) bs)"
    if "list_all2 rel_attr as bs" for as bs
    using that assms(2) reads_append
    by (cases as; cases bs) (auto simp: rel_attr_def rel_text_def rev_map [symmetric])
  ultimately show "\<exists>r' m'. browse (BVal closing n q) r (map Lit s) = (BVal closing n q, r')
      \<and> browse (BVal closing n q) m (map Dyn t) = (BVal closing n q, m') \<and> related (BVal closing n q) r' m'"
    using rel value_run(1) [of q s closing n r] value_run(2) [of closing n q m t]
    by (simp add: related_def rel_def no_text_def)
qed

lemma chain_last: "es \<noteq> [] \<Longrightarrow> escape_chain es s = escaped (last es) (escape_chain (butlast es) s)"
  by (cases es rule: rev_cases) (simp_all add: escape_chain_def)

lemma alike_hole:
  assumes "suits p es" shows "alike p p (map Lit (escape_chain es s)) (put_opaque es s)"
proof (cases p)
  case BData
  then show ?thesis
    using assms alike_data [OF html_reads] by (simp add: suits_def put_opaque_def shown_def escape_chain_def)
next
  case (BVal closing n q)
  then have es: "es \<noteq> []" "last es = EscAttr" "q = CHR 0x22 \<or> q = CHR 0x27" using assms by (simp_all add: suits_def)
  moreover from es(2) have "es \<noteq> [EscHtml]" by auto
  ultimately show ?thesis
    using BVal alike_value attr_reads by (simp add: put_opaque_def shown_def chain_last)
next
  case (BRaw n seen)
  consider (script) "seen = []" "n = ''script''" "es = [EscJsStr]"
    | (refs) "seen = []" "List.member ref_elements n" "es = [EscHtml]"
    using assms BRaw by (auto simp: suits_def)
  then show ?thesis
  proof cases
    case script
    then show ?thesis
      using BRaw alike_raw [OF js_inert] by (simp add: put_opaque_def shown_def escape_chain_def raw_elements_def)
  next
    case refs
    then have "\<not> List.member raw_elements n" by (auto simp: ref_elements_def raw_elements_def)
    then show ?thesis
      using BRaw refs alike_raw [of "html_escaper s" n "text_shown s"] html_reads [of s]
      by (simp add: put_opaque_def shown_def escape_chain_def inert_def)
  qed
qed (use assms in \<open>simp_all add: suits_def\<close>)

section \<open>A whole template\<close>

lemma exec_alike:
  "page_place p ns = Some q \<Longrightarrow> q \<noteq> BStop \<Longrightarrow> exec_nodes escape_chain (\<lambda>t. t) v ns = Some s \<Longrightarrow>
   \<exists>y. exec_nodes put_opaque (map Lit) v ns = Some y \<and> alike p q (map Lit s) y"
proof (induction p ns arbitrary: q v s rule: page_place.induct)
  case (1 p)
  then show ?case by (simp add: alike_Nil)
next
  case (2 p t ns)
  then obtain s' where s: "exec_nodes escape_chain (\<lambda>t. t) v ns = Some s'" "s = t @ s'" by (auto simp: append_opt_Some)
  have "place_after p t \<noteq> BStop" using 2(2,3) page_place_stop by auto
  with 2 s alike_text alike_append show ?case by (fastforce simp: append_opt_Some)
next
  case (3 p es e ns)
  then obtain x u s' where s: "eval_expr v e = Some x" "printed x = Some u" "exec_nodes escape_chain (\<lambda>t. t) v ns = Some s'"
      "s = escape_chain es u @ s'" and suits: "suits p es"
    by (auto simp: append_opt_Some split: option.splits if_splits)
  obtain y where "exec_nodes put_opaque (map Lit) v ns = Some y" "alike p q (map Lit s') y"
    using 3(1) [OF suits _ _ s(3)] 3(2,3) suits by auto
  with s suits alike_append [OF alike_hole] show ?case by (auto simp: append_opt_Some)
next
  case (4 p e yes no ns)
  then obtain p1 where p1: "page_place p yes = Some p1" "page_place p no = Some p1" "page_place p1 ns = Some q"
    by (auto split: option.splits if_splits)
  then have stop: "p1 \<noteq> BStop" using 4(5) page_place_stop by auto
  obtain x a s' where s: "eval_expr v e = Some x" "(if truth x then exec_nodes escape_chain (\<lambda>t. t) v yes else exec_nodes escape_chain (\<lambda>t. t) v no) = Some a"
      "exec_nodes escape_chain (\<lambda>t. t) v ns = Some s'" "s = a @ s'"
    using 4(6) by (auto simp: append_opt_Some split: option.splits)
  have "\<exists>y. (if truth x then exec_nodes put_opaque (map Lit) v yes else exec_nodes put_opaque (map Lit) v no) = Some y
      \<and> alike p p1 (map Lit a) y"
    using 4(1) 4(2) p1 stop s(2) by (cases "truth x") auto
  moreover obtain y where "exec_nodes put_opaque (map Lit) v ns = Some y" "alike p1 q (map Lit s') y"
    using 4(3) [OF p1(1,2) refl p1(3) 4(5) s(3)] by blast
  ultimately show ?case using s alike_append by (fastforce simp: append_opt_Some)
next
  case (5 p e body ns)
  then have p: "page_place p body = Some p" "page_place p ns = Some q" by (auto split: option.splits if_splits)
  then have stop: "p \<noteq> BStop" using 5(4) page_place_stop by auto
  obtain xs a s' where s: "eval_expr v e = Some (VList xs)" "concat_opt (map (\<lambda>x. exec_nodes escape_chain (\<lambda>t. t) x body) xs) = Some a"
      "exec_nodes escape_chain (\<lambda>t. t) v ns = Some s'" "s = a @ s'"
    using 5(5) by (auto simp: append_opt_Some split: option.splits val.splits)
  have "\<exists>y. concat_opt (map (\<lambda>x. exec_nodes put_opaque (map Lit) x body) xs) = Some y \<and> alike p p (map Lit a) y"
    using s(2)
  proof (induction xs arbitrary: a)
    case (Cons x xs)
    then obtain b c where "exec_nodes escape_chain (\<lambda>t. t) x body = Some b"
        "concat_opt (map (\<lambda>x. exec_nodes escape_chain (\<lambda>t. t) x body) xs) = Some c" "a = b @ c"
      by (auto simp: append_opt_Some)
    with Cons.IH 5(1) [OF p(1) stop] alike_append show ?case by (fastforce simp: append_opt_Some)
  qed (simp add: alike_Nil)
  moreover obtain y where "exec_nodes put_opaque (map Lit) v ns = Some y" "alike p q (map Lit s') y"
    using 5(2) [OF p(1) refl p(2) 5(4) s(3)] by blast
  ultimately show ?case using s alike_append by (fastforce simp: append_opt_Some)
qed

theorem page_read_as_meant:
  assumes "page_place BData es = Some BData" and "exec_nodes escape_chain (\<lambda>t. t) v es = Some page"
  shows "\<exists>meant. meant_page es v = Some meant \<and> page_dom page = meant_dom meant \<and> page_dom page \<noteq> None"
proof -
  obtain y where y: "exec_nodes put_opaque (map Lit) v es = Some y" "alike BData BData (map Lit page) y"
    using exec_alike assms by blast
  have "related BData start_reading start_reading"
    by (simp add: related_def rel_def start_reading_def)
  then obtain r m where run: "browse BData start_reading (map Lit page) = (BData, r)" "browse BData start_reading y = (BData, m)"
      and rel: "rel False r m"
    using y(2) by (fastforce simp: alike_def related_def)
  have "map dom_read (rd_out (flush_text False r)) = map dom_meant (rd_out (flush_text False m))"
    using rel_OFlush(1) [OF rel, of False] by (simp add: rel_def operate.simps)
  then show ?thesis
    using y(1) run by (simp add: meant_page_def page_dom_def meant_dom_def tokens_def rev_map [symmetric])
qed

end
