(* ===== verification/BrowserMarkup.thy ===== *)
theory BrowserMarkup
  imports BrowserFacts
begin

text \<open>
  The markup of a page, its tags with the names of their attributes, depends on the template and on
  the branches taken in it, not on the values it prints.
\<close>

section \<open>Markup that values cannot change\<close>

text \<open>What there is of markup in a page: the tags with the names of their attributes.\<close>

fun tag_of :: "dom \<Rightarrow> (bool \<times> string \<times> string list) list" where
  "tag_of (DomText s) = []"
| "tag_of (DomTag closing n as) = [(closing, n, map fst as)]"

definition markup :: "dom list \<Rightarrow> (bool \<times> string \<times> string list) list" where
  "markup ds = concat (map tag_of ds)"

fun is_lit :: "sym \<Rightarrow> bool" where
  "is_lit (Lit c) = True"
| "is_lit (Dyn c) = False"

definition same_markup :: "reading \<Rightarrow> reading \<Rightarrow> bool" where
  "same_markup r m \<longleftrightarrow> map fst (rd_attrs r) = map fst (rd_attrs m)
    \<and> markup (map dom_meant (rev (rd_out r))) = markup (map dom_meant (rev (rd_out m)))"

lemma markup_append [simp]: "markup (a @ b) = markup a @ markup b"
  by (simp add: markup_def)

lemma markup_Nil [simp]: "markup [] = []"
  by (simp add: markup_def)

lemma on_last_fst:
  "map fst as = map fst bs \<Longrightarrow> (\<And>x y. fst x = fst y \<Longrightarrow> fst (f x) = fst (g y)) \<Longrightarrow>
   map fst (on_last f as) = map fst (on_last g bs)"
  by (cases as; cases bs) auto

lemma operate_markup: "same_markup r m \<Longrightarrow> same_markup (operate x r) (operate x m)"
  by (cases x) (auto simp: operate.simps same_markup_def flush_text_def markup_def rev_map [symmetric] case_prod_unfold
      comp_def intro!: on_last_fst)

lemma operates_markup: "same_markup r m \<Longrightarrow> same_markup (fold operate ops r) (fold operate ops m)"
  by (induction ops arbitrary: r m) (auto intro: operate_markup)

lemma on_last_value: "map fst (on_last (\<lambda>(n, v). (n, s # v)) as) = map fst as"
  by (cases as) auto

lemma opaque_markup:
  "same_markup r m \<Longrightarrow> snd (browse_opaque p c) \<noteq> BStop \<Longrightarrow>
   snd (browse_opaque p c) = p \<and> same_markup (fold operate (fst (browse_opaque p c)) r) m"
  by (cases p) (simp_all add: browse_opaque_def operate.simps same_markup_def on_last_value split: if_splits)

lemma browse_stop: "fst (browse BStop r ss) = BStop"
proof (induction ss arbitrary: r)
  case (Cons s ss)
  then show ?case by (cases s) (auto simp: browse_opaque_def)
qed simp

text \<open>Opaque bytes change no place and no tag.\<close>

lemma literal_markup:
  "same_markup r m \<Longrightarrow> fst (browse p r ss) \<noteq> BStop \<Longrightarrow>
   fst (browse p m (filter is_lit ss)) = fst (browse p r ss)
   \<and> same_markup (snd (browse p r ss)) (snd (browse p m (filter is_lit ss)))"
proof (induction ss arbitrary: p r m)
  case (Cons s ss)
  show ?case
  proof (cases s)
    case (Lit c)
    then show ?thesis
      using Cons.IH [OF operates_markup [OF Cons.prems(1)]] Cons.prems(2) by (auto split: prod.splits)
  next
    case (Dyn c)
    obtain ops q where step: "browse_opaque p c = (ops, q)" by force
    have "q \<noteq> BStop" using Cons.prems(2) Dyn step browse_stop by auto
    then have "q = p" "same_markup (fold operate ops r) m" using opaque_markup [OF Cons.prems(1), of p c] step by simp_all
    then show ?thesis using Cons.IH [of "fold operate ops r" m p] Cons.prems(2) Dyn step by simp
  qed
qed simp

lemma flush_markup: "same_markup r m \<Longrightarrow> same_markup (flush_text False r) (flush_text False m)"
  using operate_markup [of r m "OFlush False"] by (simp add: operate.simps)

lemma tokens_markup:
  assumes "filter is_lit y = filter is_lit y'" and "meant_dom y = Some d" and "meant_dom y' = Some d'"
  shows "markup d = markup d'"
proof -
  obtain r r' where r: "browse BData start_reading y = (BData, r)" "browse BData start_reading y' = (BData, r')"
      and d: "d = map dom_meant (rev (rd_out (flush_text False r)))" "d' = map dom_meant (rev (rd_out (flush_text False r')))"
    using assms(2,3) by (auto simp: meant_dom_def tokens_def split: prod.splits if_splits)
  have "same_markup start_reading start_reading" by (simp add: same_markup_def)
  from literal_markup [OF this, of BData y] literal_markup [OF this, of BData y'] r
  have "same_markup r (snd (browse BData start_reading (filter is_lit y)))"
      "same_markup r' (snd (browse BData start_reading (filter is_lit y')))" by simp_all
  then have "same_markup r r'" using assms(1) by (simp add: same_markup_def)
  then show ?thesis using flush_markup [of r r'] d by (simp add: same_markup_def)
qed

section \<open>Values that take the same branches\<close>

text \<open>
  Two values that take every branch of a template alike: some fields agree in their truth, others in
  being the string \<open>captured\<close>, the only constant the templates compare with. All else may differ.
\<close>

definition is_captured :: "val \<Rightarrow> bool option" where
  "is_captured v = (case v of VStr s \<Rightarrow> Some (s = ''captured'') | _ \<Rightarrow> None)"

definition like_fields :: "string list \<Rightarrow> string list \<Rightarrow> (string \<times> val) list \<Rightarrow> (string \<times> val) list \<Rightarrow> bool" where
  "like_fields T U fs gs \<longleftrightarrow> map fst fs = map fst gs
    \<and> list_all2 (\<lambda>x y. (List.member T (fst x) \<longrightarrow> truth (snd x) = truth (snd y))
        \<and> (List.member U (fst x) \<longrightarrow> is_captured (snd x) = is_captured (snd y))) fs gs"

fun like :: "string list \<Rightarrow> string list \<Rightarrow> val \<Rightarrow> val \<Rightarrow> bool" where
  "like T U (VList xs) w = (case w of VList ys \<Rightarrow> list_all2 (like T U) xs ys | _ \<Rightarrow> False)"
| "like T U (VRec fs) w = (case w of VRec gs \<Rightarrow> like_fields T U fs gs | _ \<Rightarrow> False)"
| "like T U v w = False"

definition tests :: "string list \<Rightarrow> string list \<Rightarrow> expr \<Rightarrow> bool" where
  "tests T U e =
    (case e of
       Dot \<Rightarrow> True
     | Field f \<Rightarrow> List.member T f
     | Eq f s \<Rightarrow> List.member U f \<and> s = ''captured''
     | And f g \<Rightarrow> List.member T f \<and> List.member T g)"

fun branches_on :: "string list \<Rightarrow> string list \<Rightarrow> tnode list \<Rightarrow> bool" where
  "branches_on T U [] = True"
| "branches_on T U (TText t # ns) = branches_on T U ns"
| "branches_on T U (TPrint es e # ns) = branches_on T U ns"
| "branches_on T U (TIf e yes no # ns) =
    (tests T U e \<and> branches_on T U yes \<and> branches_on T U no \<and> branches_on T U ns)"
| "branches_on T U (TRange e body # ns) = (e = Dot \<and> branches_on T U body \<and> branches_on T U ns)"

lemma like_field:
  assumes "like T U v w"
  shows "(field_of v f = None \<and> field_of w f = None) \<or> (\<exists>x y. field_of v f = Some x \<and> field_of w f = Some y
    \<and> (List.member T f \<longrightarrow> truth x = truth y) \<and> (List.member U f \<longrightarrow> is_captured x = is_captured y))"
proof -
  have "(map_of fs f = None \<and> map_of gs f = None) \<or> (\<exists>x y. map_of fs f = Some x \<and> map_of gs f = Some y
      \<and> (List.member T f \<longrightarrow> truth x = truth y) \<and> (List.member U f \<longrightarrow> is_captured x = is_captured y))"
    if "map fst fs = map fst gs"
      "list_all2 (\<lambda>x y. (List.member T (fst x) \<longrightarrow> truth (snd x) = truth (snd y))
        \<and> (List.member U (fst x) \<longrightarrow> is_captured (snd x) = is_captured (snd y))) fs gs" for fs gs
    using that(2,1) by (induction rule: list_all2_induct) auto
  with assms show ?thesis by (cases v; cases w) (auto simp: field_of_def like_fields_def)
qed

lemma like_truth: "like T U v w \<Longrightarrow> truth v = truth w"
  by (cases v; cases w) (auto simp: truth_def)

lemma eval_captured:
  "eval_expr v (Eq f ''captured'') = (case field_of v f of None \<Rightarrow> None | Some x \<Rightarrow> map_option VBool (is_captured x))"
  by (auto simp: is_captured_def split: option.splits val.splits)

lemma like_branch:
  assumes "like T U v w" and "tests T U e"
  shows "map_option truth (eval_expr v e) = map_option truth (eval_expr w e)"
proof (cases e)
  case (Eq f s)
  then have "List.member U f" "s = ''captured''" using assms(2) by (simp_all add: tests_def)
  with like_field [OF assms(1), of f] Eq show ?thesis
    by (auto simp: eval_captured simp del: eval_expr.simps)
next
  case (And f g)
  then have "List.member T f" "List.member T g" using assms(2) by (simp_all add: tests_def)
  with like_field [OF assms(1), of f] like_field [OF assms(1), of g] And show ?thesis by auto
next
  case (Field f)
  with like_field [OF assms(1), of f] assms(2) show ?thesis by (auto simp: tests_def)
qed (use assms(1) like_truth in auto)

lemma lit_put [simp]: "filter is_lit (put_opaque es s) = []"
  by (simp add: put_opaque_def filter_map comp_def)

lemma exec_literals:
  "branches_on T U ns \<Longrightarrow> like T U v w \<Longrightarrow> exec_nodes put_opaque (map Lit) v ns = Some y \<Longrightarrow>
   exec_nodes put_opaque (map Lit) w ns = Some z \<Longrightarrow> filter is_lit y = filter is_lit z"
proof (induction T U ns arbitrary: v w y z rule: branches_on.induct)
  case (3 T U es e ns)
  then show ?case by (fastforce simp: append_opt_Some split: option.splits)
next
  case (4 T U e yes no ns)
  have "map_option truth (eval_expr v e) = map_option truth (eval_expr w e)" using like_branch 4(4,5) by auto
  then obtain x x' where x: "eval_expr v e = Some x" "eval_expr w e = Some x'" "truth x = truth x'"
    using 4(6) by (cases "eval_expr w e") (auto simp: append_opt_Some split: option.splits)
  obtain a y' where a: "(if truth x then exec_nodes put_opaque (map Lit) v yes else exec_nodes put_opaque (map Lit) v no) = Some a"
      "exec_nodes put_opaque (map Lit) v ns = Some y'" "y = a @ y'"
    using 4(6) x(1) by (auto simp: append_opt_Some)
  obtain b z' where b: "(if truth x then exec_nodes put_opaque (map Lit) w yes else exec_nodes put_opaque (map Lit) w no) = Some b"
      "exec_nodes put_opaque (map Lit) w ns = Some z'" "z = b @ z'"
    using 4(7) x(2,3) by (auto simp: append_opt_Some)
  have "filter is_lit a = filter is_lit b" using 4(1) [of v w a b] 4(2) [of v w a b] 4(4,5) a(1) b(1) by (auto split: if_splits)
  moreover have "filter is_lit y' = filter is_lit z'" using 4(3) [of v w y' z'] 4(4,5) a(2) b(2) by auto
  ultimately show ?case using a(3) b(3) by simp
next
  case (5 T U e body ns)
  then obtain xs ys where xs: "v = VList xs" "w = VList ys" "list_all2 (like T U) xs ys"
    by (cases v; cases w) (auto simp: append_opt_Some)
  obtain a y' where a: "concat_opt (map (\<lambda>x. exec_nodes put_opaque (map Lit) x body) xs) = Some a"
      "exec_nodes put_opaque (map Lit) v ns = Some y'" "y = a @ y'"
    using 5(3,5) xs(1) by (auto simp: append_opt_Some)
  obtain b z' where b: "concat_opt (map (\<lambda>x. exec_nodes put_opaque (map Lit) x body) ys) = Some b"
      "exec_nodes put_opaque (map Lit) w ns = Some z'" "z = b @ z'"
    using 5(3,6) xs(2) by (auto simp: append_opt_Some)
  have "filter is_lit a = filter is_lit b"
    using xs(3) a(1) b(1)
  proof (induction arbitrary: a b rule: list_all2_induct)
    case (Cons x xs x' ys)
    then obtain a1 a2 b1 b2 where p: "exec_nodes put_opaque (map Lit) x body = Some a1" "a = a1 @ a2"
        "concat_opt (map (\<lambda>x. exec_nodes put_opaque (map Lit) x body) xs) = Some a2"
        "exec_nodes put_opaque (map Lit) x' body = Some b1" "b = b1 @ b2"
        "concat_opt (map (\<lambda>x. exec_nodes put_opaque (map Lit) x body) ys) = Some b2"
      by (auto simp: append_opt_Some)
    then have "filter is_lit a1 = filter is_lit b1" using 5(1) [of x x' a1 b1] 5(3) Cons.hyps by auto
    with Cons.IH p show ?case by auto
  qed simp
  moreover have "filter is_lit y' = filter is_lit z'" using 5(2) [of v w y' z'] 5(3,4) a(2) b(2) by auto
  ultimately show ?case using a(3) b(3) by simp
qed (fastforce simp: append_opt_Some)+

end
