(* ===== verification/TemplateFacts.thy ===== *)
theory TemplateFacts
  imports Template
begin

text \<open>
  A type system for templates: a template that passes the check is executed without an error on
  every value of the type it was checked for.
\<close>

datatype ty = TyStr | TyInt | TyBool | TyRec "(string \<times> ty) list" | TyList ty

fun has_ty :: "val \<Rightarrow> ty \<Rightarrow> bool" where
  "has_ty (VStr s) t \<longleftrightarrow> t = TyStr"
| "has_ty (VInt i) t \<longleftrightarrow> t = TyInt"
| "has_ty (VBool b) t \<longleftrightarrow> t = TyBool"
| "has_ty (VList xs) t = (case t of TyList t' \<Rightarrow> list_all (\<lambda>x. has_ty x t') xs | _ \<Rightarrow> False)"
| "has_ty (VRec fs) t =
    (case t of
       TyRec ts \<Rightarrow> map fst fs = map fst ts \<and> list_all2 (\<lambda>x y. has_ty (snd x) (snd y)) fs ts
     | _ \<Rightarrow> False)"

definition field_ty :: "ty \<Rightarrow> string \<Rightarrow> ty option" where
  "field_ty t f = (case t of TyRec ts \<Rightarrow> map_of ts f | _ \<Rightarrow> None)"

fun expr_ty :: "ty \<Rightarrow> expr \<Rightarrow> ty option" where
  "expr_ty t Dot = Some t"
| "expr_ty t (Field f) = field_ty t f"
| "expr_ty t (Eq f s) = (if field_ty t f = Some TyStr then Some TyBool else None)"
| "expr_ty t (And f g) = (if field_ty t f = field_ty t g then field_ty t f else None)"

text \<open>A condition needs a value of any type: the operands of \<open>and\<close> may differ in theirs.\<close>

definition decides :: "ty \<Rightarrow> expr \<Rightarrow> bool" where
  "decides t e =
    (case e of And f g \<Rightarrow> field_ty t f \<noteq> None \<and> field_ty t g \<noteq> None | _ \<Rightarrow> expr_ty t e \<noteq> None)"

definition printable :: "ty option \<Rightarrow> bool" where
  "printable t \<longleftrightarrow> t = Some TyStr \<or> t = Some TyInt \<or> t = Some TyBool"

fun typed :: "ty \<Rightarrow> tnode list \<Rightarrow> bool" where
  "typed t [] = True"
| "typed t (TText x # ns) = typed t ns"
| "typed t (TPrint es e # ns) = (printable (expr_ty t e) \<and> typed t ns)"
| "typed t (TIf e yes no # ns) = (decides t e \<and> typed t yes \<and> typed t no \<and> typed t ns)"
| "typed t (TRange e body # ns) =
    ((case expr_ty t e of Some (TyList t') \<Rightarrow> typed t' body | _ \<Rightarrow> False) \<and> typed t ns)"

lemma fields_ty:
  "map fst fs = map fst ts \<Longrightarrow> list_all2 (\<lambda>x y. has_ty (snd x) (snd y)) fs ts \<Longrightarrow> map_of ts f = Some t
    \<Longrightarrow> \<exists>x. map_of fs f = Some x \<and> has_ty x t"
proof (induction fs arbitrary: ts)
  case (Cons x fs)
  then show ?case by (cases ts) (auto split: if_splits)
qed simp

lemma field_of_ty: "has_ty v t \<Longrightarrow> field_ty t f = Some t' \<Longrightarrow> \<exists>x. field_of v f = Some x \<and> has_ty x t'"
  using fields_ty by (cases v) (auto simp: field_ty_def field_of_def split: ty.splits)

lemma string_ty: "has_ty x TyStr \<longleftrightarrow> (\<exists>s. x = VStr s)"
  by (cases x) auto

lemma eval_ty: "has_ty v t \<Longrightarrow> expr_ty t e = Some t' \<Longrightarrow> \<exists>x. eval_expr v e = Some x \<and> has_ty x t'"
proof (cases e)
  case (Eq f s)
  moreover assume "has_ty v t" "expr_ty t e = Some t'"
  ultimately show ?thesis
    using field_of_ty [of v t f TyStr] by (auto simp: string_ty split: if_splits)
next
  case (And f g)
  moreover assume "has_ty v t" "expr_ty t e = Some t'"
  ultimately show ?thesis
    using field_of_ty [of v t f t'] field_of_ty [of v t g t'] by (auto split: if_splits)
qed (auto dest: field_of_ty)

lemma decides_eval: "has_ty v t \<Longrightarrow> decides t e \<Longrightarrow> \<exists>x. eval_expr v e = Some x"
proof (cases "\<exists>f g. e = And f g")
  case True
  then obtain f g where e: "e = And f g" by blast
  moreover assume "has_ty v t" "decides t e"
  ultimately show ?thesis
    using field_of_ty [of v t f] field_of_ty [of v t g] by (fastforce simp: decides_def)
next
  case False
  moreover assume "has_ty v t" "decides t e"
  ultimately have "\<exists>t'. expr_ty t e = Some t'" by (cases e) (auto simp: decides_def)
  then show ?thesis using eval_ty \<open>has_ty v t\<close> by blast
qed

lemma printable_printed: "has_ty x t \<Longrightarrow> printable (Some t) \<Longrightarrow> \<exists>s. printed x = Some s"
  by (cases x) (auto simp: printed_def printable_def)

lemma concat_opt_Some: "\<forall>x \<in> set xs. \<exists>y. f x = Some y \<Longrightarrow> \<exists>y. concat_opt (map f xs) = Some y"
  by (induction xs) (auto simp: append_opt_def both_def)

lemma typed_executes: "typed t ns \<Longrightarrow> has_ty v t \<Longrightarrow> \<exists>s. exec_nodes put lit v ns = Some s"
proof (induction t ns arbitrary: v rule: typed.induct)
  case (3 t es e ns)
  then obtain t' where "expr_ty t e = Some t'" "printable (Some t')" by (cases "expr_ty t e") (auto simp: printable_def)
  moreover from this obtain x where "eval_expr v e = Some x" "has_ty x t'" using eval_ty 3(3) by blast
  ultimately have "\<exists>x s. eval_expr v e = Some x \<and> printed x = Some s" using printable_printed by blast
  with 3 show ?case by (fastforce simp: append_opt_def both_def)
next
  case (4 t e yes no ns)
  obtain x where "eval_expr v e = Some x" using 4(4,5) decides_eval [of v t e] by auto
  with 4 show ?case by (cases "truth x") (fastforce simp: append_opt_def both_def)+
next
  case (5 t e body ns)
  then obtain t' where t': "expr_ty t e = Some (TyList t')" "typed t' body" by (auto split: option.splits ty.splits)
  with 5(4) obtain xs where xs: "eval_expr v e = Some (VList xs)" "list_all (\<lambda>x. has_ty x t') xs"
    using eval_ty [of v t e "TyList t'"] by (auto elim!: has_ty.elims split: ty.splits)
  then have "\<forall>x \<in> set xs. \<exists>y. exec_nodes put lit x body = Some y"
    using 5(1) [OF t'(1) refl t'(2)] by (simp add: list_all_iff)
  from concat_opt_Some [OF this] xs 5 show ?case by (fastforce simp: append_opt_def both_def)
qed (fastforce simp: append_opt_def both_def)+

end
