(* ===== verification/PagesFacts.thy ===== *)
theory PagesFacts
  imports Pages BrowserMarkup TemplateFacts
begin

text \<open>
  The pages of the dashboard: every view is rendered, and a browser reads each page as it is meant,
  whatever the values are that processes, labels and requests put into it.
\<close>

section \<open>The templates pass the checks\<close>

definition row_ty :: ty where
  "row_ty = TyRec
    [(''Port'', TyInt), (''Label'', TyStr), (''Cmd'', TyStr), (''Cwd'', TyStr), (''UptimeS'', TyInt), (''Source'', TyStr),
     (''PID'', TyInt), (''ListenAddrs'', TyList TyStr), (''Alive'', TyBool), (''Remembered'', TyBool),
     (''RememberedID'', TyStr), (''Uptime'', TyStr), (''Self'', TyBool), (''Disabled'', TyBool)]"

definition login_ty :: ty where
  "login_ty = TyRec [(''PublicHost'', TyStr), (''Next'', TyStr), (''Error'', TyStr)]"

definition dashboard_ty :: ty where
  "dashboard_ty = TyRec [(''PublicHost'', TyStr), (''PortMin'', TyInt), (''PortMax'', TyInt), (''User'', TyStr)]"

definition admitted_nodes :: "ty \<Rightarrow> string list \<Rightarrow> tnode list \<Rightarrow> bool" where
  "admitted_nodes t T es \<longleftrightarrow> typed t es \<and> branches_on T [''Source''] es \<and> page_place BData es = Some BData"

text \<open>
  A file that is parsed and escaped, has the type, branches on some fields only, and prints every
  value at a place its escapers suit; with a condition on the template that comes out.
\<close>

definition admitted :: "ty \<Rightarrow> string list \<Rightarrow> (tnode list \<Rightarrow> bool) \<Rightarrow> string \<Rightarrow> bool" where
  "admitted t T ok text =
    (case parse_template text of
       None \<Rightarrow> False
     | Some ns \<Rightarrow> (case escape_template ns of None \<Rightarrow> False | Some es \<Rightarrow> admitted_nodes t T es \<and> ok es))"

definition any_nodes :: "tnode list \<Rightarrow> bool" where "any_nodes es = True"

definition row_tests :: "string list" where
  "row_tests = [''Self'', ''Remembered'', ''Disabled'', ''Port'', ''Label'', ''Cwd'', ''RememberedID'']"

definition login_tests :: "string list" where "login_tests = [''Next'', ''Error'']"

text \<open>The script element that holds the configuration of the page, at the end of the dashboard.\<close>

definition config_open :: string where
  "config_open = ''<script id='' @ [CHR 0x22] @ ''pm-config'' @ [CHR 0x22] @ '' type='' @ [CHR 0x22] @ ''application/json'' @ [CHR 0x22] @ ''>''"

definition json_open :: string where
  "json_open = [CHR ''{'', CHR 0x22] @ ''publicHost'' @ [CHR 0x22, CHR '':'', CHR 0x22]"

definition json_close :: string where "json_close = [CHR 0x22, CHR ''}'']"

definition ends_with_config :: "tnode list \<Rightarrow> bool" where
  "ends_with_config es =
    (case rev es of
       n3 # n2 # n1 # _ \<Rightarrow>
         (case n3 of
            TText b \<Rightarrow>
              is_prefix (json_close @ ''</script>'') b \<and> n2 = TPrint [EscJsStr] (Field ''PublicHost'')
              \<and> (case n1 of TText a \<Rightarrow> is_prefix (rev (config_open @ json_open)) (rev a) | _ \<Rightarrow> False)
          | _ \<Rightarrow> False)
     | _ \<Rightarrow> False)"

lemma ports_admitted: "admitted (TyList row_ty) row_tests any_nodes ports_html"
  by code_simp

lemma dashboard_admitted: "admitted dashboard_ty [] ends_with_config dashboard_html"
  by code_simp

lemma login_admitted: "admitted login_ty login_tests any_nodes login_html"
  by code_simp

definition view_ty :: "view \<Rightarrow> ty" where
  "view_ty v =
    (case v of LoginView _ _ _ \<Rightarrow> login_ty | DashboardView _ _ _ _ \<Rightarrow> dashboard_ty | PortsView _ \<Rightarrow> TyList row_ty)"

lemma view_has_ty: "has_ty (view_val v) (view_ty v)"
  by (cases v) (simp_all add: view_val_def view_ty_def login_val_def login_ty_def dashboard_val_def dashboard_ty_def
      rows_val_def row_val_def row_ty_def list_all_iff)

definition view_tests :: "view \<Rightarrow> string list" where
  "view_tests v = (case v of LoginView _ _ _ \<Rightarrow> login_tests | DashboardView _ _ _ _ \<Rightarrow> [] | PortsView _ \<Rightarrow> row_tests)"

section \<open>The registry\<close>

definition view_text :: "view \<Rightarrow> string" where
  "view_text v =
    (case v of LoginView _ _ _ \<Rightarrow> login_html | DashboardView _ _ _ _ \<Rightarrow> dashboard_html | PortsView _ \<Rightarrow> ports_html)"

lemma view_admitted: "\<exists>ok. admitted (view_ty v) (view_tests v) ok (view_text v)"
  using ports_admitted dashboard_admitted login_admitted
  by (cases v) (auto simp: view_ty_def view_text_def view_tests_def)

lemma web_files:
  "glob_templates web_Templates = Some [''templates/_ports.html'', ''templates/dashboard.html'', ''templates/login.html'']"
  "read_template web_Templates ''templates/_ports.html'' = Some ports_html"
  "read_template web_Templates ''templates/dashboard.html'' = Some dashboard_html"
  "read_template web_Templates ''templates/login.html'' = Some login_html"
  by (simp_all add: web_Templates_def embed_fs_def is_template_file_def has_prefix_def has_suffix_def)

lemma parsed_registry:
  "\<exists>reg. init_templates web_Templates = Some reg \<and> (\<forall>v. reg (view_file v) = parse_template (view_text v))"
proof -
  obtain p d l where "parse_template ports_html = Some p" "parse_template dashboard_html = Some d"
      "parse_template login_html = Some l"
    using ports_admitted dashboard_admitted login_admitted by (auto simp: admitted_def split: option.splits)
  then show ?thesis
    by (auto simp: init_templates_def parseTemplates_def web_files view_file_def view_text_def split: view.split)
qed

text \<open>The template that the registry has for a view, with its escapers.\<close>

definition view_nodes :: "registry \<Rightarrow> view \<Rightarrow> tnode list option" where
  "view_nodes reg v = (case reg (view_file v) of None \<Rightarrow> None | Some ns \<Rightarrow> escape_template ns)"

lemma view_nodes_admitted:
  assumes "init_templates web_Templates = Some reg"
  shows "\<exists>es. view_nodes reg v = Some es \<and> admitted_nodes (view_ty v) (view_tests v) es
    \<and> (\<forall>h lo hi u. v = DashboardView h lo hi u \<longrightarrow> ends_with_config es)"
proof -
  have reg: "reg (view_file v) = parse_template (view_text v)" using parsed_registry assms by auto
  obtain ok where "admitted (view_ty v) (view_tests v) ok (view_text v)" using view_admitted by blast
  then show ?thesis
    using dashboard_admitted reg
    by (auto simp: admitted_def view_nodes_def view_text_def split: option.splits)
qed

lemma renderer_nodes:
  "view_nodes reg v = Some es \<Longrightarrow> page_renderer reg v = exec_nodes escape_chain (\<lambda>t. t) (view_val v) es"
  by (auto simp: view_nodes_def page_renderer_def renderTemplate_def ExecuteTemplate_def execute_def split: option.splits)

lemma view_renders:
  assumes "init_templates web_Templates = Some reg" shows "\<exists>page. page_renderer reg v = Some page"
proof -
  obtain es where es: "view_nodes reg v = Some es" "typed (view_ty v) es"
    using view_nodes_admitted [OF assms, of v] by (auto simp: admitted_nodes_def)
  then show ?thesis using typed_executes [OF es(2) view_has_ty] renderer_nodes [OF es(1)] by metis
qed

section \<open>Every page is rendered\<close>

text \<open>
  C27. The embedded templates are parsed when the package is initialised, which therefore does
  not panic, and every view a handler can render is then rendered: no field is missing or of
  another type, and no value stands where the escaping pass refuses it.
\<close>

theorem pages_render:
  "\<exists>reg. init_templates web_Templates = Some reg \<and> (\<forall>v. \<exists>page. page_renderer reg v = Some page)"
  using parsed_registry view_renders by blast

section \<open>A page is read as it is meant\<close>

text \<open>The view with every value as opaque bytes.\<close>

definition meant_view :: "registry \<Rightarrow> view \<Rightarrow> sym list option" where
  "meant_view reg v = (case view_nodes reg v of None \<Rightarrow> None | Some es \<Rightarrow> meant_page es (view_val v))"

lemma view_read_as_meant:
  assumes "init_templates web_Templates = Some reg" and "page_renderer reg v = Some page"
  shows "\<exists>meant. meant_view reg v = Some meant \<and> page_dom page = meant_dom meant \<and> page_dom page \<noteq> None"
proof -
  obtain es where "view_nodes reg v = Some es" "page_place BData es = Some BData"
    using view_nodes_admitted [OF assms(1), of v] by (auto simp: admitted_nodes_def)
  then show ?thesis using page_read_as_meant assms(2) renderer_nodes by (simp add: meant_view_def)
qed

text \<open>
  C4. Whatever labels, command lines, directories, hosts and login targets a page shows, a
  browser reads in it the tags, the attributes and the texts of the template with the values as
  opaque bytes in their places: no value can end its place or be read as markup.
\<close>

theorem values_stay_values:
  assumes "init_templates web_Templates = Some reg" and "page_renderer reg v = Some page"
  shows "\<exists>meant. meant_view reg v = Some meant \<and> page_dom page = meant_dom meant \<and> page_dom page \<noteq> None"
  by (rule view_read_as_meant [OF assms])

lemma values_stay_values_witness:
  "\<exists>reg page meant. init_templates web_Templates = Some reg
    \<and> page_renderer reg (LoginView ''host'' ''/<script>'' []) = Some page
    \<and> meant_view reg (LoginView ''host'' ''/<script>'' []) = Some meant \<and> page_dom page = meant_dom meant"
proof -
  obtain reg where reg: "init_templates web_Templates = Some reg" using parsed_registry by blast
  then obtain page where page: "page_renderer reg (LoginView ''host'' ''/<script>'' []) = Some page"
    using view_renders by blast
  show ?thesis using reg page values_stay_values [OF reg page] by blast
qed

section \<open>The markup of a page\<close>

text \<open>Views that differ in the values shown, not in what the templates test.\<close>

definition same_row :: "portvm \<Rightarrow> portvm \<Rightarrow> bool" where
  "same_row r r' \<longleftrightarrow>
    vm_Self r = vm_Self r' \<and> vm_Remembered r = vm_Remembered r' \<and> vm_Disabled r = vm_Disabled r'
    \<and> (vm_Port r = 0 \<longleftrightarrow> vm_Port r' = 0) \<and> (vm_Label r = [] \<longleftrightarrow> vm_Label r' = [])
    \<and> (vm_Cwd r = [] \<longleftrightarrow> vm_Cwd r' = []) \<and> (vm_RememberedID r = [] \<longleftrightarrow> vm_RememberedID r' = [])
    \<and> (vm_Source r = ''captured'' \<longleftrightarrow> vm_Source r' = ''captured'')"

fun same_shape :: "view \<Rightarrow> view \<Rightarrow> bool" where
  "same_shape (LoginView h n e) v = (case v of LoginView h' n' e' \<Rightarrow> (n = [] \<longleftrightarrow> n' = []) \<and> (e = [] \<longleftrightarrow> e' = []) | _ \<Rightarrow> False)"
| "same_shape (DashboardView h lo hi u) v = (case v of DashboardView _ _ _ _ \<Rightarrow> True | _ \<Rightarrow> False)"
| "same_shape (PortsView rows) v = (case v of PortsView rows' \<Rightarrow> list_all2 same_row rows rows' | _ \<Rightarrow> False)"

lemma same_row_like: "same_row r r' \<Longrightarrow> like row_tests [''Source''] (row_val r) (row_val r')"
  by (simp add: same_row_def row_val_def row_tests_def like_fields_def truth_def is_captured_def)

lemma same_shape_like: "same_shape v w \<Longrightarrow> view_tests v = view_tests w \<and> view_file v = view_file w
    \<and> like (view_tests v) [''Source''] (view_val v) (view_val w)"
  by (cases v; cases w)
     (auto simp: view_tests_def view_file_def view_val_def login_val_def dashboard_val_def rows_val_def login_tests_def
       like_fields_def truth_def is_captured_def list_all2_map1 list_all2_map2 intro: same_row_like elim!: list_all2_mono)

lemma markup_of_shape:
  assumes reg: "init_templates web_Templates = Some reg" and shape: "same_shape v w"
    and pages: "page_renderer reg v = Some page" "page_renderer reg w = Some page'"
  shows "\<exists>d d'. page_dom page = Some d \<and> page_dom page' = Some d' \<and> markup d = markup d'"
proof -
  note like = same_shape_like [OF shape]
  obtain es where es: "view_nodes reg v = Some es" "branches_on (view_tests v) [''Source''] es"
    using view_nodes_admitted [OF reg, of v] by (auto simp: admitted_nodes_def)
  then have es': "view_nodes reg w = Some es" using like by (simp add: view_nodes_def)
  have meant: "meant_view reg v = meant_page es (view_val v)" "meant_view reg w = meant_page es (view_val w)"
    using es(1) es' by (simp_all add: meant_view_def)
  obtain m where m: "meant_page es (view_val v) = Some m" "page_dom page = meant_dom m" "page_dom page \<noteq> None"
    using view_read_as_meant [OF reg pages(1)] unfolding meant by blast
  obtain m' where m': "meant_page es (view_val w) = Some m'" "page_dom page' = meant_dom m'" "page_dom page' \<noteq> None"
    using view_read_as_meant [OF reg pages(2)] unfolding meant by blast
  from m m' obtain d d' where d: "meant_dom m = Some d" "meant_dom m' = Some d'" by auto
  have "filter is_lit m = filter is_lit m'"
    using exec_literals [OF es(2)] like m(1) m'(1) unfolding meant_page_def by blast
  from tokens_markup [OF this d] d m(2) m'(2) show ?thesis by auto
qed

text \<open>
  C10. Two pages of the same template whose data agree in what the template tests (flags,
  whether a label, a directory, an id or a port is there, whether a row is captured) have the
  same tags with the same attribute names in the same order, whatever the strings and the
  numbers are: no process, label or request can add markup.
\<close>

theorem markup_independent_of_values:
  assumes "init_templates web_Templates = Some reg" and "same_shape v w"
    and "page_renderer reg v = Some page" and "page_renderer reg w = Some page'"
  shows "\<exists>d d'. page_dom page = Some d \<and> page_dom page' = Some d' \<and> markup d = markup d'"
  by (rule markup_of_shape [OF assms])

definition shown_row :: "string \<Rightarrow> portvm" where
  "shown_row cmd = zero_vm\<lparr>vm_Port := 40001, vm_PID := 77, vm_Cmd := cmd, vm_Source := ''external'', vm_Alive := True\<rparr>"

lemma markup_independent_of_values_witness:
  "\<exists>reg page page' d d'. init_templates web_Templates = Some reg
    \<and> page_renderer reg (PortsView [shown_row ''node app.js'']) = Some page
    \<and> page_renderer reg (PortsView [shown_row ''</td><script>alert(1)</script>'']) = Some page'
    \<and> page_dom page = Some d \<and> page_dom page' = Some d' \<and> markup d = markup d'"
proof -
  obtain reg where reg: "init_templates web_Templates = Some reg" using parsed_registry by blast
  obtain page page' where pages: "page_renderer reg (PortsView [shown_row ''node app.js'']) = Some page"
      "page_renderer reg (PortsView [shown_row ''</td><script>alert(1)</script>'']) = Some page'"
    using view_renders [OF reg] by blast
  have "same_shape (PortsView [shown_row ''node app.js'']) (PortsView [shown_row ''</td><script>alert(1)</script>''])"
    by (simp add: same_row_def shown_row_def)
  from markup_independent_of_values [OF reg this pages] reg pages show ?thesis by blast
qed

section \<open>The configuration in the page\<close>

text \<open>What \<open>JSON.parse\<close> makes of a string after its opening quote: the value and what follows it.\<close>

definition json_short :: "(char \<times> char) list" where
  "json_short = [(CHR 0x22, CHR 0x22), (CHR 0x5C, CHR 0x5C), (CHR ''/'', CHR ''/''), (CHR ''b'', CHR 0x08),
     (CHR ''f'', CHR 0x0C), (CHR ''n'', CHR 0x0A), (CHR ''r'', CHR 0x0D), (CHR ''t'', CHR 0x09)]"

fun json_string :: "string \<Rightarrow> (string \<times> string) option" where
  "json_string [] = None"
| "json_string (c # cs) =
    (if c = CHR 0x22 then Some ([], cs)
     else if of_char c < (32 :: nat) then None
     else if c \<noteq> CHR 0x5C then map_option (\<lambda>(v, r). (c # v, r)) (json_string cs)
     else
       (case cs of
          [] \<Rightarrow> None
        | e # es \<Rightarrow>
            if e = CHR ''u'' then
              (case number_from 16 0 (take 4 es) of
                 None \<Rightarrow> None
               | Some n \<Rightarrow>
                   if length es < 4 then None
                   else map_option (\<lambda>(v, r). (utf8 n @ v, r)) (json_string (drop 4 es)))
            else
              (case map_of json_short e of
                 None \<Rightarrow> None
               | Some x \<Rightarrow> map_option (\<lambda>(v, r). (x # v, r)) (json_string es))))"

declare json_string.simps [simp del]

fun strip_bytes :: "string \<Rightarrow> string \<Rightarrow> string option" where
  "strip_bytes [] s = Some s"
| "strip_bytes (p # ps) [] = None"
| "strip_bytes (p # ps) (c # cs) = (if p = c then strip_bytes ps cs else None)"

text \<open>An object with one member whose value is a string.\<close>

definition json_member :: "string \<Rightarrow> (string \<times> string) option" where
  "json_member s =
    (case strip_bytes [CHR ''{'', CHR 0x22] s of
       None \<Rightarrow> None
     | Some t \<Rightarrow>
         (case json_string t of
            None \<Rightarrow> None
          | Some (key, u) \<Rightarrow>
              (case strip_bytes [CHR '':'', CHR 0x22] u of
                 None \<Rightarrow> None
               | Some w \<Rightarrow>
                   (case json_string w of
                      Some (v, x) \<Rightarrow> if x = ''}'' then Some (key, v) else None
                    | None \<Rightarrow> None))))"

lemma length_hex4 [simp]: "length (hex4 n) = 4"
  by (simp add: hex4_def)

lemma json_u: "n < 65536 \<Longrightarrow> json_string (CHR 0x5C # CHR ''u'' # hex4 n @ s) = map_option (\<lambda>(v, r). (utf8 n @ v, r)) (json_string s)"
  by (subst json_string.simps) (simp add: hex4_number)

lemma json_short_read:
  assumes "map_of json_short e = Some x"
  shows "json_string (CHR 0x5C # e # s) = map_option (\<lambda>(v, r). (x # v, r)) (json_string s)"
proof -
  have "e \<noteq> CHR ''u''" using assms by (auto simp: json_short_def)
  with assms show ?thesis by (subst json_string.simps) simp
qed

lemma json_plain:
  "c \<noteq> CHR 0x22 \<Longrightarrow> c \<noteq> CHR 0x5C \<Longrightarrow> \<not> of_char c < (32 :: nat) \<Longrightarrow>
   json_string (c # s) = map_option (\<lambda>(v, r). (c # v, r)) (json_string s)"
  by (subst json_string.simps) simp

lemma json_end: "json_string (CHR 0x22 # s) = Some ([], s)"
  by (simp add: json_string.simps)

text \<open>The bytes with a short escape, and those that are written as four digits.\<close>

definition short_js :: "char \<Rightarrow> bool" where
  "short_js c \<longleftrightarrow> c = CHR 0x09 \<or> c = CHR 0x0A \<or> c = CHR 0x0C \<or> c = CHR 0x0D \<or> c = CHR ''/'' \<or> c = CHR 0x5C"

definition long_js :: "char \<Rightarrow> bool" where
  "long_js c \<longleftrightarrow> of_char c < (32 :: nat) \<or> c = CHR 0x22 \<or> c = CHR 0x60 \<or> c = CHR ''&'' \<or> c = CHR 0x27
     \<or> c = CHR ''+'' \<or> c = CHR ''<'' \<or> c = CHR ''>''"

lemma long_js_char:
  assumes "\<not> short_js c" shows "js_escape_char c = (if long_js c then CHR 0x5C # CHR ''u'' # hex4 (of_char c) else [c])"
  using assms unfolding short_js_def long_js_def js_escape_char_def by (simp only: de_Morgan_disj if_False)

lemma long_js_ascii: "long_js c \<Longrightarrow> of_char c < (128 :: nat)"
  unfolding long_js_def by (elim disjE) simp_all

lemma short_js_read:
  "short_js c \<Longrightarrow> json_string (js_escape_char c @ s) = map_option (\<lambda>(v, r). (c # v, r)) (json_string s)"
  unfolding short_js_def
  by (elim disjE) (simp_all add: js_escape_char_def json_short_read json_short_def)

lemma js_char_read: "json_string (js_escape_char c @ s) = map_option (\<lambda>(v, r). (c # v, r)) (json_string s)"
proof (cases "short_js c")
  case False
  note esc = long_js_char [OF this]
  show ?thesis
  proof (cases "long_js c")
    case True
    note ascii = long_js_ascii [OF this]
    then have "utf8 (of_char c) = [c]" by (simp add: utf8_def)
    moreover have "of_char c < (65536 :: nat)" by (rule less_trans [OF ascii]) simp
    ultimately show ?thesis using json_u [of "of_char c" s] esc True by simp
  next
    case long: False
    then have "c \<noteq> CHR 0x22" "c \<noteq> CHR 0x5C" "\<not> of_char c < (32 :: nat)"
      using False by (simp_all add: long_js_def short_js_def)
    then show ?thesis using esc long json_plain [of c s] by simp
  qed
qed (rule short_js_read)

lemma json_reads_js: "json_string (js_str_escaper s @ CHR 0x22 # rest) = Some (s, rest)"
proof (induction s rule: js_str_escaper.induct)
  case (2 c cs)
  have lines: "hex4 8232 = ''2028''" "hex4 8233 = ''2029''" "utf8 8232 = [CHR 0xE2, CHR 0x80, CHR 0xA8]"
    "utf8 8233 = [CHR 0xE2, CHR 0x80, CHR 0xA9]"
    by (simp_all add: hex4_def hex_digit_def utf8_def) code_simp+
  have three: "cs = a # b # drop 2 cs" if "take 2 cs = [a, b]" for a b
    using that append_take_drop_id [of 2 cs] by simp
  show ?case
  proof (cases "c = CHR 0xE2 \<and> (take 2 cs = [CHR 0x80, CHR 0xA8] \<or> take 2 cs = [CHR 0x80, CHR 0xA9])")
    case True
    then show ?thesis
      using 2(1,2) three json_u [of 8232] json_u [of 8233] lines by auto
  next
    case False
    then show ?thesis using 2(3) js_char_read by auto
  qed
qed (simp add: json_end)

lemma prefix_split: "is_prefix p s \<longleftrightarrow> (\<exists>t. s = p @ t)"
  by (induction p s rule: is_prefix.induct) auto

lemma config_tail:
  assumes "ends_with_config es"
  obtains xs a b where "es = xs @ [TText (a @ config_open @ json_open), TPrint [EscJsStr] (Field ''PublicHost''),
      TText (json_close @ ''</script>'' @ b)]"
proof -
  obtain n3 n2 n1 rs where es: "rev es = n3 # n2 # n1 # rs"
    using assms by (auto simp: ends_with_config_def split: list.splits)
  with assms obtain a b where n: "n3 = TText b" "n2 = TPrint [EscJsStr] (Field ''PublicHost'')" "n1 = TText a"
      "is_prefix (json_close @ ''</script>'') b" "is_prefix (rev (config_open @ json_open)) (rev a)"
    by (auto simp: ends_with_config_def split: tnode.splits)
  then obtain b' a' where "b = json_close @ ''</script>'' @ b'" "rev a = rev (config_open @ json_open) @ a'"
    unfolding prefix_split by auto
  then have "b = json_close @ ''</script>'' @ b'" "a = rev a' @ config_open @ json_open"
    by (simp_all add: rev_swap)
  moreover have "es = rev rs @ [n1, n2, n3]" using arg_cong [OF es, of rev] by simp
  ultimately show thesis using that n by blast
qed



end
