(* ===== verification/ServedPages.thy ===== *)
theory ServedPages
  imports PagesFacts ServerOutput
begin

text \<open>The handlers with the renderer of the production binary, which renders the embedded templates.\<close>

definition shown_rows :: "server \<Rightarrow> request_env \<Rightarrow> site \<Rightarrow> portvm list" where
  "shown_rows s q st =
    (case buildSnapshot s q st of (rows, None) \<Rightarrow> rows | (_, Some _) \<Rightarrow> fst (snapshot_Get st))"

lemma rows_shown: "fst (rows_or_cached s q (w, st)) = shown_rows s q st
    \<and> w_body (fst (snd (rows_or_cached s q (w, st)))) = w_body w
    \<and> w_status (fst (snd (rows_or_cached s q (w, st)))) = w_status w"
  by (auto simp: rows_or_cached_def shown_rows_def snapshot_Get_def set_header_def split: prod.split option.split)

text \<open>
  C26. With the embedded templates the table is always answered with status 200 and a whole HTML
  page, never with an internal error: a browser reads in its body the fragment of the rows of
  this scan, or of the last good one when it failed, with all their values as opaque bytes.
\<close>

theorem table_served:
  assumes "init_templates web_Templates = Some reg" and "q_render q = page_renderer reg"
    and "handlePortsHTML s q r (w, st) = (w', st')" and "w_status w = 0"
  shows "w_status w' = 200 \<and> gm_get (w_header w') ''Content-Type'' = Some ''text/html; charset=utf-8''
    \<and> (\<exists>page meant. w_body w' = w_body w @ page \<and> meant_view reg (PortsView (shown_rows s q st)) = Some meant
        \<and> page_dom page = meant_dom meant \<and> page_dom page \<noteq> None)"
proof -
  let ?v = "PortsView (shown_rows s q st)"
  obtain page where page: "page_renderer reg ?v = Some page" using view_renders assms(1) by blast
  have "w' = html_page page (fst (snd (rows_or_cached s q (w, st))))"
    using assms(2,3) page rows_shown [of s q w st]
    by (auto simp: handlePortsHTML_def write_rows_def split: prod.splits)
  then have "w_status w' = 200 \<and> gm_get (w_header w') ''Content-Type'' = Some ''text/html; charset=utf-8''
      \<and> w_body w' = w_body w @ page"
    using assms(4) rows_shown [of s q w st] by (auto simp: html_page_def Write_def set_header_def update_conv')
  then show ?thesis using view_read_as_meant [OF assms(1) page] by blast
qed

lemma table_served_witness:
  "\<exists>reg w' st'. init_templates web_Templates = Some reg
    \<and> handlePortsHTML failing_server (failing_q\<lparr>q_render := page_renderer reg\<rparr>) sample_request (new_writer, sample_site) = (w', st')
    \<and> w_status w' = 200 \<and> (\<exists>page. w_body w' = page \<and> page_dom page \<noteq> None)"
proof -
  obtain reg where reg: "init_templates web_Templates = Some reg" using parsed_registry by blast
  let ?q = "failing_q\<lparr>q_render := page_renderer reg\<rparr>"
  obtain w' st' where run: "handlePortsHTML failing_server ?q sample_request (new_writer, sample_site) = (w', st')" by force
  have "q_render ?q = page_renderer reg" "w_status new_writer = 0" by (simp_all add: new_writer_def)
  from table_served [OF reg this(1) run this(2)] reg run show ?thesis by (auto simp: new_writer_def)
qed

end
