(* ===== verification/Spec2Isabelle.thy ===== *)
theory Spec2Isabelle
  imports TestSupport CommandFacts StoreSpec Rename ConfigFacts ServedPages
begin

text \<open>
  A verification library for port-manager, a dashboard (in Go) that lists the TCP listeners of the
  user who runs it and kills, restarts and labels them from a browser.

  \<^bold>\<open>The program.\<close> \<^verbatim>\<open>cmd/port-manager\<close> loads a configuration, opens the store, chooses a scanner,
  builds the process manager and the server, and serves. A request passes the request id, the log
  and the recovery from panics, is routed, authenticated (bearer token or session cookie) and, when
  it changes something, checked for its \<^verbatim>\<open>X-Requested-With\<close> header. The handlers scan the host for
  listeners, read the snapshot of a process from the inspector, look labels up in the store, signal
  processes through the manager, and remember what they killed in the store so that it can be
  started again.

  \<^bold>\<open>Reading guide.\<close> Each line names a theory and the code it models; a theory whose name ends in
  \<open>Facts\<close> holds the properties of the theory before it.

  \<^item> \<open>Prelude\<close>: \<open>time.Time\<close> (nanoseconds since the Unix epoch), \<open>time.Duration\<close> with the saturation of
    \<open>Sub\<close>, Go maps (association lists with distinct keys; the locale \<open>go_map\<close>), the range over a map
    in an order the runtime chooses, and the interface \<open>label_lookup\<close>.
  \<^item> \<open>GoStrings\<close>, \<open>GoTime\<close>, \<open>Crypto\<close>: what the program uses of \<^verbatim>\<open>strings\<close>, \<^verbatim>\<open>strconv\<close>, \<^verbatim>\<open>unicode/utf8\<close>,
    \<^verbatim>\<open>encoding/hex\<close>, \<^verbatim>\<open>net\<close>, \<^verbatim>\<open>path/filepath\<close>; \<open>Duration.Seconds\<close> through its rounding to a 53-bit
    mantissa; SHA-256, HMAC, base64url, constant-time comparison, all computed and none assumed.
  \<^item> \<open>Filesystem\<close>: the calls of the two atomic writers, what other processes read and what is left
    after a loss of power, and the locale \<open>atomic_writer\<close>, interpreted by both writers.
  \<^item> \<open>Config\<close> (\<^verbatim>\<open>internal/config/config.go\<close>): \<open>Load\<close> with its merge, its validation, generated
    secrets, the rewrite of the env file and the banner.
  \<^item> \<open>Auth\<close>, \<open>RateLimit\<close> (\<^verbatim>\<open>internal/auth/auth.go\<close>): token, cookie, and the limiter of failed logins
    against the contract \<open>login_limiter\<close>.
  \<^item> \<open>Ulid\<close>, \<open>Store\<close>, \<open>StoreFacts\<close>, \<open>StoreSpec\<close> (\<^verbatim>\<open>internal/store/store.go\<close>): ids in Crockford's
    base 32 by the shifts of the code, the operations of the store, the eviction loops, and the
    abstract store that the store refines.
  \<^item> \<open>Scanner\<close>, \<open>ScannerFacts\<close> (\<^verbatim>\<open>internal/scanner\<close>): the parser of \<^verbatim>\<open>lsof -F\<close>, the walk over the kernel
    tables with the C helper, the choice between them; the contract \<open>listener_scan\<close>, interpreted by
    both scanners.
  \<^item> \<open>Inspector\<close>, \<open>InspectorFacts\<close> (\<^verbatim>\<open>internal/inspector\<close>): the snapshot of a process, the
    classification of errors, and the parser of the \<^verbatim>\<open>KERN_PROCARGS2\<close> buffer.
  \<^item> \<open>Process\<close>, \<open>ProcessFacts\<close> (\<^verbatim>\<open>internal/process/process.go\<close>): \<open>Kill\<close>, the escalation to SIGKILL,
    \<open>spawn\<close> and \<open>Restart\<close>; the contract \<open>guarded_manager\<close>, interpreted by the production manager.
  \<^item> \<open>ViewModel\<close> (\<^verbatim>\<open>internal/model/viewmodel.go\<close>): the rows of the table and the uptime string.
  \<^item> \<open>Http\<close>, \<open>HttpFacts\<close>, \<open>Server\<close>, \<open>ServerFacts\<close>, \<open>ServerOutput\<close>, \<open>Rename\<close>, \<open>TestSupport\<close>
    (\<^verbatim>\<open>internal/server\<close>): requests and responses, the middleware, every handler, the routes, and the
    helpers that the acceptance tests use.
  \<^item> \<open>Template\<close>, \<open>TemplateFacts\<close>: what the pages use of \<^verbatim>\<open>text/template\<close> and \<^verbatim>\<open>html/template\<close>: lexer,
    parser, the pass that finds the HTML context of each action and gives it its escapers, the
    escapers, execution; templates that are well typed never fail.
  \<^item> \<open>Browser\<close>, \<open>BrowserFacts\<close>, \<open>BrowserMarkup\<close>: the reference for the pages, an HTML tokenizer with
    character references; a template whose actions stand in text or quoted attributes is read with
    the markup of its literals and the values as they are.
  \<^item> \<open>Pages\<close>, \<open>PagesFacts\<close>, \<open>ServedPages\<close> (\<^verbatim>\<open>internal/server/render.go\<close>, \<^verbatim>\<open>web/web.go\<close>,
    \<^verbatim>\<open>web/templates\<close>): the embedded templates byte by byte, their registry, the data of each page, and
    the table as it is served.
  \<^item> \<open>Command\<close>, \<open>CommandFacts\<close> (\<^verbatim>\<open>cmd/port-manager/main.go\<close>, \<^verbatim>\<open>server.New\<close>): flags, the directory of
    the store, the wiring and the end of a run.

  \<^bold>\<open>How state and effects are modelled.\<close> A struct is a record with the fields of the code, an error
  value a constructor, a fallible call a sum. An operation under a lock is one step on an explicit
  state: the limiter, the store with the file system, the snapshot of the rows, the table of
  processes. A request is a step on a \<open>site\<close> made of all of these. What runs beside it is made
  explicit: the goroutines that build the rows write slots in any order; the goroutine that escalates
  a kill is a value in \<open>w_pending\<close> whose actions interleave with requests, with exits and with births
  of other processes (\<open>happens\<close>, \<open>runs\<close>, \<open>lives\<close>). Integers are HOL integers where the code cannot
  overflow for the values that reach it, and machine words where it can: the grace window (64 bits),
  \<open>int32(pid)\<close>, ports in network order (16 bits), the argument count (32 bits), the id.

  \<^bold>\<open>Parameters.\<close> Code outside the repository is an argument: the JSON encoder, the parser of the env
  file (godotenv), gopsutil, the kernel's answers, the run of \<^verbatim>\<open>lsof\<close>, the order in which a map is ranged over, the arrangement an unstable sort starts from, the clock at each reading,
  random bytes, and the failure of every system call. Theorems hold for all of them; the few that
  need one (a decoder that reads back what was encoded, in the round trip of the state file; an order
  that is a permutation) say so in a hypothesis. The handlers take the renderer of the pages as an
  argument too, because their properties hold for any; \<open>page_renderer\<close> of \<open>Pages\<close> is the one of the
  production binary, and the properties of \<open>PagesFacts\<close> and \<open>ServedPages\<close> are about it. Every property with hypotheses has a witness at
  concrete values.

  \<^bold>\<open>What is shown.\<close>

  \<^item> Authority: only authorized requests to mutation routes change anything, all other routes but the
    public ones refuse a request without credentials; an accepted cookie carries the HMAC of its
    stamp; a login authenticates for 24 hours exactly; the log is independent of the credentials.
  \<^item> Guessing: at most five wrong tokens of an address are looked at within any 15 minutes when requests
    are served one by one, the table stays bounded for every map order, and two limits of that:
    concurrent guesses, and a full table that unblocks its oldest address.
  \<^item> Signals: in the whole life of a dashboard no signal reaches itself, init or a process group; what a
    request does to processes is a run of the abstract manager; each SIGKILL follows a SIGTERM by the
    grace window at least, at most one for each; an escalation ends; and the limit: the SIGKILL may hit
    a later holder of the pid.
  \<^item> Store: it refines the abstract store, exactly so when the data fits the size limit; the limits
    hold after any sequence of operations and faults; the eviction loop ends and is fair; what was
    written is read again; every cut of every series of writes leaves a complete file.
  \<^item> Scanners: each reports exactly the listening sockets it is shown, in one order, and both agree on
    ports and processes when they are shown the same sockets.
  \<^item> Pages: each is rendered for all data; a browser reads in it the markup of the template and every
    value as it is, whatever bytes the value has; the values choose among the branches of a template
    and nothing else; the script of the dashboard reads back the configured host; the table is never
    answered with an internal error.
  \<^item> Flows across components: kill then restart, rename then rows, a failed scan after a good one, the
    configuration from the flags to the wired server, and a second start that reads back the secrets
    the first one generated.

  \<^bold>\<open>Termination and bounds.\<close> No definition uses fuel. Loops are structural recursions or functions with
  a measure (\<open>shrink\<close>: the number of entries; \<open>split_from\<close>, \<open>skip_while\<close>, \<open>collect_env\<close>: the bytes that
  are left; the trims, the decoding of UTF-8, the escapers and the reading of
  character references: the length). Times are unbounded integers, which is
  exact for \<open>time.Time\<close>; theorems that go through 64-bit stamps or float64 seconds bound the time
  (\<open>2 ^ 62\<close> ns, \<open>2 ^ 24\<close> s).

  \<^bold>\<open>Not modelled.\<close> The file server below \<^verbatim>\<open>/static/\<close>, which is \<^verbatim>\<open>http.FileServer\<close> over the embedded
  assets: its answer is an argument. The constructs of the template packages that the three
  templates do not use (variables, pipelines, \<^verbatim>\<open>define\<close>, attributes without quotes, actions in style
  sheets, in scripts outside of their strings and in URLs after their start): they are errors of the
  model. The character references with a name other than \<^verbatim>\<open>amp\<close>, \<^verbatim>\<open>lt\<close>, \<^verbatim>\<open>gt\<close>, \<^verbatim>\<open>quot\<close>. The JSON encoder of the log. The network below \<open>net/http\<close>, the enforcement of its
  timeouts, and the cancellation of a request; a context that ends during a scan is an error that
  the scan reports. The thin C wrappers around one system call each: their results are readings of
  the model. \<^verbatim>\<open>embed.go\<close> and \<^verbatim>\<open>tools/tools.go\<close> hold no code.
\<close>

end
